(* ===== verification/Prelude.thy ===== *)
theory Prelude
  imports Main
begin

text \<open>
  Shared ground of the development: the Go integers and the clock arithmetic of the standard
  library's \<open>time\<close> package, results of fallible calls as sums, and the list and map lemmas the
  components use.

  A \<open>time.Duration\<close> and an \<open>int64\<close> are integers together with the function \<open>int64\<close>, which
  wraps to 64 bits in two's complement; a \<open>time.Time\<close> is the integer number of nanoseconds since
  the Unix epoch (the code only uses wall-clock readings: every comparison goes through
  \<open>UnixNano\<close> or subtracts a time that carries no monotonic reading).
\<close>

section \<open>Collections\<close>

named_theorems go_time \<open>definitions of the clock arithmetic\<close>
named_theorems cache_ops \<open>definitions of the operations of the expiring cache\<close>
named_theorems cache_frame \<open>fields an operation leaves alone\<close>

section \<open>Integers and the clock\<close>

type_synonym time = int
type_synonym duration = int

definition int64 :: "int \<Rightarrow> int" where
  "int64 x = signed_take_bit 63 x"

definition in_int64 :: "int \<Rightarrow> bool" where
  "in_int64 x \<longleftrightarrow> - (2 ^ 63) \<le> x \<and> x < 2 ^ 63"

lemma int64_id: "in_int64 x \<Longrightarrow> int64 x = x"
  by (simp add: int64_def in_int64_def signed_take_bit_int_eq_self)

text \<open>\<open>t.UnixNano()\<close>: the nanoseconds since the epoch, truncated to an \<open>int64\<close>.\<close>

definition UnixNano :: "time \<Rightarrow> int" where
  [go_time]: "UnixNano t = int64 t"

text \<open>\<open>t.Add(d)\<close>.\<close>

definition time_Add :: "time \<Rightarrow> duration \<Rightarrow> time" where
  [go_time]: "time_Add t d = t + d"

text \<open>\<open>t.Sub(u)\<close> saturates at the least and the greatest duration.\<close>

definition time_Sub :: "time \<Rightarrow> time \<Rightarrow> duration" where
  [go_time]: "time_Sub t u = max (- (2 ^ 63)) (min (2 ^ 63 - 1) (t - u))"

lemma time_Sub_gt: "0 \<le> m \<Longrightarrow> m < time_Sub t u \<Longrightarrow> u + m < t"
  by (simp add: time_Sub_def)

lemma time_Sub_id: "in_int64 (t - u) \<Longrightarrow> time_Sub t u = t - u"
  by (simp add: time_Sub_def in_int64_def)

definition Second :: duration where
  "Second = 1000000000"

definition Minute :: duration where
  "Minute = 60 * Second"

definition Millisecond :: duration where
  "Millisecond = 1000000"

text \<open>The zero \<open>time.Time\<close>: midnight of 1 January of year 1.\<close>

definition zero_Time :: time where
  "zero_Time = - 62135596800 * 1000000000"

text \<open>Go's integer division truncates toward zero.\<close>

definition go_quot :: "int \<Rightarrow> int \<Rightarrow> int" where
  "go_quot x y = sgn x * sgn y * (\<bar>x\<bar> div \<bar>y\<bar>)"

section \<open>Results\<close>

text \<open>A call that may fail returns \<open>Inl\<close> of the error or \<open>Inr\<close> of the value.\<close>

definition bindE :: "'e + 'a \<Rightarrow> ('a \<Rightarrow> 'e + 'b) \<Rightarrow> 'e + 'b" where
  "bindE r f = (case r of Inl e \<Rightarrow> Inl e | Inr x \<Rightarrow> f x)"

lemma bindE_simps [simp]:
  "bindE (Inl e) f = Inl e"
  "bindE (Inr x) f = f x"
  by (simp_all add: bindE_def)

text \<open>A value or the panic that unwinds the goroutine.\<close>

datatype 'a go = Ret 'a | Panic

section \<open>Lists\<close>

lemma set_butlast_distinct: "xs \<noteq> [] \<Longrightarrow> distinct xs \<Longrightarrow> set (butlast xs) = set xs - {last xs}"
  by (cases xs rule: rev_cases) auto

lemma filter_last_butlast: "distinct xs \<Longrightarrow> filter (\<lambda>x. x \<noteq> last xs) xs = butlast xs"
  by (cases xs rule: rev_cases) (auto simp: filter_id_conv)

lemma map_filter_key:
  "map f (filter (\<lambda>x. P (f x)) xs) = filter P (map f xs)"
  by (simp add: filter_map comp_def)

lemma length_filter_neq_less:
  "x \<in> set xs \<Longrightarrow> length (filter (\<lambda>y. y \<noteq> x) xs) < length xs"
  by (rule length_filter_less[of x]) auto

lemma map_filter_cong:
  "(\<And>x. x \<in> set xs \<Longrightarrow> f x = g x) \<Longrightarrow> List.map_filter f xs = List.map_filter g xs"
  by (induction xs) (auto simp: List.map_filter_simps split: option.split)

lemma set_map_filter: "set (List.map_filter f xs) = {y. \<exists>x \<in> set xs. f x = Some y}"
  by (force simp: List.map_filter_def)

section \<open>Invariants of step relations\<close>

text \<open>
  A component with steps: an invariant that holds at the start and that every step keeps holds in
  every state some sequence of steps leads to.
\<close>

locale step_invariant =
  fixes init :: "'s \<Rightarrow> bool"
    and step :: "'s \<Rightarrow> 's \<Rightarrow> bool"
    and inv :: "'s \<Rightarrow> bool"
  assumes inv_init: "init s \<Longrightarrow> inv s"
    and inv_step: "step s t \<Longrightarrow> inv s \<Longrightarrow> inv t"
begin

lemma inv_steps: "step\<^sup>*\<^sup>* s t \<Longrightarrow> inv s \<Longrightarrow> inv t"
  by (induction rule: rtranclp_induct) (auto intro: inv_step)

lemma inv_reachable: "init s \<Longrightarrow> step\<^sup>*\<^sup>* s t \<Longrightarrow> inv t"
  using inv_init inv_steps by blast

end

end
