(* ===== verification/Lru.thy ===== *)
theory Lru
  imports Prelude
begin

text \<open>
  The LRU list of \<open>src/internal/cache/expiring/lru.go\<close>.

  A \<open>*list.Element\<close> of \<open>container/list\<close> is a pointer: it is modelled by a number drawn from the
  allocation counter \<open>lru_fresh\<close>, the doubly linked list by the sequence of its elements from
  front to back, each with the \<open>entry\<close> its \<open>Value\<close> points to, and the index \<open>c.cache\<close> by a map
  from keys to pointers (\<open>None\<close> for the nil map). The invariant \<open>lru_wf\<close> ties index and list
  together. The locale \<open>recency_queue\<close> states what a client relies on, in terms of the keys from
  the most to the least recent one; the interpretation \<open>lq\<close> discharges its laws for the code.
\<close>

section \<open>State\<close>

record ('k, 'v) entry =
  ent_key :: 'k
  ent_value :: 'v

record ('k, 'v) lruCache =
  MaxEntries :: int
  ll :: "(nat \<times> ('k, 'v) entry) list"
  lru_index :: "('k \<rightharpoonup> nat) option"
  lru_fresh :: nat

definition newLRU :: "int \<Rightarrow> ('k, 'v) lruCache" where
  "newLRU maxEntries =
     \<lparr>MaxEntries = maxEntries, ll = [], lru_index = Some Map.empty, lru_fresh = 0\<rparr>"

section \<open>The operations of container/list the code calls\<close>

definition MoveToFront :: "nat \<Rightarrow> (nat \<times> 'a) list \<Rightarrow> (nat \<times> 'a) list" where
  "MoveToFront p xs =
     (case map_of xs p of None \<Rightarrow> xs | Some e \<Rightarrow> (p, e) # filter (\<lambda>x. fst x \<noteq> p) xs)"

definition list_Remove :: "nat \<Rightarrow> (nat \<times> 'a) list \<Rightarrow> (nat \<times> 'a) list" where
  "list_Remove p xs = filter (\<lambda>x. fst x \<noteq> p) xs"

definition Back :: "(nat \<times> 'a) list \<Rightarrow> (nat \<times> 'a) option" where
  "Back xs = (if xs = [] then None else Some (last xs))"

text \<open>Writing the \<open>value\<close> field of the entry an element points to.\<close>

definition set_value :: "nat \<Rightarrow> 'v \<Rightarrow> (nat \<times> ('k, 'v) entry) list \<Rightarrow> (nat \<times> ('k, 'v) entry) list"
  where
  "set_value p v xs = map (\<lambda>(q, e). (q, if q = p then e\<lparr>ent_value := v\<rparr> else e)) xs"

section \<open>Operations\<close>

text \<open>\<open>delete\<close> and the lookup of a Go map that may be nil.\<close>

definition index_get :: "('k, 'v) lruCache \<Rightarrow> 'k \<Rightarrow> nat option" where
  "index_get c k = (case lru_index c of None \<Rightarrow> None | Some m \<Rightarrow> m k)"

definition removeElement :: "('k, 'v) lruCache \<Rightarrow> nat \<times> ('k, 'v) entry \<Rightarrow> ('k, 'v) lruCache" where
  "removeElement c e =
     c\<lparr>ll := list_Remove (fst e) (ll c),
       lru_index := map_option (\<lambda>m. m(ent_key (snd e) := None)) (lru_index c)\<rparr>"

text \<open>
  On an empty, non-nil list \<open>RemoveOldest\<close> reads \<open>ele.Value\<close> of a nil element: a panic.
\<close>

definition RemoveOldest :: "('k, 'v) lruCache \<Rightarrow> (('k, 'v) lruCache \<times> ('k, 'v) entry option) go" where
  "RemoveOldest c =
     (case lru_index c of
        None \<Rightarrow> Ret (c, None)
      | Some _ \<Rightarrow>
          (case Back (ll c) of
             None \<Rightarrow> Panic
           | Some ele \<Rightarrow> Ret (removeElement c ele, Some (snd ele))))"

definition lru_init_if_nil :: "('k, 'v) lruCache \<Rightarrow> ('k, 'v) lruCache" where
  "lru_init_if_nil c =
     (if lru_index c = None then c\<lparr>lru_index := Some Map.empty, ll := []\<rparr> else c)"

definition PushFront :: "('k, 'v) lruCache \<Rightarrow> 'k \<Rightarrow> 'v \<Rightarrow> ('k, 'v) lruCache" where
  "PushFront c k v =
     c\<lparr>ll := (lru_fresh c, \<lparr>ent_key = k, ent_value = v\<rparr>) # ll c,
       lru_index := map_option (\<lambda>m. m(k \<mapsto> lru_fresh c)) (lru_index c),
       lru_fresh := Suc (lru_fresh c)\<rparr>"

definition lru_Add_go ::
  "('k, 'v) lruCache \<Rightarrow> 'k \<Rightarrow> 'v \<Rightarrow> (('k, 'v) lruCache \<times> ('k, 'v) entry option) go" where
  "lru_Add_go c0 key value =
     (let c = lru_init_if_nil c0 in
      case index_get c key of
        Some ee \<Rightarrow> Ret (c\<lparr>ll := set_value ee value (MoveToFront ee (ll c))\<rparr>, None)
      | None \<Rightarrow>
          (let c' = PushFront c key value in
           if MaxEntries c' \<noteq> 0 \<and> int (length (ll c')) > MaxEntries c'
           then RemoveOldest c'
           else Ret (c', None)))"

text \<open>
  \<open>RemoveOldest\<close> is reached only after a push, so \<open>Add\<close> always returns (\<open>lru_Add_go_returns\<close>
  below); \<open>lru_Add\<close> is its result.
\<close>

definition lru_Add :: "('k, 'v) lruCache \<Rightarrow> 'k \<Rightarrow> 'v \<Rightarrow> ('k, 'v) lruCache \<times> ('k, 'v) entry option"
  where
  "lru_Add c key value = (case lru_Add_go c key value of Ret r \<Rightarrow> r | Panic \<Rightarrow> (c, None))"

definition lru_Get :: "('k, 'v) lruCache \<Rightarrow> 'k \<Rightarrow> ('k, 'v) lruCache \<times> 'v option" where
  "lru_Get c key =
     (case index_get c key of
        None \<Rightarrow> (c, None)
      | Some ele \<Rightarrow>
          (c\<lparr>ll := MoveToFront ele (ll c)\<rparr>, map_option ent_value (map_of (ll c) ele)))"

definition lru_Remove :: "('k, 'v) lruCache \<Rightarrow> 'k \<Rightarrow> ('k, 'v) lruCache \<times> 'v option" where
  "lru_Remove c key =
     (case index_get c key of
        None \<Rightarrow> (c, None)
      | Some ele \<Rightarrow>
          (case map_of (ll c) ele of
             None \<Rightarrow> (c, None)
           | Some en \<Rightarrow> (removeElement c (ele, en), Some (ent_value en))))"

definition lru_Len :: "('k, 'v) lruCache \<Rightarrow> nat" where
  "lru_Len c = (if lru_index c = None then 0 else length (ll c))"

section \<open>Invariant and abstraction\<close>

definition lru_keys :: "('k, 'v) lruCache \<Rightarrow> 'k list" where
  "lru_keys c = map (ent_key \<circ> snd) (ll c)"

definition lru_linked :: "('k, 'v) lruCache \<Rightarrow> bool" where
  "lru_linked c \<longleftrightarrow>
     lru_index c \<noteq> None \<and>
     distinct (map fst (ll c)) \<and> distinct (lru_keys c) \<and>
     (\<forall>p \<in> fst ` set (ll c). p < lru_fresh c) \<and>
     (\<forall>k p. index_get c k = Some p \<longleftrightarrow> (\<exists>e. (p, e) \<in> set (ll c) \<and> ent_key e = k))"

definition lru_bounded :: "('k, 'v) lruCache \<Rightarrow> bool" where
  "lru_bounded c \<longleftrightarrow> (MaxEntries c \<noteq> 0 \<longrightarrow> int (length (lru_keys c)) \<le> max 0 (MaxEntries c))"

definition lru_wf :: "('k, 'v) lruCache \<Rightarrow> bool" where
  "lru_wf c \<longleftrightarrow> lru_linked c \<and> lru_bounded c"


section \<open>The list under the invariant\<close>

lemma lru_keys_upd [simp]:
  "lru_keys (c\<lparr>lru_index := i\<rparr>) = lru_keys c" "lru_keys (c\<lparr>lru_fresh := n\<rparr>) = lru_keys c"
  "lru_keys (c\<lparr>ll := xs\<rparr>) = map (ent_key \<circ> snd) xs"
  by (simp_all add: lru_keys_def)

lemma length_lru_keys: "length (lru_keys c) = length (ll c)"
  by (simp add: lru_keys_def)

lemma linked_lookup:
  assumes "lru_linked c" and "index_get c k = Some p"
  obtains e where "map_of (ll c) p = Some e" and "ent_key e = k" and "(p, e) \<in> set (ll c)"
  using assms by (auto simp: lru_linked_def)

lemma linked_get_None: "lru_linked c \<Longrightarrow> index_get c k = None \<longleftrightarrow> k \<notin> set (lru_keys c)"
proof -
  assume l: "lru_linked c"
  have "(\<exists>p. index_get c k = Some p) \<longleftrightarrow> k \<in> set (lru_keys c)"
    using l by (force simp: lru_linked_def lru_keys_def)
  then show ?thesis by (cases "index_get c k") auto
qed

lemma same_pointer_same_key:
  assumes "lru_linked c" and "(p, e) \<in> set (ll c)" and "x \<in> set (ll c)"
  shows "fst x = p \<longleftrightarrow> ent_key (snd x) = ent_key e"
proof -
  obtain q e' where x: "x = (q, e')" by (cases x)
  have "index_get c (ent_key e) = Some p" "index_get c (ent_key e') = Some q"
    using assms x unfolding lru_linked_def by blast+
  moreover have "q = p \<Longrightarrow> e' = e"
    using assms x by (auto simp: lru_linked_def dest: eq_key_imp_eq_value)
  ultimately show ?thesis using x by auto
qed

lemma filter_pointer_key:
  assumes "lru_linked c" and "(p, e) \<in> set (ll c)"
  shows "filter (\<lambda>x. fst x \<noteq> p) (ll c) = filter (\<lambda>x. ent_key (snd x) \<noteq> ent_key e) (ll c)"
  using same_pointer_same_key[OF assms] by (intro filter_cong) auto

lemma keys_without:
  assumes "lru_linked c" and "(p, e) \<in> set (ll c)"
  shows "map (ent_key \<circ> snd) (filter (\<lambda>x. fst x \<noteq> p) (ll c)) = filter (\<lambda>k. k \<noteq> ent_key e) (lru_keys c)"
  unfolding filter_pointer_key[OF assms] lru_keys_def
  using map_filter_key[of "ent_key \<circ> snd" "\<lambda>k. k \<noteq> ent_key e"] by simp

lemma map_key_set_value [simp]:
  "map (ent_key \<circ> snd) (set_value p v xs) = map (ent_key \<circ> snd) xs"
  "map fst (set_value p v xs) = map fst xs"
  by (auto simp: set_value_def)

lemma set_value_mem:
  "(q, e) \<in> set (set_value p v xs) \<longleftrightarrow>
     (\<exists>e'. (q, e') \<in> set xs \<and> e = (if q = p then e'\<lparr>ent_value := v\<rparr> else e'))"
  by (induction xs) (auto simp: set_value_def)

section \<open>Every operation keeps the links\<close>

lemma linked_newLRU: "lru_linked (newLRU n)"
  by (simp add: lru_linked_def newLRU_def lru_keys_def index_get_def)

lemma linked_init_if_nil: "lru_linked c \<Longrightarrow> lru_init_if_nil c = c"
  by (auto simp: lru_init_if_nil_def lru_linked_def)

lemma linked_PushFront:
  assumes l: "lru_linked c" and k: "k \<notin> set (lru_keys c)"
  shows "lru_linked (PushFront c k v)"
proof -
  obtain m where m: "lru_index c = Some m" using l by (auto simp: lru_linked_def)
  have fresh: "lru_fresh c \<notin> fst ` set (ll c)" using l by (auto simp: lru_linked_def)
  have idx: "\<And>k' p. m k' = Some p \<longleftrightarrow> (\<exists>e. (p, e) \<in> set (ll c) \<and> ent_key e = k')"
    using l m by (auto simp: lru_linked_def index_get_def)
  have dk: "distinct (map (ent_key \<circ> snd) (ll c))"
    using l by (simp add: lru_linked_def lru_keys_def)
  have kk: "\<And>p e. (p, e) \<in> set (ll c) \<Longrightarrow> ent_key e \<noteq> k"
    using k by (force simp: lru_keys_def)
  show ?thesis
    using l m fresh dk kk k
    by (auto simp: lru_linked_def PushFront_def index_get_def idx lru_keys_def less_Suc_eq)
qed

lemma linked_removeElement:
  assumes l: "lru_linked c" and e: "(p, e) \<in> set (ll c)"
  shows "lru_linked (removeElement c (p, e))"
proof -
  obtain m where m: "lru_index c = Some m" using l by (auto simp: lru_linked_def)
  have idx: "\<And>k p. m k = Some p \<longleftrightarrow> (\<exists>e. (p, e) \<in> set (ll c) \<and> ent_key e = k)"
    using l m by (auto simp: lru_linked_def index_get_def)
  have key: "\<And>q e'. (q, e') \<in> set (ll c) \<Longrightarrow> q = p \<longleftrightarrow> ent_key e' = ent_key e"
    using same_pointer_same_key[OF l e] by fastforce
  have "distinct (map (ent_key \<circ> snd) (filter (\<lambda>x. fst x \<noteq> p) (ll c)))"
    using keys_without[OF l e] l by (simp add: lru_linked_def)
  then show ?thesis
    using l m key
    by (auto simp: lru_linked_def removeElement_def list_Remove_def index_get_def idx
        distinct_map_filter split: if_splits)
qed

lemma linked_MoveToFront:
  assumes l: "lru_linked c" and e: "(p, e) \<in> set (ll c)"
  shows "lru_linked (c\<lparr>ll := MoveToFront p (ll c)\<rparr>)"
proof -
  have mo: "map_of (ll c) p = Some e" using l e by (simp add: lru_linked_def)
  have sets: "set (MoveToFront p (ll c)) = set (ll c)"
  proof -
    have "\<And>e'. (p, e') \<in> set (ll c) \<Longrightarrow> e' = e"
      using l e by (auto simp: lru_linked_def dest: eq_key_imp_eq_value)
    then have "set (ll c) = insert (p, e) {x \<in> set (ll c). fst x \<noteq> p}"
      using e by fastforce
    then show ?thesis by (simp add: MoveToFront_def mo)
  qed
  have "distinct (map (ent_key \<circ> snd) (MoveToFront p (ll c)))"
    using keys_without[OF l e] l by (simp add: MoveToFront_def mo lru_linked_def)
  moreover have "distinct (map fst (MoveToFront p (ll c)))"
    using l by (auto simp: MoveToFront_def mo lru_linked_def distinct_map_filter)
  ultimately show ?thesis
    using l sets by (simp add: lru_linked_def index_get_def)
qed

lemma linked_set_value:
  assumes "lru_linked c"
  shows "lru_linked (c\<lparr>ll := set_value p v (ll c)\<rparr>)"
proof -
  have "fst ` set (set_value p v (ll c)) = fst ` set (ll c)"
    by (metis map_key_set_value(2) set_map)
  moreover have "(\<exists>e. (q, e) \<in> set (set_value p v (ll c)) \<and> ent_key e = k) \<longleftrightarrow>
      (\<exists>e. (q, e) \<in> set (ll c) \<and> ent_key e = k)" for q k
    unfolding set_value_mem by (cases "q = p") force+
  ultimately show ?thesis
    using assms by (simp add: lru_linked_def index_get_def lru_keys_def)
qed


section \<open>The recency list as the specification\<close>

text \<open>
  What \<open>Add\<close> does to the keys, most recent first: an existing key moves to the front; a new key
  is pushed to the front and, where that exceeds the capacity, the last key is dropped and
  returned. Capacity 0 means no limit.
\<close>

definition recency_add :: "int \<Rightarrow> 'k \<Rightarrow> 'k list \<Rightarrow> 'k list \<times> 'k option" where
  "recency_add cap k ks =
     (if k \<in> set ks then (k # filter (\<lambda>x. x \<noteq> k) ks, None)
      else if cap \<noteq> 0 \<and> int (length ks) + 1 > cap then (butlast (k # ks), Some (last (k # ks)))
      else (k # ks, None))"

definition recency_touch :: "'k \<Rightarrow> 'k list \<Rightarrow> 'k list" where
  "recency_touch k ks = (if k \<in> set ks then k # filter (\<lambda>x. x \<noteq> k) ks else ks)"

lemma keys_MoveToFront:
  assumes "lru_linked c" and "(p, e) \<in> set (ll c)"
  shows "map (ent_key \<circ> snd) (MoveToFront p (ll c)) = ent_key e # filter (\<lambda>k. k \<noteq> ent_key e) (lru_keys c)"
proof -
  have "map_of (ll c) p = Some e" using assms by (simp add: lru_linked_def)
  then show ?thesis using keys_without[OF assms] by (simp add: MoveToFront_def)
qed

lemma lru_Add_hit:
  assumes "lru_linked c" and "k \<in> set (lru_keys c)"
  obtains c' where "lru_Add_go c k v = Ret (c', None)" and "lru_linked c'"
    and "lru_keys c' = k # filter (\<lambda>x. x \<noteq> k) (lru_keys c)" and "MaxEntries c' = MaxEntries c"
proof -
  obtain p where p: "index_get c k = Some p"
    using assms linked_get_None[of c k] by auto
  obtain e where e: "(p, e) \<in> set (ll c)" "ent_key e = k"
    by (rule linked_lookup[OF assms(1) p])
  have "lru_linked (c\<lparr>ll := set_value p v (MoveToFront p (ll c))\<rparr>)"
    using linked_set_value[OF linked_MoveToFront[OF assms(1) e(1)], of p v] by simp
  then show ?thesis
    by (rule that[rotated])
      (simp_all add: lru_Add_go_def linked_init_if_nil[OF assms(1)] p e(2)
        keys_MoveToFront[OF assms(1) e(1)])
qed

lemma lru_Add_room:
  assumes "lru_linked c" and "k \<notin> set (lru_keys c)"
    and "\<not> (MaxEntries c \<noteq> 0 \<and> int (length (lru_keys c)) + 1 > MaxEntries c)"
  shows "lru_Add_go c k v = Ret (PushFront c k v, None)"
  using assms linked_get_None[OF assms(1), of k]
  by (auto simp: lru_Add_go_def linked_init_if_nil PushFront_def length_lru_keys)

lemma lru_Add_full:
  assumes "lru_linked c" and "k \<notin> set (lru_keys c)"
    and "MaxEntries c \<noteq> 0" and "int (length (lru_keys c)) + 1 > MaxEntries c"
  obtains c' e where "lru_Add_go c k v = Ret (c', Some e)" and "lru_linked c'"
    and "lru_keys c' = butlast (k # lru_keys c)" and "ent_key e = last (k # lru_keys c)"
    and "MaxEntries c' = MaxEntries c"
proof -
  let ?c = "PushFront c k v"
  have lk: "lru_linked ?c" using assms(1,2) by (rule linked_PushFront)
  have ks: "lru_keys ?c = k # lru_keys c" by (simp add: PushFront_def lru_keys_def)
  have ne: "ll ?c \<noteq> []" by (simp add: PushFront_def)
  obtain p e where pe: "last (ll ?c) = (p, e)" by (cases "last (ll ?c)")
  have mem: "(p, e) \<in> set (ll ?c)" using last_in_set[OF ne] pe by simp
  have key: "ent_key e = last (k # lru_keys c)"
    unfolding ks[symmetric] using ne pe by (simp add: lru_keys_def last_map)
  have "lru_Add_go c k v = Ret (removeElement ?c (p, e), Some e)"
    using assms lk ne pe linked_get_None[OF assms(1), of k]
    by (auto simp: lru_Add_go_def linked_init_if_nil RemoveOldest_def Back_def PushFront_def
        lru_linked_def length_lru_keys)
  moreover have "lru_keys (removeElement ?c (p, e)) = butlast (k # lru_keys c)"
  proof -
    have d: "distinct (k # lru_keys c)" using lk ks by (simp add: lru_linked_def)
    have "lru_keys (removeElement ?c (p, e)) = filter (\<lambda>x. x \<noteq> last (k # lru_keys c)) (k # lru_keys c)"
      using keys_without[OF lk mem] ks key by (simp add: removeElement_def list_Remove_def)
    also have "\<dots> = butlast (k # lru_keys c)"
      using d by (rule filter_last_butlast)
    finally show ?thesis .
  qed
  ultimately show ?thesis
    using that[OF _ linked_removeElement[OF lk mem]] key
    by (simp add: removeElement_def PushFront_def)
qed

lemma lru_Add_go_returns:
  assumes "lru_linked c"
  shows "lru_Add_go c k v = Ret (lru_Add c k v)"
proof -
  have "\<exists>r. lru_Add_go c k v = Ret r"
  proof (cases "k \<in> set (lru_keys c)")
    case True
    then show ?thesis by (rule lru_Add_hit[OF assms]) blast
  next
    case False
    then show ?thesis using lru_Add_room[OF assms False] by (metis lru_Add_full[OF assms False])
  qed
  then show ?thesis by (auto simp: lru_Add_def)
qed

lemma lru_Add_recency:
  assumes l: "lru_linked c"
  shows "lru_linked (fst (lru_Add c k v)) \<and> MaxEntries (fst (lru_Add c k v)) = MaxEntries c \<and>
    (lru_keys (fst (lru_Add c k v)), map_option ent_key (snd (lru_Add c k v)))
      = recency_add (MaxEntries c) k (lru_keys c)"
proof -
  consider (hit) "k \<in> set (lru_keys c)"
    | (full) "k \<notin> set (lru_keys c)" "MaxEntries c \<noteq> 0" "int (length (lru_keys c)) + 1 > MaxEntries c"
    | (room) "k \<notin> set (lru_keys c)" "\<not> (MaxEntries c \<noteq> 0 \<and> int (length (lru_keys c)) + 1 > MaxEntries c)"
    by blast
  then show ?thesis
  proof cases
    case hit
    obtain c' where "lru_Add_go c k v = Ret (c', None)" "lru_linked c'"
      "lru_keys c' = k # filter (\<lambda>x. x \<noteq> k) (lru_keys c)" "MaxEntries c' = MaxEntries c"
      by (rule lru_Add_hit[OF l hit])
    then show ?thesis using hit by (simp add: lru_Add_def recency_add_def)
  next
    case full
    obtain c' e where "lru_Add_go c k v = Ret (c', Some e)" "lru_linked c'"
      "lru_keys c' = butlast (k # lru_keys c)" "ent_key e = last (k # lru_keys c)"
      "MaxEntries c' = MaxEntries c"
      by (rule lru_Add_full[OF l full])
    then show ?thesis using full by (simp add: lru_Add_def recency_add_def)
  next
    case room
    then show ?thesis
      using lru_Add_room[OF l room] linked_PushFront[OF l room(1)]
      by (auto simp: lru_Add_def recency_add_def PushFront_def lru_keys_def)
  qed
qed

lemma lru_Get_recency:
  assumes l: "lru_linked c"
  shows "lru_linked (fst (lru_Get c k)) \<and> MaxEntries (fst (lru_Get c k)) = MaxEntries c \<and>
    lru_keys (fst (lru_Get c k)) = recency_touch k (lru_keys c) \<and>
    (snd (lru_Get c k) = None \<longleftrightarrow> k \<notin> set (lru_keys c))"
proof (cases "index_get c k")
  case None
  then show ?thesis
    using l linked_get_None[OF l, of k] by (simp add: lru_Get_def recency_touch_def)
next
  case (Some p)
  obtain e where e: "map_of (ll c) p = Some e" "ent_key e = k" "(p, e) \<in> set (ll c)"
    by (rule linked_lookup[OF l Some])
  moreover have "k \<in> set (lru_keys c)" using linked_get_None[OF l, of k] Some by simp
  ultimately show ?thesis
    using Some linked_MoveToFront[OF l e(3)] keys_MoveToFront[OF l e(3)]
    by (simp add: lru_Get_def recency_touch_def)
qed

lemma lru_Remove_recency:
  assumes l: "lru_linked c"
  shows "lru_linked (fst (lru_Remove c k)) \<and> MaxEntries (fst (lru_Remove c k)) = MaxEntries c \<and>
    lru_keys (fst (lru_Remove c k)) = filter (\<lambda>x. x \<noteq> k) (lru_keys c) \<and>
    (snd (lru_Remove c k) = None \<longleftrightarrow> k \<notin> set (lru_keys c))"
proof (cases "index_get c k")
  case None
  moreover have "k \<notin> set (lru_keys c)" using linked_get_None[OF l, of k] None by simp
  moreover from this have "filter (\<lambda>x. x \<noteq> k) (lru_keys c) = lru_keys c"
    by (auto simp: filter_id_conv)
  ultimately show ?thesis using l by (simp add: lru_Remove_def)
next
  case (Some p)
  obtain e where e: "map_of (ll c) p = Some e" "ent_key e = k" "(p, e) \<in> set (ll c)"
    by (rule linked_lookup[OF l Some])
  moreover have "k \<in> set (lru_keys c)" using linked_get_None[OF l, of k] Some by simp
  moreover have "lru_linked (removeElement c (p, e))" by (rule linked_removeElement[OF l e(3)])
  ultimately show ?thesis
    using Some keys_without[OF l e(3)]
    by (simp add: lru_Remove_def) (simp add: removeElement_def list_Remove_def)
qed

section \<open>The interface a client relies on\<close>

locale recency_queue =
  fixes keys :: "'q \<Rightarrow> 'k list"
    and cap :: "'q \<Rightarrow> int"
    and invar :: "'q \<Rightarrow> bool"
    and add :: "'q \<Rightarrow> 'k \<Rightarrow> 'q \<times> 'k option"
    and touch :: "'q \<Rightarrow> 'k \<Rightarrow> 'q"
    and remove :: "'q \<Rightarrow> 'k \<Rightarrow> 'q"
  assumes distinct_keys: "invar q \<Longrightarrow> distinct (keys q)"
    and bound: "invar q \<Longrightarrow> cap q \<noteq> 0 \<Longrightarrow> int (length (keys q)) \<le> max 0 (cap q)"
    and add_keys: "invar q \<Longrightarrow> (keys (fst (add q k)), snd (add q k)) = recency_add (cap q) k (keys q)"
    and touch_keys: "invar q \<Longrightarrow> keys (touch q k) = recency_touch k (keys q)"
    and remove_keys: "invar q \<Longrightarrow> keys (remove q k) = filter (\<lambda>x. x \<noteq> k) (keys q)"
    and cap_add: "invar q \<Longrightarrow> cap (fst (add q k)) = cap q"
    and cap_touch: "invar q \<Longrightarrow> cap (touch q k) = cap q"
    and cap_remove: "invar q \<Longrightarrow> cap (remove q k) = cap q"
    and invar_add: "invar q \<Longrightarrow> invar (fst (add q k))"
    and invar_touch: "invar q \<Longrightarrow> invar (touch q k)"
    and invar_remove: "invar q \<Longrightarrow> invar (remove q k)"
begin

lemma set_touch: "invar q \<Longrightarrow> set (keys (touch q k)) = set (keys q)"
  by (auto simp: touch_keys recency_touch_def)

lemma set_remove: "invar q \<Longrightarrow> set (keys (remove q k)) = set (keys q) - {k}"
  by (auto simp: remove_keys)

lemma add_keysD:
  assumes "invar q"
  shows "keys (fst (add q k)) = fst (recency_add (cap q) k (keys q))"
    and "snd (add q k) = snd (recency_add (cap q) k (keys q))"
  using add_keys[OF assms, of k] by (metis fst_conv, metis snd_conv)

lemma add_evicts_iff:
  assumes "invar q"
  shows "snd (add q k) \<noteq> None \<longleftrightarrow>
    k \<notin> set (keys q) \<and> cap q \<noteq> 0 \<and> cap q \<le> int (length (keys q))"
  by (auto simp: add_keysD[OF assms] recency_add_def)

lemma add_evicts_last:
  assumes "invar q" and "0 \<le> cap q" and "snd (add q k) = Some e"
  shows "e \<noteq> k \<and> keys q \<noteq> [] \<and> e = last (keys q)"
proof -
  have c: "k \<notin> set (keys q)" "0 < cap q" "cap q \<le> int (length (keys q))"
    using add_evicts_iff[OF assms(1), of k] assms(2,3) by auto
  then have "keys q \<noteq> []" by auto
  moreover have "e = last (keys q)"
    using c calculation assms(3) by (simp add: add_keysD[OF assms(1)] recency_add_def split: if_splits)
  ultimately show ?thesis using c(1) by auto
qed

lemma add_front:
  assumes "invar q" and "0 \<le> cap q"
  shows "keys (fst (add q k)) \<noteq> [] \<and> hd (keys (fst (add q k))) = k"
proof -
  have "cap q \<noteq> 0 \<Longrightarrow> cap q \<le> int (length (keys q)) \<Longrightarrow> keys q \<noteq> []" using assms(2) by auto
  then show ?thesis by (auto simp: add_keysD[OF assms(1)] recency_add_def)
qed

lemma set_add:
  assumes "invar q" and "0 \<le> cap q"
  shows "set (keys (fst (add q k))) =
    (case snd (add q k) of None \<Rightarrow> insert k (set (keys q)) | Some e \<Rightarrow> insert k (set (keys q)) - {e})"
proof (cases "snd (add q k)")
  case None
  then show ?thesis
    using add_evicts_iff[OF assms(1), of k]
    by (auto simp: add_keysD[OF assms(1)] recency_add_def)
next
  case (Some e)
  have c: "k \<notin> set (keys q)" "cap q \<noteq> 0" "cap q \<le> int (length (keys q))"
    using Some add_evicts_iff[OF assms(1), of k] by auto
  have e: "e \<noteq> k" "keys q \<noteq> []" "e = last (keys q)"
    using add_evicts_last[OF assms Some] by auto
  have "set (keys (fst (add q k))) = set (butlast (k # keys q))"
    using c by (simp add: add_keysD(1)[OF assms(1)] recency_add_def)
  also have "\<dots> = set (k # keys q) - {last (k # keys q)}"
    using c(1) distinct_keys[OF assms(1)] by (intro set_butlast_distinct) auto
  finally show ?thesis using e Some by simp
qed

lemma negative_cap_empty: "invar q \<Longrightarrow> cap q < 0 \<Longrightarrow> keys q = []"
  using bound[of q] by simp

end

section \<open>The code implements the interface\<close>

lemma recency_add_bounded:
  assumes "cap \<noteq> 0 \<Longrightarrow> int (length ks) \<le> max 0 cap"
  shows "cap \<noteq> 0 \<Longrightarrow> int (length (fst (recency_add cap k ks))) \<le> max 0 cap"
proof (cases "k \<in> set ks")
  case True
  assume "cap \<noteq> 0"
  then show ?thesis
    using True assms length_filter_neq_less[OF True] by (simp add: recency_add_def)
next
  case False
  assume "cap \<noteq> 0"
  then show ?thesis using False assms by (auto simp: recency_add_def)
qed

lemma lru_wf_newLRU: "lru_wf (newLRU n)"
  using linked_newLRU by (auto simp: lru_wf_def lru_bounded_def newLRU_def lru_keys_def)

lemma lru_wf_Add: "lru_wf c \<Longrightarrow> lru_wf (fst (lru_Add c k v))"
proof -
  assume wf: "lru_wf c"
  let ?c = "fst (lru_Add c k v)"
  have r: "lru_linked ?c" "MaxEntries ?c = MaxEntries c"
    "lru_keys ?c = fst (recency_add (MaxEntries c) k (lru_keys c))"
    using wf lru_Add_recency[of c k v] unfolding lru_wf_def by (metis fst_conv)+
  have "MaxEntries c \<noteq> 0 \<Longrightarrow> int (length (lru_keys ?c)) \<le> max 0 (MaxEntries c)"
    unfolding r(3) by (rule recency_add_bounded) (use wf in \<open>auto simp: lru_wf_def lru_bounded_def\<close>)
  then show ?thesis using r by (auto simp: lru_wf_def lru_bounded_def)
qed

lemma lru_wf_Get: "lru_wf c \<Longrightarrow> lru_wf (fst (lru_Get c k))"
proof -
  assume wf: "lru_wf c"
  have "length (lru_keys (fst (lru_Get c k))) \<le> length (lru_keys c)"
    using wf lru_Get_recency[of c k] length_filter_neq_less[of k "lru_keys c"]
    by (auto simp: lru_wf_def recency_touch_def)
  then show ?thesis using wf lru_Get_recency[of c k] by (auto simp: lru_wf_def lru_bounded_def)
qed

lemma lru_wf_Remove: "lru_wf c \<Longrightarrow> lru_wf (fst (lru_Remove c k))"
proof -
  assume wf: "lru_wf c"
  have "length (lru_keys (fst (lru_Remove c k))) \<le> length (lru_keys c)"
    using wf lru_Remove_recency[of c k] by (simp add: lru_wf_def)
  moreover have "lru_linked (fst (lru_Remove c k))" "MaxEntries (fst (lru_Remove c k)) = MaxEntries c"
    using wf lru_Remove_recency[of c k] by (simp_all add: lru_wf_def)
  ultimately show ?thesis using wf unfolding lru_wf_def lru_bounded_def by linarith
qed

interpretation lq: recency_queue lru_keys MaxEntries lru_wf
  "\<lambda>c k. (fst (lru_Add c k v), map_option ent_key (snd (lru_Add c k v)))"
  "\<lambda>c k. fst (lru_Get c k)" "\<lambda>c k. fst (lru_Remove c k)" for v
proof (unfold_locales, goal_cases)
  case (2 q)
  then show ?case by (auto simp: lru_wf_def lru_bounded_def)
qed (simp_all add: lru_Add_recency lru_Get_recency lru_Remove_recency lru_wf_Add lru_wf_Get
    lru_wf_Remove lru_wf_def[THEN iffD1, THEN conjunct1], simp add: lru_wf_def lru_linked_def)

end
