(* ===== verification/Expiring_Cache.thy ===== *)
theory Expiring_Cache
  imports Lru
begin

text \<open>
  The expiring cache of \<open>src/internal/cache/expiring/cache.go\<close>: a map from keys to items with a
  refresh and an expiration time, whose keys are also tracked by the LRU list, and the janitor
  that refreshes and evicts.

  Each method holds the mutex while it works on the maps, so it is one atomic function on the
  state. A pair \<open>(V, bool)\<close> result is an option, the zero value with \<open>false\<close> being \<open>None\<close>. A
  reading of \<open>time.Now()\<close> is an argument, one per call of it. A callback field holds a function
  that builds the description, of type \<open>'e\<close>, of the call to make; a method returns the list of the
  eviction callbacks it makes after unlocking, in their order. Where Go ranges over a map, in an
  order that is not specified, the order is an argument: a function from the map to the list of
  its keys (\<open>range_of\<close>).
\<close>

section \<open>State\<close>

definition NoExpiration :: duration where
  "NoExpiration = -1"

definition NoRefresh :: duration where
  "NoRefresh = -1"

definition DefaultExpiration :: duration where
  "DefaultExpiration = 0"

record 'v Item =
  Object :: 'v
  Refresh :: int
  Expiration :: int

text \<open>The janitor: its interval and whether a stop message waits in its channel.\<close>

record janitor =
  Interval :: duration
  stop_sent :: bool

record ('k, 'v, 'e) cache =
  defaultExpiration :: duration
  items :: "'k \<rightharpoonup> 'v Item"
  onEvicted :: "('k \<Rightarrow> 'v \<Rightarrow> 'e) option"
  onRefresh :: "('k \<Rightarrow> 'v \<Rightarrow> 'e) option"
  cache_janitor :: "janitor option"
  lru :: "('k, bool) lruCache"

datatype 'k cache_error = AlreadyExists 'k | DoesntExist 'k

text \<open>A Go map ranged over in some order.\<close>

definition range_of :: "(('k \<rightharpoonup> 'a) \<Rightarrow> 'k list) \<Rightarrow> ('k \<rightharpoonup> 'a) \<Rightarrow> bool" where
  "range_of ord m \<longleftrightarrow> distinct (ord m) \<and> set (ord m) = dom m"

section \<open>Construction\<close>

definition newCache :: "int \<Rightarrow> duration \<Rightarrow> ('k \<rightharpoonup> 'v Item) \<Rightarrow> ('k, 'v, 'e) cache" where
  "newCache maxEntries de m =
     \<lparr>defaultExpiration = (if de = 0 then -1 else de), items = m, onEvicted = None,
      onRefresh = None, cache_janitor = None, lru = newLRU maxEntries\<rparr>"

definition runJanitor :: "('k, 'v, 'e) cache \<Rightarrow> duration \<Rightarrow> ('k, 'v, 'e) cache" where
  "runJanitor c ci = c\<lparr>cache_janitor := Some \<lparr>Interval = ci, stop_sent = False\<rparr>\<rparr>"

definition newCacheWithJanitor ::
  "int \<Rightarrow> duration \<Rightarrow> duration \<Rightarrow> ('k \<rightharpoonup> 'v Item) \<Rightarrow> ('k, 'v, 'e) cache" where
  "newCacheWithJanitor maxEntries de ci m =
     (let c = newCache maxEntries de m in if ci > 0 then runJanitor c ci else c)"

definition NewLru :: "int \<Rightarrow> duration \<Rightarrow> duration \<Rightarrow> ('k, 'v, 'e) cache" where
  "NewLru maxEntries de ci = newCacheWithJanitor maxEntries de ci Map.empty"

definition OnEvicted :: "('k, 'v, 'e) cache \<Rightarrow> ('k \<Rightarrow> 'v \<Rightarrow> 'e) option \<Rightarrow> ('k, 'v, 'e) cache" where
  "OnEvicted c f = c\<lparr>onEvicted := f\<rparr>"

definition OnRefresh :: "('k, 'v, 'e) cache \<Rightarrow> ('k \<Rightarrow> 'v \<Rightarrow> 'e) option \<Rightarrow> ('k, 'v, 'e) cache" where
  "OnRefresh c f = c\<lparr>onRefresh := f\<rparr>"

section \<open>The unexported helpers\<close>

definition Expired :: "time \<Rightarrow> 'v Item \<Rightarrow> bool" where
  "Expired now i \<longleftrightarrow> Expiration i > 0 \<and> UnixNano now > Expiration i"

definition cache_get :: "time \<Rightarrow> ('k, 'v, 'e) cache \<Rightarrow> 'k \<Rightarrow> 'v option" where
  "cache_get now c k =
     (case items c k of
        None \<Rightarrow> None
      | Some item \<Rightarrow> if Expired now item then None else Some (Object item))"

text \<open>The value is returned only where a callback will need it.\<close>

definition cache_delete :: "('k, 'v, 'e) cache \<Rightarrow> 'k \<Rightarrow> ('k, 'v, 'e) cache \<times> 'v option" where
  "cache_delete c k =
     (let c' = c\<lparr>lru := fst (lru_Remove (lru c) k), items := (items c)(k := None)\<rparr> in
      if onEvicted c \<noteq> None
      then (case items c k of Some v \<Rightarrow> (c', Some (Object v)) | None \<Rightarrow> (c', None))
      else (c', None))"

text \<open>\<open>if evicted && c.onEvicted != nil { c.onEvicted(k, v) }\<close>.\<close>

definition call_evicted :: "('k, 'v, 'e) cache \<Rightarrow> 'k \<Rightarrow> 'v option \<Rightarrow> 'e list" where
  "call_evicted c k ov =
     (case ov of None \<Rightarrow> [] | Some v \<Rightarrow> (case onEvicted c of None \<Rightarrow> [] | Some f \<Rightarrow> [f k v]))"

text \<open>The deadline a duration stands for: 0 (none) unless the duration is positive.\<close>

definition deadline :: "('k, 'v, 'e) cache \<Rightarrow> time \<Rightarrow> duration \<Rightarrow> int" where
  "deadline c now d =
     (let d' = (if d = DefaultExpiration then defaultExpiration c else d) in
      if d' > 0 then UnixNano (time_Add now d') else 0)"

definition cache_set ::
  "time \<Rightarrow> time \<Rightarrow> ('k, 'v, 'e) cache \<Rightarrow> 'k \<Rightarrow> 'v \<Rightarrow> duration \<Rightarrow> duration
   \<Rightarrow> ('k, 'v, 'e) cache \<times> 'v option" where
  "cache_set te tr c k v refresh expire =
     (let e = deadline c te expire; r = deadline c tr refresh;
          c1 = c\<lparr>items := (items c)(k \<mapsto> \<lparr>Object = v, Refresh = r, Expiration = e\<rparr>)\<rparr>;
          (l, evictedEntry) = lru_Add (lru c1) k True;
          c2 = c1\<lparr>lru := l\<rparr>
      in case evictedEntry of
           Some ee \<Rightarrow> cache_delete c2 (ent_key ee)
         | None \<Rightarrow> (c2, None))"

section \<open>Setting\<close>

definition SetWithRefreshExpire ::
  "time \<Rightarrow> time \<Rightarrow> ('k, 'v, 'e) cache \<Rightarrow> 'k \<Rightarrow> 'v \<Rightarrow> duration \<Rightarrow> duration
   \<Rightarrow> ('k, 'v, 'e) cache \<times> 'e list" where
  "SetWithRefreshExpire te tr c k v refresh expire =
     (let e = deadline c te expire; r = deadline c tr refresh;
          (l, evictedEntry) = lru_Add (lru c) k True;
          c1 = c\<lparr>lru := l\<rparr>;
          (c2, evicted) =
            (case evictedEntry of
               None \<Rightarrow> (c1, None)
             | Some ee \<Rightarrow> cache_delete c1 (ent_key ee));
          c3 = c2\<lparr>items := (items c2)(k \<mapsto> \<lparr>Object = v, Refresh = r, Expiration = e\<rparr>)\<rparr>
      in (c3, case evictedEntry of None \<Rightarrow> [] | Some ee \<Rightarrow> call_evicted c3 (ent_key ee) evicted))"

definition SetWithExpire ::
  "time \<Rightarrow> time \<Rightarrow> ('k, 'v, 'e) cache \<Rightarrow> 'k \<Rightarrow> 'v \<Rightarrow> duration \<Rightarrow> ('k, 'v, 'e) cache \<times> 'e list" where
  "SetWithExpire te tr c k v d = SetWithRefreshExpire te tr c k v NoRefresh d"

definition cache_Set ::
  "time \<Rightarrow> time \<Rightarrow> ('k, 'v, 'e) cache \<Rightarrow> 'k \<Rightarrow> 'v \<Rightarrow> ('k, 'v, 'e) cache \<times> 'e list" where
  "cache_Set te tr c k v = SetWithExpire te tr c k v DefaultExpiration"

definition TouchWithExpire ::
  "time \<Rightarrow> ('k, 'v, 'e) cache \<Rightarrow> 'k \<Rightarrow> duration \<Rightarrow> ('k, 'v, 'e) cache \<times> 'v option" where
  "TouchWithExpire now c k d =
     (let d' = (if d = DefaultExpiration then defaultExpiration c else d) in
      case items c k of
        None \<Rightarrow> (c, None)
      | Some item \<Rightarrow>
          (let item' = item\<lparr>Expiration := UnixNano (time_Add now d')\<rparr> in
           (c\<lparr>lru := fst (lru_Get (lru c) k), items := (items c)(k \<mapsto> item')\<rparr>, Some (Object item'))))"

definition Touch :: "time \<Rightarrow> ('k, 'v, 'e) cache \<Rightarrow> 'k \<Rightarrow> ('k, 'v, 'e) cache \<times> 'v option" where
  "Touch now c k = TouchWithExpire now c k DefaultExpiration"

text \<open>The first time argument is the reading \<open>get\<close> makes.\<close>

definition AddWithRefreshExpire ::
  "time \<Rightarrow> time \<Rightarrow> time \<Rightarrow> ('k, 'v, 'e) cache \<Rightarrow> 'k \<Rightarrow> 'v \<Rightarrow> duration \<Rightarrow> duration
   \<Rightarrow> ('k, 'v, 'e) cache \<times> 'e list \<times> 'k cache_error option" where
  "AddWithRefreshExpire tg te tr c k v refresh expire =
     (if cache_get tg c k \<noteq> None then (c, [], Some (AlreadyExists k))
      else let (c', evicted) = cache_set te tr c k v refresh expire
           in (c', call_evicted c' k evicted, None))"

definition AddWithExpire ::
  "time \<Rightarrow> time \<Rightarrow> time \<Rightarrow> ('k, 'v, 'e) cache \<Rightarrow> 'k \<Rightarrow> 'v \<Rightarrow> duration
   \<Rightarrow> ('k, 'v, 'e) cache \<times> 'e list \<times> 'k cache_error option" where
  "AddWithExpire tg te tr c k v d = AddWithRefreshExpire tg te tr c k v NoRefresh d"

definition cache_Add ::
  "time \<Rightarrow> time \<Rightarrow> time \<Rightarrow> ('k, 'v, 'e) cache \<Rightarrow> 'k \<Rightarrow> 'v
   \<Rightarrow> ('k, 'v, 'e) cache \<times> 'e list \<times> 'k cache_error option" where
  "cache_Add tg te tr c k v = AddWithExpire tg te tr c k v DefaultExpiration"

definition ReplaceWithRefreshExpire ::
  "time \<Rightarrow> time \<Rightarrow> time \<Rightarrow> ('k, 'v, 'e) cache \<Rightarrow> 'k \<Rightarrow> 'v \<Rightarrow> duration \<Rightarrow> duration
   \<Rightarrow> ('k, 'v, 'e) cache \<times> 'e list \<times> 'k cache_error option" where
  "ReplaceWithRefreshExpire tg te tr c k v refresh expire =
     (if cache_get tg c k = None then (c, [], Some (DoesntExist k))
      else let (c', evicted) = cache_set te tr c k v refresh expire
           in (c', call_evicted c' k evicted, None))"

definition ReplaceWithExpire ::
  "time \<Rightarrow> time \<Rightarrow> time \<Rightarrow> ('k, 'v, 'e) cache \<Rightarrow> 'k \<Rightarrow> 'v \<Rightarrow> duration
   \<Rightarrow> ('k, 'v, 'e) cache \<times> 'e list \<times> 'k cache_error option" where
  "ReplaceWithExpire tg te tr c k v d = ReplaceWithRefreshExpire tg te tr c k v NoRefresh d"

definition cache_Replace ::
  "time \<Rightarrow> time \<Rightarrow> time \<Rightarrow> ('k, 'v, 'e) cache \<Rightarrow> 'k \<Rightarrow> 'v
   \<Rightarrow> ('k, 'v, 'e) cache \<times> 'e list \<times> 'k cache_error option" where
  "cache_Replace tg te tr c k v = ReplaceWithExpire tg te tr c k v DefaultExpiration"

section \<open>Reading\<close>

definition cache_Get :: "time \<Rightarrow> ('k, 'v, 'e) cache \<Rightarrow> 'k \<Rightarrow> 'v option" where
  "cache_Get now c k =
     (case items c k of
        None \<Rightarrow> None
      | Some item \<Rightarrow>
          if Expiration item > 0 \<and> UnixNano now > Expiration item then None
          else Some (Object item))"

definition GetStale :: "time \<Rightarrow> ('k, 'v, 'e) cache \<Rightarrow> 'k \<Rightarrow> ('v \<times> bool) option" where
  "GetStale now c k =
     (case items c k of
        None \<Rightarrow> None
      | Some item \<Rightarrow>
          Some (Object item, Expiration item > 0 \<and> UnixNano now > Expiration item))"

definition GetWithExpire :: "time \<Rightarrow> ('k, 'v, 'e) cache \<Rightarrow> 'k \<Rightarrow> ('v \<times> time) option" where
  "GetWithExpire now c k =
     (case items c k of
        None \<Rightarrow> None
      | Some item \<Rightarrow>
          if Expiration item > 0 then
            if UnixNano now > Expiration item then None
            else Some (Object item, Expiration item)
          else Some (Object item, zero_Time))"

definition GetWithRenewExpiry ::
  "time \<Rightarrow> ('k, 'v, 'e) cache \<Rightarrow> 'k \<Rightarrow> ('v \<times> time \<times> time) option" where
  "GetWithRenewExpiry now c k =
     (case items c k of
        None \<Rightarrow> None
      | Some item \<Rightarrow>
          if Expiration item > 0 then
            if UnixNano now > Expiration item then None
            else Some (Object item, Refresh item, Expiration item)
          else Some (Object item, zero_Time, zero_Time))"

definition Items :: "time \<Rightarrow> ('k, 'v, 'e) cache \<Rightarrow> ('k \<rightharpoonup> 'v Item)" where
  "Items now c =
     (\<lambda>k. case items c k of
            None \<Rightarrow> None
          | Some v \<Rightarrow> if Expiration v > 0 \<and> UnixNano now > Expiration v then None else Some v)"

definition Keys :: "(('k \<rightharpoonup> 'v Item) \<Rightarrow> 'k list) \<Rightarrow> time \<Rightarrow> ('k, 'v, 'e) cache \<Rightarrow> 'k list" where
  "Keys ord now c =
     filter (\<lambda>k. case items c k of
                   None \<Rightarrow> False
                 | Some v \<Rightarrow> \<not> (Expiration v > 0 \<and> UnixNano now > Expiration v))
       (ord (items c))"

definition ItemCount :: "('k, 'v, 'e) cache \<Rightarrow> nat" where
  "ItemCount c = card (dom (items c))"

section \<open>Changing and deleting\<close>

definition Modify ::
  "time \<Rightarrow> ('k, 'v, 'e) cache \<Rightarrow> 'k \<Rightarrow> ('v \<Rightarrow> 'v) \<Rightarrow> ('k, 'v, 'e) cache \<times> 'v option" where
  "Modify now c k f =
     (case items c k of
        None \<Rightarrow> (c, None)
      | Some item \<Rightarrow>
          if Expiration item > 0 \<and> UnixNano now > Expiration item then (c, None)
          else (let item' = item\<lparr>Object := f (Object item)\<rparr> in
                (c\<lparr>items := (items c)(k \<mapsto> item')\<rparr>, Some (Object item'))))"

definition Delete :: "('k, 'v, 'e) cache \<Rightarrow> 'k \<Rightarrow> ('k, 'v, 'e) cache \<times> 'e list" where
  "Delete c k = (let (c', ov) = cache_delete c k in (c', call_evicted c' k ov))"

definition Rename :: "time \<Rightarrow> ('k, 'v, 'e) cache \<Rightarrow> 'k \<Rightarrow> 'k \<Rightarrow> ('k, 'v, 'e) cache \<times> bool" where
  "Rename now c src dst =
     (case items c src of
        None \<Rightarrow> (c, False)
      | Some item \<Rightarrow>
          if Expiration item > 0 \<and> UnixNano now > Expiration item then (c, False)
          else (c\<lparr>items := ((items c)(src := None))(dst \<mapsto> item)\<rparr>, True))"

definition Pop :: "time \<Rightarrow> ('k, 'v, 'e) cache \<Rightarrow> 'k \<Rightarrow> ('k, 'v, 'e) cache \<times> 'e list \<times> 'v option" where
  "Pop now c k =
     (case items c k of
        None \<Rightarrow> (c, [], None)
      | Some item \<Rightarrow>
          if Expiration item > 0 \<and> UnixNano now > Expiration item then (c, [], None)
          else (let (c', ov) = cache_delete c k in (c', call_evicted c' k ov, Some (Object item))))"

definition Reset :: "('k, 'v, 'e) cache \<Rightarrow> ('k, 'v, 'e) cache" where
  "Reset c = c\<lparr>items := Map.empty\<rparr>"

definition DeleteAll ::
  "(('k \<rightharpoonup> 'v Item) \<Rightarrow> 'k list) \<Rightarrow> ('k, 'v, 'e) cache
   \<Rightarrow> ('k, 'v, 'e) cache \<times> 'e list \<times> ('k \<rightharpoonup> 'v Item)" where
  "DeleteAll ord c =
     (let its = items c; c' = c\<lparr>items := Map.empty\<rparr> in
      (c',
       case onEvicted c' of
         None \<Rightarrow> []
       | Some f \<Rightarrow> List.map_filter (\<lambda>k. map_option (\<lambda>v. f k (Object v)) (its k)) (ord its),
       its))"

text \<open>The loop of \<open>DeleteFunc\<close> over the keys still to visit, with the map of deleted items so far.\<close>

fun DeleteFunc_loop ::
  "('k \<Rightarrow> 'v Item \<Rightarrow> bool \<times> bool) \<Rightarrow> 'k list \<Rightarrow> ('k, 'v, 'e) cache \<times> ('k \<rightharpoonup> 'v Item)
   \<Rightarrow> ('k, 'v, 'e) cache \<times> ('k \<rightharpoonup> 'v Item)" where
  "DeleteFunc_loop flt [] (c, m) = (c, m)"
| "DeleteFunc_loop flt (k # ks) (c, m) =
     (case items c k of
        None \<Rightarrow> DeleteFunc_loop flt ks (c, m)
      | Some v \<Rightarrow>
          (let (del, stop) = flt k v;
               cm = (if del
                     then (fst (cache_delete c k),
                           m(k \<mapsto> \<lparr>Object = Object v, Refresh = 0, Expiration = Expiration v\<rparr>))
                     else (c, m))
           in if stop then cm else DeleteFunc_loop flt ks cm))"

definition DeleteFunc ::
  "(('k \<rightharpoonup> 'v Item) \<Rightarrow> 'k list) \<Rightarrow> (('k \<rightharpoonup> 'v Item) \<Rightarrow> 'k list)
   \<Rightarrow> ('k, 'v, 'e) cache \<Rightarrow> ('k \<Rightarrow> 'v Item \<Rightarrow> bool \<times> bool)
   \<Rightarrow> ('k, 'v, 'e) cache \<times> 'e list \<times> ('k \<rightharpoonup> 'v Item)" where
  "DeleteFunc ord1 ord2 c flt =
     (let (c', m) = DeleteFunc_loop flt (ord1 (items c)) (c, Map.empty) in
      (c',
       case onEvicted c' of
         None \<Rightarrow> []
       | Some f \<Rightarrow> List.map_filter (\<lambda>k. map_option (\<lambda>v. f k (Object v)) (m k)) (ord2 m),
       m))"

section \<open>The janitor\<close>

text \<open>
  \<open>RefreshOrEvictExpired\<close> reads the clock once. It collects the items due for a refresh under the
  lock, runs the refresh callback on each without the lock (the callback may change the cache and
  the rest \<open>'s\<close> of the program's state, which is what \<open>run\<close> does), then evicts what has expired
  under the lock, and last calls the eviction callback on what it evicted.
\<close>

definition itemsRequiringRefresh ::
  "(('k \<rightharpoonup> 'v Item) \<Rightarrow> 'k list) \<Rightarrow> int \<Rightarrow> ('k, 'v, 'e) cache \<Rightarrow> ('k \<times> 'v) list" where
  "itemsRequiringRefresh ord now c =
     (if onRefresh c = None then []
      else List.map_filter
        (\<lambda>k. case items c k of
               None \<Rightarrow> None
             | Some v \<Rightarrow> if Refresh v > 0 \<and> now > Refresh v then Some (k, Object v) else None)
        (ord (items c)))"

fun evict_loop ::
  "int \<Rightarrow> 'k list \<Rightarrow> ('k, 'v, 'e) cache \<Rightarrow> ('k, 'v, 'e) cache \<times> ('k \<times> 'v) list" where
  "evict_loop now [] c = (c, [])"
| "evict_loop now (k # ks) c =
     (case items c k of
        None \<Rightarrow> evict_loop now ks c
      | Some v \<Rightarrow>
          if Expiration v > 0 \<and> now > Expiration v then
            (let (c', ov) = cache_delete c k; (c'', evs) = evict_loop now ks c'
             in (c'', (case ov of None \<Rightarrow> evs | Some x \<Rightarrow> (k, x) # evs)))
          else evict_loop now ks c)"

definition RefreshOrEvictExpired ::
  "('e \<Rightarrow> ('k, 'v, 'e) cache \<times> 's \<Rightarrow> ('k, 'v, 'e) cache \<times> 's)
   \<Rightarrow> (('k \<rightharpoonup> 'v Item) \<Rightarrow> 'k list) \<Rightarrow> (('k \<rightharpoonup> 'v Item) \<Rightarrow> 'k list) \<Rightarrow> time
   \<Rightarrow> ('k, 'v, 'e) cache \<times> 's \<Rightarrow> (('k, 'v, 'e) cache \<times> 's) \<times> 'e list" where
  "RefreshOrEvictExpired run ord1 ord2 tnow cs =
     (let now = UnixNano tnow;
          due = itemsRequiringRefresh ord1 now (fst cs);
          (c1, s1) =
            (case onRefresh (fst cs) of
               None \<Rightarrow> cs
             | Some f \<Rightarrow> fold (\<lambda>(k, v). run (f k v)) due cs);
          (c2, evictedItems) = evict_loop now (ord2 (items c1)) c1
      in ((c2, s1),
          case onEvicted c2 of None \<Rightarrow> [] | Some f \<Rightarrow> map (\<lambda>(k, v). f k v) evictedItems))"

text \<open>
  The janitor's goroutine: each pass of its loop receives a tick or the stop message. Run on a
  list of messages, it returns the state and whether it still runs.
\<close>

datatype janitor_message = Tick time | StopJanitor

fun janitor_run ::
  "(time \<Rightarrow> 'w \<Rightarrow> 'w) \<Rightarrow> janitor_message list \<Rightarrow> 'w \<Rightarrow> 'w \<times> bool" where
  "janitor_run sweep [] w = (w, True)"
| "janitor_run sweep (Tick t # ms) w = janitor_run sweep ms (sweep t w)"
| "janitor_run sweep (StopJanitor # ms) w = (w, False)"

text \<open>
  The finalizer of the cache. \<open>newCacheWithJanitor\<close> registers it exactly for a cache that has a janitor, so the send never meets a nil
  janitor; the case is written as no change.
\<close>

definition stopJanitor :: "('k, 'v, 'e) cache \<Rightarrow> ('k, 'v, 'e) cache" where
  "stopJanitor c = c\<lparr>cache_janitor := map_option (\<lambda>j. j\<lparr>stop_sent := True\<rparr>) (cache_janitor c)\<rparr>"

lemmas cache_reads [cache_ops] =
  cache_get_def cache_Get_def GetStale_def GetWithExpire_def GetWithRenewExpiry_def Expired_def

section \<open>Invariant\<close>

text \<open>
  The LRU list is well formed and tracks every stored key. \<open>cache_exact\<close> says that it tracks no
  other key.
\<close>

definition cache_inv :: "('k, 'v, 'e) cache \<Rightarrow> bool" where
  "cache_inv c \<longleftrightarrow> lru_wf (lru c) \<and> 0 \<le> MaxEntries (lru c) \<and> dom (items c) \<subseteq> set (lru_keys (lru c))"

definition cache_exact :: "('k, 'v, 'e) cache \<Rightarrow> bool" where
  "cache_exact c \<longleftrightarrow> cache_inv c \<and> dom (items c) = set (lru_keys (lru c))"

lemma NewLru_fields [simp]:
  "lru (NewLru n de ci) = newLRU n" "items (NewLru n de ci) = Map.empty"
  "onEvicted (NewLru n de ci) = None" "onRefresh (NewLru n de ci) = None"
  by (simp_all add: NewLru_def newCacheWithJanitor_def newCache_def runJanitor_def Let_def)

lemma MaxEntries_newLRU [simp]: "MaxEntries (newLRU n) = n"
  by (simp add: newLRU_def)

lemma lru_keys_newLRU [simp]: "lru_keys (newLRU n) = []"
  by (simp add: newLRU_def lru_keys_def)

lemma cache_inv_NewLru: "0 \<le> n \<Longrightarrow> cache_inv (NewLru n de ci)"
  by (simp add: cache_inv_def lru_wf_newLRU)

lemma cache_inv_finite: "cache_inv c \<Longrightarrow> finite (dom (items c))"
  by (auto simp: cache_inv_def intro: finite_subset)

lemma cache_inv_count:
  assumes "cache_inv c" and "MaxEntries (lru c) \<noteq> 0"
  shows "int (ItemCount c) \<le> MaxEntries (lru c)"
proof -
  have "card (dom (items c)) \<le> card (set (lru_keys (lru c)))"
    using assms(1) by (intro card_mono) (auto simp: cache_inv_def)
  also have "\<dots> \<le> length (lru_keys (lru c))" by (rule card_length)
  finally show ?thesis
    using lq.bound[of "lru c"] assms by (simp add: cache_inv_def ItemCount_def)
qed

text \<open>What deleting a key does.\<close>

lemma cache_delete_items [simp]: "items (fst (cache_delete c k)) = (items c)(k := None)"
  and cache_delete_lru [simp]: "lru (fst (cache_delete c k)) = fst (lru_Remove (lru c) k)"
  and cache_delete_onEvicted [simp]: "onEvicted (fst (cache_delete c k)) = onEvicted c"
  and cache_delete_onRefresh [simp]: "onRefresh (fst (cache_delete c k)) = onRefresh c"
  and cache_delete_default [simp]: "defaultExpiration (fst (cache_delete c k)) = defaultExpiration c"
  and cache_delete_value: "snd (cache_delete c k) =
    (if onEvicted c = None then None else map_option Object (items c k))"
  by (auto simp: cache_delete_def Let_def split: option.splits)

lemma cache_inv_delete: "cache_inv c \<Longrightarrow> cache_inv (fst (cache_delete c k))"
  by (auto simp: cache_inv_def lq.invar_remove lq.set_remove lq.cap_remove)

lemma cache_exact_delete: "cache_exact c \<Longrightarrow> cache_exact (fst (cache_delete c k))"
  by (auto simp: cache_exact_def cache_inv_delete) (auto simp: cache_inv_def lq.set_remove)

end
