(* ===== verification/Cache_Laws.thy ===== *)
theory Cache_Laws
  imports Expiring_Cache
begin

text \<open>
  What the operations of the expiring cache do: the effect of each on the stored items and on the
  LRU list, the invariant and the bound on the number of items, the refinement of
  \<open>SetWithRefreshExpire\<close> to a bounded list of items from the most to the least recent one, the
  sweep of the janitor, and the interface \<open>expiring_store\<close> the credential retriever relies on.
\<close>

section \<open>Setting a key\<close>

text \<open>The key \<open>SetWithRefreshExpire\<close> evicts, and the item it stores.\<close>

definition victim :: "('k, 'v, 'e) cache \<Rightarrow> 'k \<Rightarrow> 'k option" where
  "victim c k = map_option ent_key (snd (lru_Add (lru c) k True))"

definition new_item :: "time \<Rightarrow> time \<Rightarrow> ('k, 'v, 'e) cache \<Rightarrow> 'v \<Rightarrow> duration \<Rightarrow> duration \<Rightarrow> 'v Item" where
  "new_item te tr c v refresh expire =
     \<lparr>Object = v, Refresh = deadline c tr refresh, Expiration = deadline c te expire\<rparr>"

definition drop_key :: "'k option \<Rightarrow> ('k \<rightharpoonup> 'a) \<Rightarrow> ('k \<rightharpoonup> 'a)" where
  "drop_key v m = (case v of None \<Rightarrow> m | Some x \<Rightarrow> m(x := None))"

lemma drop_key_apply: "drop_key v m x = (if v = Some x then None else m x)"
  by (auto simp: drop_key_def split: option.splits)

lemma dom_drop_key: "dom (drop_key v m) = dom m - set_option v"
  by (auto simp: drop_key_def split: option.splits)

lemma victim_neq: "cache_inv c \<Longrightarrow> victim c k \<noteq> Some k"
  using lq.add_evicts_last[of "lru c" k True k] by (auto simp: cache_inv_def victim_def)

lemma victim_iff:
  assumes "cache_inv c"
  shows "victim c k = Some x \<longleftrightarrow>
     k \<notin> set (lru_keys (lru c)) \<and> 0 < MaxEntries (lru c) \<and>
     MaxEntries (lru c) = int (length (lru_keys (lru c))) \<and> x = last (lru_keys (lru c))"
proof -
  have wf: "lru_wf (lru c)" "0 \<le> MaxEntries (lru c)" using assms by (auto simp: cache_inv_def)
  have ex: "victim c k \<noteq> None \<longleftrightarrow> k \<notin> set (lru_keys (lru c)) \<and> MaxEntries (lru c) \<noteq> 0 \<and>
      MaxEntries (lru c) \<le> int (length (lru_keys (lru c)))"
    using lq.add_evicts_iff[OF wf(1), of k True] by (simp add: victim_def)
  moreover have "victim c k = Some y \<Longrightarrow> y = last (lru_keys (lru c))" for y
    using lq.add_evicts_last[OF wf, of k True y] by (simp add: victim_def)
  ultimately show ?thesis using wf(2) lq.bound[OF wf(1)] by (cases "victim c k") auto
qed

lemma SetWithRefreshExpire_items:
  "items (fst (SetWithRefreshExpire te tr c k v r e)) =
     (drop_key (victim c k) (items c))(k \<mapsto> new_item te tr c v r e)"
  by (simp add: SetWithRefreshExpire_def Let_def case_prod_beta victim_def drop_key_def new_item_def
      split: option.split)

lemma SetWithRefreshExpire_lru:
  "lru (fst (SetWithRefreshExpire te tr c k v r e)) =
     (case victim c k of
        None \<Rightarrow> fst (lru_Add (lru c) k True)
      | Some x \<Rightarrow> fst (lru_Remove (fst (lru_Add (lru c) k True)) x))"
  by (simp add: SetWithRefreshExpire_def Let_def case_prod_beta victim_def split: option.split)

lemma SetWithRefreshExpire_frame [cache_frame]:
  "onEvicted (fst (SetWithRefreshExpire te tr c k v r e)) = onEvicted c"
  "onRefresh (fst (SetWithRefreshExpire te tr c k v r e)) = onRefresh c"
  "defaultExpiration (fst (SetWithRefreshExpire te tr c k v r e)) = defaultExpiration c"
  by (simp_all add: SetWithRefreshExpire_def Let_def case_prod_beta split: option.split)

lemma SetWithRefreshExpire_calls:
  "snd (SetWithRefreshExpire te tr c k v r e) =
     (case victim c k of
        None \<Rightarrow> []
      | Some x \<Rightarrow> call_evicted c x (map_option Object (items c x)))"
  by (auto simp: SetWithRefreshExpire_def Let_def case_prod_beta victim_def cache_delete_value
      call_evicted_def split: option.split)

lemma SetWithRefreshExpire_keys:
  assumes "cache_inv c"
  shows "lru_keys (lru (fst (SetWithRefreshExpire te tr c k v r e))) =
    fst (recency_add (MaxEntries (lru c)) k (lru_keys (lru c)))"
proof -
  let ?l = "fst (lru_Add (lru c) k True)"
  have wf: "lru_wf (lru c)" "0 \<le> MaxEntries (lru c)" using assms by (auto simp: cache_inv_def)
  have ks: "lru_keys ?l = fst (recency_add (MaxEntries (lru c)) k (lru_keys (lru c)))"
    using lq.add_keysD(1)[OF wf(1), of k True] by simp
  show ?thesis
  proof (cases "victim c k")
    case None
    then show ?thesis using ks by (simp add: SetWithRefreshExpire_lru)
  next
    case (Some x)
    have "x \<notin> set (lru_keys ?l)"
      using lq.set_add[OF wf, of k True] Some by (auto simp: victim_def)
    then have "filter (\<lambda>y. y \<noteq> x) (lru_keys ?l) = lru_keys ?l" by (auto simp: filter_id_conv)
    then show ?thesis
      using Some ks lq.remove_keys[OF lru_wf_Add[OF wf(1)], of k True x]
      by (simp add: SetWithRefreshExpire_lru)
  qed
qed

lemma SetWithRefreshExpire_set_keys:
  assumes "cache_inv c"
  shows "set (lru_keys (lru (fst (SetWithRefreshExpire te tr c k v r e)))) =
    insert k (set (lru_keys (lru c)) - set_option (victim c k))"
proof -
  have wf: "lru_wf (lru c)" "0 \<le> MaxEntries (lru c)" using assms by (auto simp: cache_inv_def)
  have "set (lru_keys (lru (fst (SetWithRefreshExpire te tr c k v r e)))) =
      set (lru_keys (fst (lru_Add (lru c) k True)))"
    using SetWithRefreshExpire_keys[OF assms] lq.add_keysD(1)[OF wf(1), of k True] by simp
  also have "\<dots> = insert k (set (lru_keys (lru c)) - set_option (victim c k))"
    using lq.set_add[OF wf, of k True] victim_neq[OF assms, of k]
    by (auto simp: victim_def split: option.splits)
  finally show ?thesis .
qed

lemma cache_inv_SetWithRefreshExpire:
  assumes "cache_inv c"
  shows "cache_inv (fst (SetWithRefreshExpire te tr c k v r e))"
    and "MaxEntries (lru (fst (SetWithRefreshExpire te tr c k v r e))) = MaxEntries (lru c)"
proof -
  have wf: "lru_wf (lru c)" "0 \<le> MaxEntries (lru c)" using assms by (auto simp: cache_inv_def)
  show cap: "MaxEntries (lru (fst (SetWithRefreshExpire te tr c k v r e))) = MaxEntries (lru c)"
    using lq.cap_add[OF wf(1), of k True] lq.cap_remove[OF lru_wf_Add[OF wf(1)], of k True]
    by (simp add: SetWithRefreshExpire_lru split: option.split)
  have "lru_wf (lru (fst (SetWithRefreshExpire te tr c k v r e)))"
    using wf(1) by (auto simp: SetWithRefreshExpire_lru lru_wf_Add lru_wf_Remove split: option.split)
  then show "cache_inv (fst (SetWithRefreshExpire te tr c k v r e))"
    using assms cap
    by (auto simp: cache_inv_def SetWithRefreshExpire_set_keys[OF assms] SetWithRefreshExpire_items
        drop_key_apply split: if_splits)
qed

lemma cache_exact_SetWithRefreshExpire:
  assumes "cache_exact c"
  shows "cache_exact (fst (SetWithRefreshExpire te tr c k v r e))"
proof -
  have inv: "cache_inv c" "dom (items c) = set (lru_keys (lru c))"
    using assms by (auto simp: cache_exact_def)
  have "dom (items (fst (SetWithRefreshExpire te tr c k v r e))) =
      insert k (dom (items c) - set_option (victim c k))"
    by (simp add: SetWithRefreshExpire_items dom_drop_key)
  then show ?thesis
    using inv cache_inv_SetWithRefreshExpire(1)[OF inv(1)]
    by (simp add: cache_exact_def SetWithRefreshExpire_set_keys[OF inv(1)])
qed

text \<open>
  The unexported \<open>set\<close> stores the item before it asks the LRU list; under the invariant the
  victim is never the key being set, so both routines leave the same state.
\<close>

lemma cache_set_state:
  assumes "cache_inv c"
  shows "fst (cache_set te tr c k v r e) = fst (SetWithRefreshExpire te tr c k v r e)"
proof (cases "snd (lru_Add (lru c) k True)")
  case None
  then show ?thesis by (simp add: cache_set_def SetWithRefreshExpire_def Let_def case_prod_beta deadline_def)
next
  case (Some ee)
  then have "ent_key ee \<noteq> k" using victim_neq[OF assms, of k] by (auto simp: victim_def)
  then show ?thesis
    using Some
    by (simp add: cache_set_def SetWithRefreshExpire_def Let_def case_prod_beta cache_delete_def
        fun_upd_twist split: option.split)
qed

lemma cache_set_value:
  assumes "cache_inv c"
  shows "snd (cache_set te tr c k v r e) =
    (case victim c k of
       None \<Rightarrow> None
     | Some x \<Rightarrow> if onEvicted c = None then None else map_option Object (items c x))"
  using victim_neq[OF assms, of k]
  by (auto simp: cache_set_def Let_def case_prod_beta victim_def cache_delete_value split: option.split)

section \<open>The other operations keep the invariant\<close>

lemma cache_inv_TouchWithExpire: "cache_inv c \<Longrightarrow> cache_inv (fst (TouchWithExpire now c k d))"
  by (auto simp: cache_inv_def TouchWithExpire_def Let_def lq.invar_touch lq.set_touch lq.cap_touch
      split: option.split)

lemma cache_inv_AddWithRefreshExpire:
  "cache_inv c \<Longrightarrow> cache_inv (fst (AddWithRefreshExpire tg te tr c k v r e))"
  by (simp add: AddWithRefreshExpire_def case_prod_beta cache_set_state cache_inv_SetWithRefreshExpire)

lemma cache_inv_ReplaceWithRefreshExpire:
  "cache_inv c \<Longrightarrow> cache_inv (fst (ReplaceWithRefreshExpire tg te tr c k v r e))"
  by (simp add: ReplaceWithRefreshExpire_def case_prod_beta cache_set_state
      cache_inv_SetWithRefreshExpire)

lemma cache_inv_Modify: "cache_inv c \<Longrightarrow> cache_inv (fst (Modify now c k f))"
  by (auto simp: cache_inv_def Modify_def Let_def split: option.split)

lemma Delete_state: "fst (Delete c k) = fst (cache_delete c k)"
  by (simp add: Delete_def case_prod_beta)

lemma Pop_state: "fst (Pop now c k) = c \<or> fst (Pop now c k) = fst (cache_delete c k)"
  by (simp add: Pop_def case_prod_beta split: option.split)

lemma cache_inv_Delete: "cache_inv c \<Longrightarrow> cache_inv (fst (Delete c k))"
  by (simp add: Delete_state cache_inv_delete)

lemma cache_inv_Pop: "cache_inv c \<Longrightarrow> cache_inv (fst (Pop now c k))"
  using Pop_state[of now c k] cache_inv_delete[of c k] by auto

lemma cache_inv_Reset: "cache_inv c \<Longrightarrow> cache_inv (Reset c)"
  by (simp add: cache_inv_def Reset_def)

lemma cache_inv_DeleteAll: "cache_inv c \<Longrightarrow> cache_inv (fst (DeleteAll ord c))"
  by (simp add: cache_inv_def DeleteAll_def Let_def)

lemma cache_inv_DeleteFunc_loop:
  "cache_inv c \<Longrightarrow> cache_inv (fst (DeleteFunc_loop flt ks (c, m)))"
  by (induction ks arbitrary: c m)
    (auto simp: Let_def case_prod_beta cache_inv_delete split: option.split)

lemma cache_inv_DeleteFunc: "cache_inv c \<Longrightarrow> cache_inv (fst (DeleteFunc ord1 ord2 c flt))"
  using cache_inv_DeleteFunc_loop by (simp add: DeleteFunc_def case_prod_beta Let_def)

lemma cache_inv_evict_loop: "cache_inv c \<Longrightarrow> cache_inv (fst (evict_loop now ks c))"
  by (induction ks arbitrary: c)
    (auto simp: Let_def case_prod_beta cache_inv_delete split: option.split)

section \<open>Reading after writing\<close>

lemma cache_Get_get: "cache_Get now c k = cache_get now c k"
  by (simp add: cache_ops split: option.split)

lemma cache_Get_GetStale:
  "cache_Get now c k = (case GetStale now c k of Some (v, False) \<Rightarrow> Some v | _ \<Rightarrow> None)"
  by (auto simp: cache_ops split: option.split)

lemma cache_Get_Items: "cache_Get now c k = map_option Object (Items now c k)"
  by (simp add: cache_ops Items_def split: option.split)

lemma set_Keys: "range_of ord (items c) \<Longrightarrow> set (Keys ord now c) = dom (Items now c)"
  by (auto simp: Keys_def Items_def range_of_def split: option.splits if_splits)

lemma cache_Get_set:
  "cache_Get now (fst (SetWithRefreshExpire te tr c k v r e)) x =
     (if x = k then (if Expired now (new_item te tr c v r e) then None else Some v)
      else if victim c k = Some x then None
      else cache_Get now c x)"
  by (auto simp: cache_ops SetWithRefreshExpire_items drop_key_apply new_item_def split: option.split)

lemma Expired_new_item:
  assumes "0 < e" and "in_int64 (te + e)" and "0 < te + e"
  shows "Expired now (new_item te tr c v r e) \<longleftrightarrow> te + e < UnixNano now"
  using assms
  by (simp add: Expired_def new_item_def deadline_def DefaultExpiration_def UnixNano_def time_Add_def
      int64_id)

lemma cache_Get_delete: "cache_Get now (fst (Delete c k)) x = (if x = k then None else cache_Get now c x)"
  by (simp add: cache_ops Delete_state)

lemma Modify_items:
  "items (fst (Modify now c k f)) =
     (if cache_Get now c k = None then items c
      else (items c)(k := map_option (\<lambda>i. i\<lparr>Object := f (Object i)\<rparr>) (items c k)))"
  by (auto simp: cache_ops Modify_def Let_def split: option.split)

lemma Modify_frame [cache_frame]:
  "lru (fst (Modify now c k f)) = lru c"
  "onEvicted (fst (Modify now c k f)) = onEvicted c"
  "onRefresh (fst (Modify now c k f)) = onRefresh c"
  "defaultExpiration (fst (Modify now c k f)) = defaultExpiration c"
  by (simp_all add: Modify_def Let_def split: option.split)

lemma Modify_result: "snd (Modify now c k f) = map_option f (cache_Get now c k)"
  by (simp add: cache_ops Modify_def Let_def split: option.split)

lemma Delete_frame [cache_frame]:
  "onEvicted (fst (Delete c k)) = onEvicted c"
  "onRefresh (fst (Delete c k)) = onRefresh c"
  "defaultExpiration (fst (Delete c k)) = defaultExpiration c"
  by (simp_all add: Delete_state)

section \<open>Refinement: a bounded list from the most to the least recent item\<close>

text \<open>
  The stored keys in the order of the LRU list. \<open>Reset\<close> and \<open>DeleteAll\<close> empty the map and leave the keys in the
  list. From then on these stale keys are the least recent ones: every key that is set or touched afterwards
  comes before them, and as long as there are any, they are what a new key pushes out.
\<close>

definition stored_keys :: "('k, 'v, 'e) cache \<Rightarrow> 'k list" where
  "stored_keys c = filter (\<lambda>k. items c k \<noteq> None) (lru_keys (lru c))"

definition cache_recent :: "('k, 'v, 'e) cache \<Rightarrow> bool" where
  "cache_recent c \<longleftrightarrow> cache_inv c \<and> (\<exists>stale. lru_keys (lru c) = stored_keys c @ stale)"

definition abs_items :: "('k, 'v, 'e) cache \<Rightarrow> ('k \<times> 'v Item) list" where
  "abs_items c = map (\<lambda>k. (k, the (items c k))) (stored_keys c)"

lemma set_stored_keys: "cache_inv c \<Longrightarrow> set (stored_keys c) = dom (items c)"
  by (auto simp: stored_keys_def cache_inv_def)

lemma recentE:
  assumes "cache_recent c"
  obtains stale where "lru_keys (lru c) = stored_keys c @ stale" and "\<And>k. k \<in> set stale \<Longrightarrow> items c k = None"
    and "\<And>k. k \<in> set (stored_keys c) \<Longrightarrow> items c k \<noteq> None"
proof -
  obtain stale where keys: "lru_keys (lru c) = stored_keys c @ stale" using assms by (auto simp: cache_recent_def)
  have "stored_keys c = stored_keys c @ filter (\<lambda>k. items c k \<noteq> None) stale"
    using arg_cong[OF keys, of "filter (\<lambda>k. items c k \<noteq> None)"] by (simp add: stored_keys_def)
  then have "filter (\<lambda>k. items c k \<noteq> None) stale = []" by simp
  then have "\<And>k. k \<in> set stale \<Longrightarrow> items c k = None" by (auto simp: filter_empty_conv)
  then show thesis using that[OF keys] by (auto simp: stored_keys_def)
qed

lemma recentI:
  assumes "cache_inv c" and "lru_keys (lru c) = xs @ ys" and "\<And>k. k \<in> set xs \<Longrightarrow> items c k \<noteq> None"
    and "\<And>k. k \<in> set ys \<Longrightarrow> items c k = None"
  shows "cache_recent c" and "stored_keys c = xs"
proof -
  show keys: "stored_keys c = xs" using assms(2-4) by (simp add: stored_keys_def)
  show "cache_recent c" using assms(1,2) by (auto simp: cache_recent_def keys)
qed

lemma cache_exact_recent: "cache_exact c \<Longrightarrow> cache_recent c"
  by (rule recentI(1)[of c "lru_keys (lru c)" "[]"]) (auto simp: cache_exact_def)

definition bounded_put :: "int \<Rightarrow> 'k \<Rightarrow> 'i \<Rightarrow> ('k \<times> 'i) list \<Rightarrow> ('k \<times> 'i) list" where
  "bounded_put cap k i xs =
     (let ys = (k, i) # filter (\<lambda>x. fst x \<noteq> k) xs in if cap = 0 then ys else take (nat cap) ys)"

lemma recency_add_take:
  assumes "0 \<le> cap" and "cap \<noteq> 0 \<Longrightarrow> int (length ks) \<le> cap"
  shows "fst (recency_add cap k ks) =
    (let ys = k # filter (\<lambda>x. x \<noteq> k) ks in if cap = 0 then ys else take (nat cap) ys)"
proof (cases "k \<in> set ks")
  case True
  have "cap \<noteq> 0 \<Longrightarrow> length (filter (\<lambda>x. x \<noteq> k) ks) < nat cap"
    using length_filter_neq_less[OF True] assms by linarith
  then show ?thesis using True by (auto simp: recency_add_def Let_def)
next
  case False
  then have "filter (\<lambda>x. x \<noteq> k) ks = ks" by (auto simp: filter_id_conv)
  moreover have "cap \<noteq> 0 \<Longrightarrow> int (length ks) + 1 > cap \<Longrightarrow> nat cap = length ks"
    using assms by linarith
  ultimately show ?thesis
    using False assms by (auto simp: recency_add_def Let_def butlast_conv_take)
qed

lemma put_recent:
  fixes c :: "('k, 'v, 'e) cache" and te tr :: time and k :: 'k and v :: 'v and r e :: duration
  assumes "cache_recent c"
  defines "c' \<equiv> fst (SetWithRefreshExpire te tr c k v r e)"
    and "fit \<equiv> (\<lambda>ys :: 'k list. if MaxEntries (lru c) = 0 then ys else take (nat (MaxEntries (lru c))) ys)"
  shows "cache_recent c'" and "stored_keys c' = fit (k # filter (\<lambda>x. x \<noteq> k) (stored_keys c))"
proof -
  have inv: "cache_inv c" using assms(1) by (simp add: cache_recent_def)
  obtain stale where old: "lru_keys (lru c) = stored_keys c @ stale" "\<And>k. k \<in> set stale \<Longrightarrow> items c k = None"
    "\<And>k. k \<in> set (stored_keys c) \<Longrightarrow> items c k \<noteq> None"
    using recentE[OF assms(1)] by blast
  define xs ys where "xs = k # filter (\<lambda>x. x \<noteq> k) (stored_keys c)" and "ys = filter (\<lambda>x. x \<noteq> k) stale"
  have "lru_keys (lru c') = fit (k # filter (\<lambda>x. x \<noteq> k) (lru_keys (lru c)))"
    using SetWithRefreshExpire_keys[OF inv] recency_add_take[of "MaxEntries (lru c)" "lru_keys (lru c)" k]
      lq.bound[of "lru c"] inv by (simp add: cache_inv_def Let_def c'_def fit_def)
  then have keys: "lru_keys (lru c') = fit (xs @ ys)" by (simp add: old(1) xs_def ys_def)
  have other: "items c' x = items c x" if "x \<in> set (lru_keys (lru c'))" "x \<noteq> k" for x
    using that SetWithRefreshExpire_set_keys[OF inv] by (auto simp: c'_def SetWithRefreshExpire_items drop_key_apply)
  obtain zs where zs: "fit (xs @ ys) = fit xs @ zs" "set zs \<subseteq> set ys" "set (fit xs) \<subseteq> set xs"
  proof (cases "MaxEntries (lru c) = 0")
    case False
    then show thesis
      by (intro that[of "take (nat (MaxEntries (lru c)) - length xs) ys"]) (auto simp: fit_def dest: in_set_takeD)
  qed (use that[of ys] in \<open>simp add: fit_def\<close>)
  have inv': "cache_inv c'" unfolding c'_def using inv by (rule cache_inv_SetWithRefreshExpire)
  have k: "items c' k \<noteq> None" by (simp add: c'_def SetWithRefreshExpire_items)
  have "items c' x \<noteq> None" if "x \<in> set (fit xs)" for x
    using that zs(1,3) other[of x] k old(3) by (cases "x = k") (auto simp: keys xs_def)
  moreover have "items c' x = None" if "x \<in> set zs" for x
    using that zs(1,2) other[of x] old(2) by (auto simp: keys ys_def)
  ultimately show "cache_recent c'" "stored_keys c' = fit (k # filter (\<lambda>x. x \<noteq> k) (stored_keys c))"
    using recentI[OF inv', of "fit xs" zs] zs(1) by (simp_all add: keys xs_def)
qed

lemma bounded_put_refines:
  assumes "cache_recent c"
  shows "abs_items (fst (SetWithRefreshExpire te tr c k v r e)) =
    bounded_put (MaxEntries (lru c)) k (new_item te tr c v r e) (abs_items c)"
proof -
  let ?c = "fst (SetWithRefreshExpire te tr c k v r e)" and ?i = "new_item te tr c v r e"
  let ?f = "\<lambda>x. (x, if x = k then ?i else the (items c x))"
  let ?cut = "\<lambda>ys. if MaxEntries (lru c) = 0 then ys else take (nat (MaxEntries (lru c))) ys"
  have inv: "cache_inv c" using assms by (simp add: cache_recent_def)
  have "abs_items ?c = map ?f (stored_keys ?c)"
    unfolding abs_items_def
  proof (rule map_cong[OF refl])
    fix x assume "x \<in> set (stored_keys ?c)"
    then have "x \<noteq> k \<Longrightarrow> victim c k \<noteq> Some x"
      by (auto simp: stored_keys_def SetWithRefreshExpire_set_keys[OF inv])
    then show "(x, the (items ?c x)) = ?f x"
      by (auto simp: SetWithRefreshExpire_items drop_key_apply)
  qed
  also have "\<dots> = ?cut (map ?f (k # filter (\<lambda>x. x \<noteq> k) (stored_keys c)))"
    unfolding put_recent(2)[OF assms] by (simp only: take_map split: if_split) simp
  also have "map ?f (k # filter (\<lambda>x. x \<noteq> k) (stored_keys c)) = (k, ?i) # filter (\<lambda>x. fst x \<noteq> k) (abs_items c)"
    by (auto simp: abs_items_def filter_map comp_def)
  finally show ?thesis by (simp add: bounded_put_def Let_def)
qed

section \<open>The janitor's sweep\<close>

definition due_eviction :: "int \<Rightarrow> 'v Item \<Rightarrow> bool" where
  "due_eviction now v \<longleftrightarrow> Expiration v > 0 \<and> now > Expiration v"

definition without_expired :: "int \<Rightarrow> ('k \<rightharpoonup> 'v Item) \<Rightarrow> ('k \<rightharpoonup> 'v Item)" where
  "without_expired now m =
     (\<lambda>k. case m k of None \<Rightarrow> None | Some v \<Rightarrow> if due_eviction now v then None else Some v)"

lemma evict_loop_frame [cache_frame]:
  "onEvicted (fst (evict_loop now ks c)) = onEvicted c"
  "onRefresh (fst (evict_loop now ks c)) = onRefresh c"
  "defaultExpiration (fst (evict_loop now ks c)) = defaultExpiration c"
  by (induction ks arbitrary: c) (auto simp: Let_def case_prod_beta split: option.split)

lemma evict_loop_items:
  "items (fst (evict_loop now ks c)) k =
     (if k \<in> set ks then without_expired now (items c) k else items c k)"
  by (induction ks arbitrary: c)
    (auto simp: Let_def case_prod_beta without_expired_def due_eviction_def split: option.split)

lemma evict_loop_all:
  assumes "dom (items c) \<subseteq> set ks"
  shows "items (fst (evict_loop now ks c)) = without_expired now (items c)"
proof
  fix k
  show "items (fst (evict_loop now ks c)) k = without_expired now (items c) k"
    using assms by (cases "items c k") (auto simp: evict_loop_items without_expired_def)
qed

lemma evict_loop_evicted:
  assumes "distinct ks" and "onEvicted c \<noteq> None"
  shows "snd (evict_loop now ks c) =
    List.map_filter
      (\<lambda>k. case items c k of
             None \<Rightarrow> None
           | Some v \<Rightarrow> if due_eviction now v then Some (k, Object v) else None) ks"
  using assms
proof (induction ks arbitrary: c)
  case Nil
  then show ?case by (simp add: List.map_filter_simps)
next
  case (Cons k ks)
  let ?g = "\<lambda>c k. case items c k of
      None \<Rightarrow> None | Some v \<Rightarrow> if due_eviction now v then Some (k, Object v) else None"
  have "List.map_filter (?g (fst (cache_delete c k))) ks = List.map_filter (?g c) ks"
    using Cons.prems(1) by (intro map_filter_cong) auto
  then show ?case
    using Cons.prems Cons.IH[of c] Cons.IH[of "fst (cache_delete c k)"]
    by (auto simp: Let_def case_prod_beta List.map_filter_simps due_eviction_def cache_delete_value
        split: option.split)
qed

lemma map_filter_present:
  assumes "\<And>k. k \<in> set ks \<Longrightarrow> m k \<noteq> None"
  shows "List.map_filter
      (\<lambda>k. case m k of None \<Rightarrow> None | Some v \<Rightarrow> if P v then Some (k, Object v) else None) ks =
    map (\<lambda>k. (k, Object (the (m k)))) (filter (\<lambda>k. P (the (m k))) ks)"
  using assms by (induction ks) (force simp: List.map_filter_simps)+

lemma itemsRequiringRefresh_due:
  assumes "onRefresh c \<noteq> None" and "range_of ord (items c)"
  shows "itemsRequiringRefresh ord now c = map (\<lambda>k. (k, Object (the (items c k))))
    (filter (\<lambda>k. 0 < Refresh (the (items c k)) \<and> Refresh (the (items c k)) < now) (ord (items c)))"
  using assms map_filter_present[of "ord (items c)" "items c" "\<lambda>v. 0 < Refresh v \<and> Refresh v < now"]
  by (auto simp: itemsRequiringRefresh_def range_of_def cong: option.case_cong)

lemma DeleteFunc_loop_no_stop:
  assumes "\<And>k v. snd (flt k v) = False"
  shows "items (fst (DeleteFunc_loop flt ks (c, m))) k =
    (if k \<in> set ks then (case items c k of Some v \<Rightarrow> if fst (flt k v) then None else Some v | None \<Rightarrow> None)
     else items c k)"
proof (induction ks arbitrary: c m)
  case Nil
  then show ?case by simp
next
  case (Cons x ks)
  then show ?case
    using assms by (auto simp: Let_def case_prod_beta split: option.split)
qed

section \<open>Runs\<close>

text \<open>Every operation that writes the state, \<open>Rename\<close> apart, with any arguments.\<close>

inductive cache_step :: "('k, 'v, 'e) cache \<Rightarrow> ('k, 'v, 'e) cache \<Rightarrow> bool" where
  step_set: "cache_step c (fst (SetWithRefreshExpire te tr c k v r e))"
| step_touch: "cache_step c (fst (TouchWithExpire now c k d))"
| step_add: "cache_step c (fst (AddWithRefreshExpire tg te tr c k v r e))"
| step_replace: "cache_step c (fst (ReplaceWithRefreshExpire tg te tr c k v r e))"
| step_modify: "cache_step c (fst (Modify now c k f))"
| step_delete: "cache_step c (fst (Delete c k))"
| step_pop: "cache_step c (fst (Pop now c k))"
| step_reset: "cache_step c (Reset c)"
| step_delete_all: "cache_step c (fst (DeleteAll ord c))"
| step_delete_func: "cache_step c (fst (DeleteFunc ord1 ord2 c flt))"
| step_evict: "cache_step c (fst (evict_loop now ks c))"
| step_on_evicted: "cache_step c (OnEvicted c g)"
| step_on_refresh: "cache_step c (OnRefresh c g)"
| step_stop_janitor: "cache_step c (stopJanitor c)"

lemma cache_inv_callbacks:
  "cache_inv c \<Longrightarrow> cache_inv (OnEvicted c f)" "cache_inv c \<Longrightarrow> cache_inv (OnRefresh c f)"
  "cache_inv c \<Longrightarrow> cache_inv (stopJanitor c)"
  by (simp_all add: cache_inv_def OnEvicted_def OnRefresh_def stopJanitor_def)

lemmas cache_inv_ops =
  cache_inv_SetWithRefreshExpire(1) cache_inv_TouchWithExpire cache_inv_AddWithRefreshExpire
  cache_inv_ReplaceWithRefreshExpire cache_inv_Modify cache_inv_Delete cache_inv_Pop
  cache_inv_Reset cache_inv_DeleteAll cache_inv_DeleteFunc cache_inv_evict_loop cache_inv_callbacks

interpretation cache_run: step_invariant
  "\<lambda>c. \<exists>n de ci. 0 \<le> n \<and> c = NewLru n de ci" cache_step cache_inv
proof unfold_locales
  show "\<exists>n de ci. 0 \<le> n \<and> c = NewLru n de ci \<Longrightarrow> cache_inv c" for c :: "('k, 'v, 'e) cache"
    by (auto intro: cache_inv_NewLru)
  show "cache_step c d \<Longrightarrow> cache_inv c \<Longrightarrow> cache_inv d" for c d :: "('k, 'v, 'e) cache"
    by (induction rule: cache_step.induct) (rule cache_inv_ops, assumption)+
qed

lemma capacity_lru_ops:
  assumes "lru_wf l"
  shows "MaxEntries (fst (lru_Add l k v)) = MaxEntries l"
    and "MaxEntries (fst (lru_Get l k)) = MaxEntries l"
    and "MaxEntries (fst (lru_Remove l k)) = MaxEntries l"
  using assms lq.cap_add[of l k v] lq.cap_touch[of l k] lq.cap_remove[of l k] by simp_all

lemma capacity_DeleteFunc_loop:
  "cache_inv c \<Longrightarrow> MaxEntries (lru (fst (DeleteFunc_loop flt ks (c, m)))) = MaxEntries (lru c)"
proof (induction ks arbitrary: c m)
  case Nil
  then show ?case by simp
next
  case (Cons k ks)
  have "MaxEntries (fst (lru_Remove (lru c) k)) = MaxEntries (lru c)"
    using Cons.prems by (auto simp: cache_inv_def capacity_lru_ops)
  then show ?case
    using Cons cache_inv_delete[of c k] by (simp add: Let_def case_prod_beta split: option.split)
qed

lemma capacity_evict_loop:
  "cache_inv c \<Longrightarrow> MaxEntries (lru (fst (evict_loop now ks c))) = MaxEntries (lru c)"
proof (induction ks arbitrary: c)
  case Nil
  then show ?case by simp
next
  case (Cons k ks)
  have "MaxEntries (fst (lru_Remove (lru c) k)) = MaxEntries (lru c)"
    using Cons.prems by (auto simp: cache_inv_def capacity_lru_ops)
  then show ?case
    using Cons cache_inv_delete[of c k] by (simp add: Let_def case_prod_beta split: option.split)
qed

lemma capacity_step:
  assumes "cache_step c d" and "cache_inv c"
  shows "MaxEntries (lru d) = MaxEntries (lru c)"
proof -
  have wf: "lru_wf (lru c)" using assms(2) by (simp add: cache_inv_def)
  show ?thesis
    using assms(1)
  proof cases
    case step_pop
    then show ?thesis using wf by (auto simp: Pop_def case_prod_beta capacity_lru_ops split: option.split)
  next
    case step_delete_func
    then show ?thesis
      using capacity_DeleteFunc_loop[OF assms(2)] by (simp add: DeleteFunc_def case_prod_beta Let_def)
  qed (use assms(2) wf in \<open>simp_all add: cache_inv_SetWithRefreshExpire(2) TouchWithExpire_def Let_def
      capacity_lru_ops AddWithRefreshExpire_def ReplaceWithRefreshExpire_def case_prod_beta
      cache_set_state Modify_frame Delete_state Reset_def DeleteAll_def capacity_evict_loop
      OnEvicted_def OnRefresh_def stopJanitor_def split: option.split\<close>)
qed

lemma capacity_steps:
  assumes "cache_step\<^sup>*\<^sup>* c d" and "cache_inv c"
  shows "MaxEntries (lru d) = MaxEntries (lru c)"
  using assms
proof (induction rule: rtranclp_induct)
  case base
  then show ?case by simp
next
  case (step y z)
  then show ?case using capacity_step cache_run.inv_steps by metis
qed

section \<open>A negative capacity\<close>

text \<open>
  With \<open>MaxEntries\<close> below 0 the LRU list gives up each key as soon as it is added, and
  \<open>SetWithRefreshExpire\<close> stores the item after that.
\<close>

lemma negative_capacity_set:
  assumes "lru_wf (lru c)" and "MaxEntries (lru c) < 0"
  shows "items (fst (SetWithRefreshExpire te tr c k v r e)) = (items c)(k \<mapsto> new_item te tr c v r e)"
    and "lru_wf (lru (fst (SetWithRefreshExpire te tr c k v r e)))"
    and "MaxEntries (lru (fst (SetWithRefreshExpire te tr c k v r e))) = MaxEntries (lru c)"
proof -
  have "lru_keys (lru c) = []" using lq.negative_cap_empty[OF assms] .
  then have v: "victim c k = Some k"
    using lq.add_keysD(2)[OF assms(1), of k True] assms(2) by (simp add: victim_def recency_add_def)
  show "items (fst (SetWithRefreshExpire te tr c k v r e)) = (items c)(k \<mapsto> new_item te tr c v r e)"
    by (simp add: SetWithRefreshExpire_items v drop_key_def)
  show "lru_wf (lru (fst (SetWithRefreshExpire te tr c k v r e)))"
    "MaxEntries (lru (fst (SetWithRefreshExpire te tr c k v r e))) = MaxEntries (lru c)"
    using assms by (simp_all add: SetWithRefreshExpire_lru v lru_wf_Add lru_wf_Remove capacity_lru_ops)
qed

lemma negative_capacity_sets:
  assumes "lru_wf (lru c)" and "MaxEntries (lru c) < 0"
  shows "dom (items (fold (\<lambda>k c. fst (SetWithRefreshExpire te tr c k v r e)) ks c)) = dom (items c) \<union> set ks"
  using assms
proof (induction ks arbitrary: c)
  case Nil
  then show ?case by simp
next
  case (Cons k ks)
  note c' = negative_capacity_set[OF Cons.prems, of te tr k v r e]
  show ?case using Cons.IH[OF c'(2)] Cons.prems(2) c' by auto
qed

section \<open>What the credential retriever relies on\<close>

text \<open>
  The stored value of a key, expired or not, and the operations the retriever and its callbacks
  use. A property of all stored values is kept by every operation that keeps it of the value it
  writes.
\<close>

locale expiring_store =
  fixes stored :: "'c \<Rightarrow> 'k \<rightharpoonup> 'v"
    and lookup :: "time \<Rightarrow> 'c \<Rightarrow> 'k \<Rightarrow> 'v option"
    and put :: "time \<Rightarrow> time \<Rightarrow> 'c \<Rightarrow> 'k \<Rightarrow> 'v \<Rightarrow> duration \<Rightarrow> duration \<Rightarrow> 'c"
    and remove :: "'c \<Rightarrow> 'k \<Rightarrow> 'c"
    and modify :: "time \<Rightarrow> 'c \<Rightarrow> 'k \<Rightarrow> ('v \<Rightarrow> 'v) \<Rightarrow> 'c"
    and sweep :: "int \<Rightarrow> 'k list \<Rightarrow> 'c \<Rightarrow> 'c"
  assumes lookup_stored: "lookup t c k = Some v \<Longrightarrow> stored c k = Some v"
    and stored_put_same: "stored (put te tr c k v r e) k = Some v"
    and stored_put_other: "x \<noteq> k \<Longrightarrow> stored (put te tr c k v r e) x = Some w \<Longrightarrow> stored c x = Some w"
    and stored_remove: "stored (remove c k) = (stored c)(k := None)"
    and stored_modify: "stored (modify t c k f) =
      (if lookup t c k = None then stored c else (stored c)(k := map_option f (stored c k)))"
    and stored_sweep: "stored (sweep n ks c) x = Some w \<Longrightarrow> stored c x = Some w"
begin

lemma all_put:
  assumes "\<And>x w. stored c x = Some w \<Longrightarrow> P x w" and "P k v" and "stored (put te tr c k v r e) x = Some w"
  shows "P x w"
proof (cases "x = k")
  case True
  then show ?thesis using assms(2,3) stored_put_same by simp
next
  case False
  then show ?thesis using assms(1,3) stored_put_other by blast
qed

lemma all_remove:
  assumes "\<And>x w. stored c x = Some w \<Longrightarrow> P x w" and "stored (remove c k) x = Some w"
  shows "P x w"
  using assms by (auto simp: stored_remove split: if_splits)

lemma all_modify:
  assumes "\<And>x w. stored c x = Some w \<Longrightarrow> P x w"
    and "\<And>w. lookup t c k = Some w \<Longrightarrow> P k w \<Longrightarrow> P k (f w)"
    and "stored (modify t c k f) x = Some w"
  shows "P x w"
proof (cases "lookup t c k")
  case None
  then show ?thesis using assms(1,3) by (simp add: stored_modify)
next
  case (Some u)
  then have "stored c k = Some u" by (rule lookup_stored)
  then show ?thesis using assms Some by (auto simp: stored_modify split: if_splits)
qed

lemma all_sweep:
  assumes "\<And>x w. stored c x = Some w \<Longrightarrow> P x w" and "stored (sweep n ks c) x = Some w"
  shows "P x w"
  using assms stored_sweep by blast

end

definition stored :: "('k, 'v, 'e) cache \<Rightarrow> 'k \<rightharpoonup> 'v" where
  "stored c k = map_option Object (items c k)"

interpretation es: expiring_store stored cache_Get
  "\<lambda>te tr c k v r e. fst (SetWithRefreshExpire te tr c k v r e)" "\<lambda>c k. fst (Delete c k)"
  "\<lambda>t c k f. fst (Modify t c k f)" "\<lambda>n ks c. fst (evict_loop n ks c)"
proof (unfold_locales, goal_cases)
  case (1 t c k v)
  then show ?case by (auto simp: stored_def cache_ops split: option.splits if_splits)
next
  case (3 x k te tr c v r e w)
  then show ?case
    by (auto simp: stored_def SetWithRefreshExpire_items drop_key_apply split: if_splits)
next
  case (5 t c k f)
  then show ?case by (cases "items c k") (auto simp: fun_eq_iff stored_def Modify_items)
next
  case (6 n ks c x w)
  then show ?case
    by (auto simp: stored_def evict_loop_items without_expired_def split: option.splits if_splits)
qed (auto simp: fun_eq_iff stored_def SetWithRefreshExpire_items new_item_def Delete_state)

end
