(* ===== verification/Cache_Refinement.thy ===== *)
theory Cache_Refinement
  imports Cache_Laws
begin

text \<open>
  The abstract specification of the expiring cache: a bounded list of items ordered from the most to the least recently
  set or touched key, with the operations as the comments of the methods describe them. Every method but \<open>Rename\<close> refines its
  operation on that list, in the state it leaves, in what it returns and in the items it evicts. \<open>Rename\<close>
  takes a key out of the LRU list's sight, so no such list describes the cache after it.
\<close>

section \<open>Refinement of operations\<close>

text \<open>An implementation whose every call refines the specification's call, and the runs of both.\<close>

primrec run_calls :: "('op \<Rightarrow> 's \<Rightarrow> 's \<times> 'o) \<Rightarrow> 'op list \<Rightarrow> 's \<Rightarrow> 's \<times> 'o list" where
  "run_calls f [] s = (s, [])"
| "run_calls f (x # xs) s =
     (let (s', out) = f x s; (s'', outs) = run_calls f xs s' in (s'', out # outs))"

locale call_refinement =
  fixes abs :: "'c \<Rightarrow> 'a"
    and inv :: "'c \<Rightarrow> bool"
    and ok :: "'op \<Rightarrow> bool"
    and conc :: "'op \<Rightarrow> 'c \<Rightarrow> 'c \<times> 'o"
    and spec :: "'op \<Rightarrow> 'a \<Rightarrow> 'a \<times> 'o"
  assumes inv_call: "inv c \<Longrightarrow> ok x \<Longrightarrow> inv (fst (conc x c))"
    and refines_call: "inv c \<Longrightarrow> ok x \<Longrightarrow> spec x (abs c) = (abs (fst (conc x c)), snd (conc x c))"
begin

lemma refines_calls:
  assumes "inv c" and "list_all ok xs"
  shows "inv (fst (run_calls conc xs c)) \<and>
    run_calls spec xs (abs c) = (abs (fst (run_calls conc xs c)), snd (run_calls conc xs c))"
  using assms
proof (induction xs arbitrary: c)
  case (Cons x xs)
  then have "inv (fst (conc x c))" by (simp add: inv_call)
  then show ?case
    using Cons.IH[of "fst (conc x c)"] Cons.prems refines_call[of c x] by (simp add: case_prod_beta Let_def)
qed simp

end

section \<open>The calls\<close>

datatype ('k, 'v, 'e) cache_call =
  CallSet time time 'k 'v duration duration
| CallAdd time time time 'k 'v duration duration
| CallReplace time time time 'k 'v duration duration
| CallTouch time 'k duration
| CallModify time 'k "'v \<Rightarrow> 'v"
| CallDelete 'k
| CallPop time 'k
| CallReset
| CallDeleteAll "('k \<rightharpoonup> 'v Item) \<Rightarrow> 'k list"
| CallDeleteFunc "('k \<rightharpoonup> 'v Item) \<Rightarrow> 'k list" "('k \<rightharpoonup> 'v Item) \<Rightarrow> 'k list" "'k \<Rightarrow> 'v Item \<Rightarrow> bool \<times> bool"
| CallEvict time "('k \<rightharpoonup> 'v Item) \<Rightarrow> 'k list"
| CallGet time 'k
| CallGetStale time 'k
| CallGetWithExpire time 'k
| CallGetWithRenewExpiry time 'k
| CallItems time
| CallKeys "('k \<rightharpoonup> 'v Item) \<Rightarrow> 'k list" time
| CallItemCount
| CallOnEvicted "('k \<Rightarrow> 'v \<Rightarrow> 'e) option"
| CallOnRefresh "('k \<Rightarrow> 'v \<Rightarrow> 'e) option"
| CallStopJanitor

datatype ('k, 'v) cache_answer =
  NoAnswer
| Value "'v option"
| Outcome "'k cache_error option"
| StaleValue "('v \<times> bool) option"
| TimedValue "('v \<times> time) option"
| RenewedValue "('v \<times> time \<times> time) option"
| ItemMap "'k \<rightharpoonup> 'v Item"
| KeyList "'k list"
| Number nat

text \<open>
  The calls the specification covers, on a cache whose default expiration is \<open>ttl\<close>: a range over a map visits every key once, and
  a key is touched for a positive time. (With \<open>NoExpiration\<close> the comment of \<open>TouchWithExpire\<close> says that the item never
  expires, where the code lets it expire at once.)
\<close>

fun documented :: "duration \<Rightarrow> ('k, 'v, 'e) cache_call \<Rightarrow> bool" where
  "documented ttl (CallDeleteFunc ord1 ord2 flt) \<longleftrightarrow> (\<forall>m. finite (dom m) \<longrightarrow> range_of ord1 m)"
| "documented ttl (CallEvict t ord) \<longleftrightarrow> (\<forall>m. finite (dom m) \<longrightarrow> range_of ord m)"
| "documented ttl (CallTouch t k d) \<longleftrightarrow> 0 < (if d = DefaultExpiration then ttl else d)"
| "documented ttl _ \<longleftrightarrow> True"

section \<open>The cache\<close>

text \<open>
  Each call of a method; \<open>CallEvict\<close> is what \<open>RefreshOrEvictExpired\<close> does after the refresh callbacks, which are
  calls themselves. The output holds the eviction callbacks and what the method returns.
\<close>

fun perform ::
  "('k, 'v, 'e) cache_call \<Rightarrow> ('k, 'v, 'e) cache \<Rightarrow> ('k, 'v, 'e) cache \<times> 'e list \<times> ('k, 'v) cache_answer" where
  "perform (CallSet te tr k v r e) c = (let (c', calls) = SetWithRefreshExpire te tr c k v r e in (c', calls, NoAnswer))"
| "perform (CallAdd tg te tr k v r e) c =
     (let (c', calls, err) = AddWithRefreshExpire tg te tr c k v r e in (c', calls, Outcome err))"
| "perform (CallReplace tg te tr k v r e) c =
     (let (c', calls, err) = ReplaceWithRefreshExpire tg te tr c k v r e in (c', calls, Outcome err))"
| "perform (CallTouch t k d) c = (let (c', v) = TouchWithExpire t c k d in (c', [], Value v))"
| "perform (CallModify t k f) c = (let (c', v) = Modify t c k f in (c', [], Value v))"
| "perform (CallDelete k) c = (let (c', calls) = Delete c k in (c', calls, NoAnswer))"
| "perform (CallPop t k) c = (let (c', calls, v) = Pop t c k in (c', calls, Value v))"
| "perform CallReset c = (Reset c, [], NoAnswer)"
| "perform (CallDeleteAll ord) c = (let (c', calls, m) = DeleteAll ord c in (c', calls, ItemMap m))"
| "perform (CallDeleteFunc ord1 ord2 flt) c =
     (let (c', calls, m) = DeleteFunc ord1 ord2 c flt in (c', calls, ItemMap m))"
| "perform (CallEvict t ord) c =
     (let (c', evicted) = evict_loop (UnixNano t) (ord (items c)) c
      in (c', case onEvicted c' of None \<Rightarrow> [] | Some f \<Rightarrow> map (\<lambda>(k, v). f k v) evicted, NoAnswer))"
| "perform (CallGet t k) c = (c, [], Value (cache_Get t c k))"
| "perform (CallGetStale t k) c = (c, [], StaleValue (GetStale t c k))"
| "perform (CallGetWithExpire t k) c = (c, [], TimedValue (GetWithExpire t c k))"
| "perform (CallGetWithRenewExpiry t k) c = (c, [], RenewedValue (GetWithRenewExpiry t c k))"
| "perform (CallItems t) c = (c, [], ItemMap (Items t c))"
| "perform (CallKeys ord t) c = (c, [], KeyList (Keys ord t c))"
| "perform CallItemCount c = (c, [], Number (ItemCount c))"
| "perform (CallOnEvicted f) c = (OnEvicted c f, [], NoAnswer)"
| "perform (CallOnRefresh f) c = (OnRefresh c f, [], NoAnswer)"
| "perform CallStopJanitor c = (stopJanitor c, [], NoAnswer)"

section \<open>The specification\<close>

record ('k, 'v, 'e) recency_store =
  capacity :: int
  default_ttl :: duration
  reporter :: "('k \<Rightarrow> 'v \<Rightarrow> 'e) option"
  entries :: "('k \<times> 'v Item) list"

definition lookup_item :: "('k, 'v, 'e) recency_store \<Rightarrow> 'k \<Rightarrow> 'v Item option" where
  "lookup_item s k = map_of (entries s) k"

definition live_item :: "time \<Rightarrow> ('k, 'v, 'e) recency_store \<Rightarrow> 'k \<Rightarrow> 'v Item option" where
  "live_item t s k = (case lookup_item s k of None \<Rightarrow> None | Some i \<Rightarrow> if Expired t i then None else Some i)"

definition report :: "('k, 'v, 'e) recency_store \<Rightarrow> ('k \<times> 'v) list \<Rightarrow> 'e list" where
  "report s evicted = (case reporter s of None \<Rightarrow> [] | Some f \<Rightarrow> map (\<lambda>(k, v). f k v) evicted)"

definition until :: "('k, 'v, 'e) recency_store \<Rightarrow> time \<Rightarrow> duration \<Rightarrow> int" where
  "until s now d =
     (let d' = (if d = DefaultExpiration then default_ttl s else d)
      in if d' > 0 then UnixNano (time_Add now d') else 0)"

text \<open>The least recent item, when a new key does not fit beside all the others.\<close>

definition pushed_out :: "('k, 'v, 'e) recency_store \<Rightarrow> 'k \<Rightarrow> ('k \<times> 'v Item) option" where
  "pushed_out s k =
     (if lookup_item s k = None \<and> capacity s \<noteq> 0 \<and> capacity s \<le> int (length (entries s))
      then Some (last (entries s)) else None)"

definition store_put ::
  "('k, 'v, 'e) recency_store \<Rightarrow> 'k \<Rightarrow> 'v Item \<Rightarrow> ('k, 'v, 'e) recency_store" where
  "store_put s k i = s\<lparr>entries := bounded_put (capacity s) k i (entries s)\<rparr>"

definition store_item ::
  "('k, 'v, 'e) recency_store \<Rightarrow> time \<Rightarrow> time \<Rightarrow> 'v \<Rightarrow> duration \<Rightarrow> duration \<Rightarrow> 'v Item" where
  "store_item s te tr v r e = \<lparr>Object = v, Refresh = until s tr r, Expiration = until s te e\<rparr>"

definition store_remove :: "('k, 'v, 'e) recency_store \<Rightarrow> ('k \<Rightarrow> bool) \<Rightarrow> ('k, 'v, 'e) recency_store" where
  "store_remove s P = s\<lparr>entries := filter (\<lambda>x. \<not> P (fst x)) (entries s)\<rparr>"

text \<open>The keys a filter function chooses, visited in the given order until it says stop.\<close>

fun chosen :: "('k \<Rightarrow> 'v Item \<Rightarrow> bool \<times> bool) \<Rightarrow> ('k \<rightharpoonup> 'v Item) \<Rightarrow> 'k list \<Rightarrow> 'k list" where
  "chosen flt m [] = []"
| "chosen flt m (k # ks) =
     (case m k of
        None \<Rightarrow> chosen flt m ks
      | Some i \<Rightarrow>
          (let (del, stop) = flt k i; more = (if stop then [] else chosen flt m ks)
           in if del then k # more else more))"

text \<open>The documented behaviour of each call: the new state, the items that are evicted, in order, and the answer.\<close>

fun specify ::
  "('k, 'v, 'e) cache_call \<Rightarrow> ('k, 'v, 'e) recency_store
   \<Rightarrow> ('k, 'v, 'e) recency_store \<times> ('k \<times> 'v) list \<times> ('k, 'v) cache_answer" where
  "specify (CallSet te tr k v r e) s =
     (store_put s k (store_item s te tr v r e),
      case pushed_out s k of None \<Rightarrow> [] | Some (x, i) \<Rightarrow> [(x, Object i)], NoAnswer)"
| "specify (CallAdd tg te tr k v r e) s =
     (if live_item tg s k \<noteq> None then (s, [], Outcome (Some (AlreadyExists k)))
      else (store_put s k (store_item s te tr v r e),
            case pushed_out s k of None \<Rightarrow> [] | Some (x, i) \<Rightarrow> [(x, Object i)], Outcome None))"
| "specify (CallReplace tg te tr k v r e) s =
     (if live_item tg s k = None then (s, [], Outcome (Some (DoesntExist k)))
      else (store_put s k (store_item s te tr v r e), [], Outcome None))"
| "specify (CallTouch t k d) s =
     (case lookup_item s k of
        None \<Rightarrow> (s, [], Value None)
      | Some i \<Rightarrow>
          (s\<lparr>entries := (k, i\<lparr>Expiration := until s t d\<rparr>) # filter (\<lambda>x. fst x \<noteq> k) (entries s)\<rparr>, [],
           Value (Some (Object i))))"
| "specify (CallModify t k f) s =
     (case live_item t s k of
        None \<Rightarrow> (s, [], Value None)
      | Some i \<Rightarrow>
          (s\<lparr>entries := map (\<lambda>(x, j). (x, if x = k then j\<lparr>Object := f (Object j)\<rparr> else j)) (entries s)\<rparr>, [],
           Value (Some (f (Object i)))))"
| "specify (CallDelete k) s =
     (store_remove s (\<lambda>x. x = k),
      case lookup_item s k of None \<Rightarrow> [] | Some i \<Rightarrow> [(k, Object i)], NoAnswer)"
| "specify (CallPop t k) s =
     (case live_item t s k of
        None \<Rightarrow> (s, [], Value None)
      | Some i \<Rightarrow> (store_remove s (\<lambda>x. x = k), [(k, Object i)], Value (Some (Object i))))"
| "specify CallReset s = (s\<lparr>entries := []\<rparr>, [], NoAnswer)"
| "specify (CallDeleteAll ord) s =
     (s\<lparr>entries := []\<rparr>, List.map_filter (\<lambda>k. map_option (\<lambda>i. (k, Object i)) (lookup_item s k)) (ord (lookup_item s)),
      ItemMap (lookup_item s))"
| "specify (CallDeleteFunc ord1 ord2 flt) s =
     (let d = chosen flt (lookup_item s) (ord1 (lookup_item s));
          m = (\<lambda>k. if k \<in> set d then map_option (\<lambda>i. i\<lparr>Refresh := 0\<rparr>) (lookup_item s k) else None)
      in (store_remove s (\<lambda>x. x \<in> set d),
          List.map_filter (\<lambda>k. map_option (\<lambda>i. (k, Object i)) (m k)) (ord2 m), ItemMap m))"
| "specify (CallEvict t ord) s =
     (store_remove s (\<lambda>x. \<exists>i. lookup_item s x = Some i \<and> Expired t i),
      map (\<lambda>k. (k, Object (the (lookup_item s k))))
        (filter (\<lambda>k. Expired t (the (lookup_item s k))) (ord (lookup_item s))), NoAnswer)"
| "specify (CallGet t k) s = (s, [], Value (map_option Object (live_item t s k)))"
| "specify (CallGetStale t k) s = (s, [], StaleValue (map_option (\<lambda>i. (Object i, Expired t i)) (lookup_item s k)))"
| "specify (CallGetWithExpire t k) s =
     (s, [], TimedValue (map_option (\<lambda>i. (Object i, if Expiration i > 0 then Expiration i else zero_Time)) (live_item t s k)))"
| "specify (CallGetWithRenewExpiry t k) s =
     (s, [], RenewedValue (map_option
        (\<lambda>i. if Expiration i > 0 then (Object i, Refresh i, Expiration i) else (Object i, zero_Time, zero_Time)) (live_item t s k)))"
| "specify (CallItems t) s = (s, [], ItemMap (live_item t s))"
| "specify (CallKeys ord t) s = (s, [], KeyList (filter (\<lambda>k. live_item t s k \<noteq> None) (ord (lookup_item s))))"
| "specify CallItemCount s = (s, [], Number (length (entries s)))"
| "specify (CallOnEvicted f) s = (s\<lparr>reporter := f\<rparr>, [], NoAnswer)"
| "specify (CallOnRefresh f) s = (s, [], NoAnswer)"
| "specify CallStopJanitor s = (s, [], NoAnswer)"

text \<open>
  What the eviction callback hears of the evicted items. Here the code departs from the comment of \<open>OnEvicted\<close>: when \<open>Add\<close> pushes an item out,
  the callback gets the item's value next to the key that was added.
\<close>

fun heard :: "('k, 'v, 'e) cache_call \<Rightarrow> ('k \<times> 'v) list \<Rightarrow> ('k \<times> 'v) list" where
  "heard (CallAdd tg te tr k v r e) evicted = map (\<lambda>(x, u). (k, u)) evicted"
| "heard _ evicted = evicted"

definition spec_call ::
  "('k, 'v, 'e) cache_call \<Rightarrow> ('k, 'v, 'e) recency_store \<Rightarrow> ('k, 'v, 'e) recency_store \<times> 'e list \<times> ('k, 'v) cache_answer" where
  "spec_call x s = (let (s', evicted, answer) = specify x s in (s', report s (heard x evicted), answer))"

section \<open>The abstraction\<close>

definition abs_store :: "('k, 'v, 'e) cache \<Rightarrow> ('k, 'v, 'e) recency_store" where
  "abs_store c =
     \<lparr>capacity = MaxEntries (lru c), default_ttl = defaultExpiration c, reporter = onEvicted c, entries = abs_items c\<rparr>"

lemma abs_store_sel [simp]:
  "capacity (abs_store c) = MaxEntries (lru c)" "default_ttl (abs_store c) = defaultExpiration c"
  "reporter (abs_store c) = onEvicted c" "entries (abs_store c) = abs_items c"
  by (simp_all add: abs_store_def)

lemma abs_store_eqI:
  assumes "capacity s = MaxEntries (lru c)" and "default_ttl s = defaultExpiration c" and "reporter s = onEvicted c"
    and "entries s = abs_items c"
  shows "s = abs_store c"
  using assms by (simp add: abs_store_def)

lemma recent_inv: "cache_recent c \<Longrightarrow> cache_inv c"
  by (simp add: cache_recent_def)

lemma recent_stored: "cache_recent c \<Longrightarrow> items c k = None \<longleftrightarrow> k \<notin> set (stored_keys c)"
  using set_stored_keys[OF recent_inv, of c] by auto

lemma lookup_abs: "cache_recent c \<Longrightarrow> map_of (abs_items c) k = items c k"
  using recent_stored[of c k] by (auto simp: abs_items_def map_of_map_restrict restrict_map_def)

lemma lookup_abs_store [simp]: "cache_recent c \<Longrightarrow> lookup_item (abs_store c) = items c"
  by (rule ext) (simp add: lookup_item_def lookup_abs)

lemma live_abs_store: "cache_recent c \<Longrightarrow> live_item t (abs_store c) = Items t c"
  by (rule ext) (simp add: live_item_def Items_def Expired_def split: option.split)

lemma until_abs [simp]: "until (abs_store c) = deadline c"
  by (rule ext)+ (simp add: until_def deadline_def)

lemma store_item_abs [simp]: "store_item (abs_store c) te tr v r e = new_item te tr c v r e"
  by (simp add: store_item_def new_item_def)

lemma length_abs_items [simp]: "length (abs_items c) = length (stored_keys c)"
  by (simp add: abs_items_def)

text \<open>A stale key that is pushed out takes no item with it.\<close>

lemma pushed_out_abs:
  assumes "cache_recent c"
  shows "pushed_out (abs_store c) k =
    (case victim c k of None \<Rightarrow> None | Some x \<Rightarrow> map_option (\<lambda>i. (x, i)) (items c x))"
proof -
  let ?ks = "lru_keys (lru c)" and ?st = "stored_keys c"
  have inv: "cache_inv c" using assms by (rule recent_inv)
  obtain stale where old: "?ks = ?st @ stale" "\<And>x. x \<in> set stale \<Longrightarrow> items c x = None"
    "\<And>x. x \<in> set ?st \<Longrightarrow> items c x \<noteq> None" using recentE[OF assms] by blast
  have bound: "MaxEntries (lru c) \<noteq> 0 \<Longrightarrow> int (length ?ks) \<le> MaxEntries (lru c)" "0 \<le> MaxEntries (lru c)"
    using lq.bound[of "lru c"] inv by (auto simp: cache_inv_def)
  have v: "victim c k = (if k \<notin> set ?ks \<and> MaxEntries (lru c) \<noteq> 0 \<and> MaxEntries (lru c) \<le> int (length ?ks) then Some (last ?ks) else None)"
    using victim_iff[OF inv, of k "last ?ks"] victim_iff[OF inv, of k "the (victim c k)"] bound
    by (cases "victim c k") auto
  have p: "pushed_out (abs_store c) k = (if k \<notin> set ?st \<and> MaxEntries (lru c) \<noteq> 0 \<and> MaxEntries (lru c) \<le> int (length ?st)
      then Some (last (abs_items c)) else None)"
    using assms by (simp add: pushed_out_def recent_stored)
  show ?thesis
  proof (cases "stale = []")
    case True
    have full: "\<exists>i. last (abs_items c) = (last ?st, i) \<and> items c (last ?st) = Some i" if "?st \<noteq> []"
      using that old(3)[OF last_in_set] by (auto simp: abs_items_def last_map)
    have "?st \<noteq> []" if "MaxEntries (lru c) \<noteq> 0" "MaxEntries (lru c) \<le> int (length ?st)" using that bound(2) by auto
    then show ?thesis unfolding p v using True old(1) full by auto
  next
    case False
    then have "last ?ks = last stale" "items c (last stale) = None" using old(1) old(2)[OF last_in_set] by auto
    moreover have "\<not> MaxEntries (lru c) \<le> int (length ?st)" if "MaxEntries (lru c) \<noteq> 0"
      using bound(1)[OF that] False old(1) by (cases stale) auto
    ultimately show ?thesis unfolding p v by auto
  qed
qed

section \<open>The methods refine their specifications\<close>

lemma put_refines:
  assumes "cache_recent c"
  shows "store_put (abs_store c) k (new_item te tr c v r e) = abs_store (fst (SetWithRefreshExpire te tr c k v r e))"
  by (rule abs_store_eqI)
    (simp_all add: store_put_def bounded_put_refines[OF assms] cache_inv_SetWithRefreshExpire(2)[OF recent_inv[OF assms]] cache_frame)

lemma set_reports:
  assumes "cache_recent c"
  shows "report (abs_store c) (case pushed_out (abs_store c) k of None \<Rightarrow> [] | Some (x, i) \<Rightarrow> [(x, Object i)]) =
    snd (SetWithRefreshExpire te tr c k v r e)"
  by (simp add: pushed_out_abs[OF assms] SetWithRefreshExpire_calls report_def call_evicted_def split: option.split)

lemma cache_set_reports:
  assumes "cache_recent c"
  shows "call_evicted (fst (cache_set te tr c k v r e)) k (snd (cache_set te tr c k v r e)) =
    report (abs_store c) (case pushed_out (abs_store c) k of None \<Rightarrow> [] | Some (x, i) \<Rightarrow> [(k, Object i)])"
  using recent_inv[OF assms]
  by (simp add: pushed_out_abs[OF assms] cache_set_value cache_set_state report_def call_evicted_def cache_frame split: option.split)

lemma delete_refines:
  assumes "cache_recent c"
  shows "cache_recent (fst (cache_delete c k)) \<and> store_remove (abs_store c) (\<lambda>x. x = k) = abs_store (fst (cache_delete c k))"
proof -
  have wf: "lru_wf (lru c)" using recent_inv[OF assms] by (simp add: cache_inv_def)
  obtain stale where old: "lru_keys (lru c) = stored_keys c @ stale" "\<And>x. x \<in> set stale \<Longrightarrow> items c x = None"
    "\<And>x. x \<in> set (stored_keys c) \<Longrightarrow> items c x \<noteq> None" using recentE[OF assms] by blast
  have "lru_keys (lru (fst (cache_delete c k))) = filter (\<lambda>x. x \<noteq> k) (stored_keys c) @ filter (\<lambda>x. x \<noteq> k) stale"
    by (simp add: lq.remove_keys[OF wf] old(1))
  from recentI[OF cache_inv_delete[OF recent_inv[OF assms]] this]
  have new: "cache_recent (fst (cache_delete c k))" "stored_keys (fst (cache_delete c k)) = filter (\<lambda>x. x \<noteq> k) (stored_keys c)"
    using old by auto
  then have "abs_items (fst (cache_delete c k)) = filter (\<lambda>x. fst x \<noteq> k) (abs_items c)"
    by (auto simp: abs_items_def filter_map comp_def)
  then show ?thesis
    using new(1) by (auto intro!: abs_store_eqI simp: store_remove_def lq.cap_remove[OF wf])
qed

lemma delete_reports:
  "call_evicted (fst (cache_delete c k)) k (snd (cache_delete c k)) =
   (case items c k of None \<Rightarrow> [] | Some i \<Rightarrow> report (abs_store c) [(k, Object i)])"
  by (simp add: call_evicted_def cache_delete_value report_def split: option.split)

lemma touch_refines:
  assumes "cache_recent c" and "items c k = Some i" and "0 < (if d = DefaultExpiration then defaultExpiration c else d)"
  shows "cache_recent (fst (TouchWithExpire t c k d)) \<and> abs_store (fst (TouchWithExpire t c k d)) =
    (abs_store c)\<lparr>entries := (k, i\<lparr>Expiration := deadline c t d\<rparr>) # filter (\<lambda>x. fst x \<noteq> k) (abs_items c)\<rparr>"
proof -
  let ?c = "fst (TouchWithExpire t c k d)" and ?i = "i\<lparr>Expiration := deadline c t d\<rparr>"
  have wf: "lru_wf (lru c)" and k: "k \<in> set (stored_keys c)"
    using assms(2) recent_stored[OF assms(1), of k] recent_inv[OF assms(1)] by (auto simp: cache_inv_def)
  have its: "items ?c = (items c)(k \<mapsto> ?i)"
    using assms(2,3) by (simp add: TouchWithExpire_def Let_def deadline_def)
  obtain stale where old: "lru_keys (lru c) = stored_keys c @ stale" "\<And>x. x \<in> set stale \<Longrightarrow> items c x = None"
    "\<And>x. x \<in> set (stored_keys c) \<Longrightarrow> items c x \<noteq> None" using recentE[OF assms(1)] by blast
  have "filter (\<lambda>x. x \<noteq> k) stale = stale" using old(2) assms(2) by (auto simp: filter_id_conv)
  then have keys: "lru_keys (lru ?c) = (k # filter (\<lambda>x. x \<noteq> k) (stored_keys c)) @ stale"
    using k assms(2) by (simp add: TouchWithExpire_def Let_def lq.touch_keys[OF wf] recency_touch_def old(1))
  have "items ?c x \<noteq> None" if "x \<in> set (k # filter (\<lambda>x. x \<noteq> k) (stored_keys c))" for x
    using that old(3) by (auto simp: its)
  moreover have "items ?c x = None" if "x \<in> set stale" for x using old(2)[OF that] assms(2) by (auto simp: its)
  ultimately have new: "cache_recent ?c" "stored_keys ?c = k # filter (\<lambda>x. x \<noteq> k) (stored_keys c)"
    using recentI[OF cache_inv_TouchWithExpire[OF recent_inv[OF assms(1)]] keys] by blast+
  then have "abs_items ?c = (k, ?i) # filter (\<lambda>x. fst x \<noteq> k) (abs_items c)"
    by (auto simp: abs_items_def its filter_map comp_def)
  then show ?thesis
    using new(1) assms(2)
    by (auto intro!: abs_store_eqI[symmetric] simp: TouchWithExpire_def Let_def lq.cap_touch[OF wf])
qed

lemma modify_refines:
  assumes "cache_recent c"
  shows "cache_recent (fst (Modify t c k f))"
    and "cache_Get t c k \<noteq> None \<Longrightarrow> abs_store (fst (Modify t c k f)) =
      (abs_store c)\<lparr>entries := map (\<lambda>(x, j). (x, if x = k then j\<lparr>Object := f (Object j)\<rparr> else j)) (abs_items c)\<rparr>"
proof -
  have keys: "stored_keys (fst (Modify t c k f)) = stored_keys c"
    by (auto simp: stored_keys_def Modify_frame Modify_items intro!: filter_cong)
  then show "cache_recent (fst (Modify t c k f))"
    using assms cache_inv_Modify[OF recent_inv[OF assms]] by (simp add: cache_recent_def Modify_frame)
  assume "cache_Get t c k \<noteq> None"
  moreover obtain i where "items c k = Some i" using calculation by (auto simp: cache_Get_def split: option.splits)
  ultimately show "abs_store (fst (Modify t c k f)) =
      (abs_store c)\<lparr>entries := map (\<lambda>(x, j). (x, if x = k then j\<lparr>Object := f (Object j)\<rparr> else j)) (abs_items c)\<rparr>"
    by (intro abs_store_eqI[symmetric]) (auto simp: cache_frame abs_items_def keys Modify_items)
qed

lemma emptied_refines:
  assumes "cache_recent c"
  shows "cache_recent (c\<lparr>items := Map.empty\<rparr>)" and "abs_store (c\<lparr>items := Map.empty\<rparr>) = (abs_store c)\<lparr>entries := []\<rparr>"
  using recentI[of "c\<lparr>items := Map.empty\<rparr>" "[]" "lru_keys (lru c)"] recent_inv[OF assms]
  by (auto simp: cache_inv_def abs_store_def abs_items_def)

section \<open>Loops that delete\<close>

definition delete_keys :: "'k list \<Rightarrow> ('k, 'v, 'e) cache \<Rightarrow> ('k, 'v, 'e) cache" where
  "delete_keys ks c = fold (\<lambda>k c. fst (cache_delete c k)) ks c"

lemma delete_keys_simps [simp]:
  "delete_keys [] c = c" "delete_keys (k # ks) c = delete_keys ks (fst (cache_delete c k))"
  by (simp_all add: delete_keys_def)

lemma delete_keys_refines:
  "cache_recent c \<Longrightarrow>
   cache_recent (delete_keys ks c) \<and> store_remove (abs_store c) (\<lambda>x. x \<in> set ks) = abs_store (delete_keys ks c)"
proof (induction ks arbitrary: c)
  case Nil
  then show ?case by (simp add: store_remove_def)
next
  case (Cons k ks)
  have "store_remove (abs_store c) (\<lambda>x. x \<in> set (k # ks)) = store_remove (store_remove (abs_store c) (\<lambda>x. x = k)) (\<lambda>x. x \<in> set ks)"
    by (simp add: store_remove_def filter_filter conj_commute)
  then show ?case using Cons.IH[of "fst (cache_delete c k)"] delete_refines[OF Cons.prems, of k] by simp
qed

lemma delete_keys_onEvicted [simp]: "onEvicted (delete_keys ks c) = onEvicted c"
  by (induction ks arbitrary: c) simp_all

lemma evict_loop_delete_keys:
  "distinct ks \<Longrightarrow> fst (evict_loop now ks c) =
     delete_keys (filter (\<lambda>k. \<exists>i. items c k = Some i \<and> due_eviction now i) ks) c"
proof (induction ks arbitrary: c)
  case (Cons k ks)
  have "filter (\<lambda>x. \<exists>i. items (fst (cache_delete c k)) x = Some i \<and> due_eviction now i) ks =
      filter (\<lambda>x. \<exists>i. items c x = Some i \<and> due_eviction now i) ks"
    using Cons.prems by (intro filter_cong) auto
  then show ?case
    using Cons.IH[of c] Cons.IH[of "fst (cache_delete c k)"] Cons.prems
    by (auto simp: Let_def case_prod_beta due_eviction_def split: option.split)
qed simp

lemma chosen_cong: "(\<And>k. k \<in> set ks \<Longrightarrow> m k = m' k) \<Longrightarrow> chosen flt m ks = chosen flt m' ks"
  by (induction ks) (auto simp: Let_def case_prod_beta split: option.split)

lemma set_chosen: "set (chosen flt m ks) \<subseteq> set ks"
  by (induction ks) (auto simp: Let_def case_prod_beta split: option.splits if_splits)

lemma DeleteFunc_loop_chosen:
  "distinct ks \<Longrightarrow> DeleteFunc_loop flt ks (c, m) =
     (delete_keys (chosen flt (items c) ks) c,
      \<lambda>k. if k \<in> set (chosen flt (items c) ks) then map_option (\<lambda>i. i\<lparr>Refresh := 0\<rparr>) (items c k) else m k)"
proof (induction ks arbitrary: c m)
  case (Cons k ks)
  have k: "k \<notin> set (chosen flt (items c) ks)" using set_chosen[of flt "items c" ks] Cons.prems by auto
  have same: "chosen flt (items (fst (cache_delete c k))) ks = chosen flt (items c) ks"
    using Cons.prems by (intro chosen_cong) auto
  note after = Cons.IH[of "fst (cache_delete c k)", unfolded same]
  show ?case
    using Cons.IH[of c m] after Cons.prems k
    by (auto simp: Let_def case_prod_beta split: option.split)
qed simp

abbreviation refined :: "('k, 'v, 'e) cache_call \<Rightarrow> ('k, 'v, 'e) cache \<Rightarrow> bool" where
  "refined x c \<equiv> cache_recent (fst (perform x c)) \<and>
     spec_call x (abs_store c) = (abs_store (fst (perform x c)), snd (perform x c))"

lemma calls_of_items:
  "map (\<lambda>(k, v). f k v) (List.map_filter (\<lambda>k. map_option (\<lambda>i. (k, Object i)) (m k)) ks) =
     List.map_filter (\<lambda>k. map_option (\<lambda>i. f k (Object i)) (m k)) ks"
  by (induction ks) (auto simp: List.map_filter_simps split: option.split)

lemma DeleteFunc_refines:
  assumes "cache_recent c" and "range_of ord1 (items c)"
  shows "refined (CallDeleteFunc ord1 ord2 flt) c"
proof -
  have d: "distinct (ord1 (items c))" using assms(2) by (simp add: range_of_def)
  show ?thesis
    unfolding spec_call_def specify.simps lookup_abs_store[OF assms(1)]
    using delete_keys_refines[OF assms(1), of "chosen flt (items c) (ord1 (items c))"]
    by (simp add: DeleteFunc_def DeleteFunc_loop_chosen[OF d] Let_def report_def calls_of_items split: option.split)
qed

lemma evict_refines:
  assumes "cache_recent c" and "range_of ord (items c)"
  shows "refined (CallEvict t ord) c"
proof -
  let ?ks = "ord (items c)" and ?n = "UnixNano t"
  have d: "distinct ?ks" and dom: "set ?ks = dom (items c)" using assms(2) by (auto simp: range_of_def)
  have due: "due_eviction ?n i \<longleftrightarrow> Expired t i" for i by (auto simp: due_eviction_def Expired_def)
  let ?gone = "filter (\<lambda>k. \<exists>i. items c k = Some i \<and> Expired t i) ?ks"
  have loop: "fst (evict_loop ?n ?ks c) = delete_keys ?gone c"
    using evict_loop_delete_keys[OF d, of ?n c] by (simp add: due)
  have "(\<lambda>x. x \<in> set ?gone) = (\<lambda>x. \<exists>i. items c x = Some i \<and> Expired t i)" using dom by auto
  then have state: "store_remove (abs_store c) (\<lambda>x. \<exists>i. items c x = Some i \<and> Expired t i) = abs_store (delete_keys ?gone c)"
    using delete_keys_refines[OF assms(1), of ?gone] by simp
  have calls: "snd (evict_loop ?n ?ks c) =
      map (\<lambda>k. (k, Object (the (items c k)))) (filter (\<lambda>k. Expired t (the (items c k))) ?ks)" if "onEvicted c \<noteq> None"
    using evict_loop_evicted[OF d that, of ?n] map_filter_present[of ?ks "items c" "due_eviction ?n"] dom by (auto simp: due)
  show ?thesis
    using delete_keys_refines[OF assms(1), of ?gone] assms(1) state calls
    by (auto simp: spec_call_def case_prod_beta Let_def loop report_def comp_def split: option.split)
qed

section \<open>The refinement\<close>

lemma distinct_stored: "cache_inv c \<Longrightarrow> distinct (stored_keys c)"
  using lq.distinct_keys[of "lru c"] by (simp add: stored_keys_def cache_inv_def)

lemma ItemCount_abs:
  assumes "cache_recent c"
  shows "ItemCount c = length (abs_items c)"
  using distinct_card[OF distinct_stored[OF recent_inv[OF assms]]] set_stored_keys[OF recent_inv[OF assms]]
  by (simp add: ItemCount_def)

lemma refined_sets:
  assumes "cache_recent c"
  shows "refined (CallSet te tr k v r e) c" and "refined (CallAdd tg te tr k v r e) c"
    and "refined (CallReplace tg te tr k v r e) c"
proof -
  have inv: "cache_inv c" using assms by (rule recent_inv)
  note set = put_recent(1)[OF assms, of te tr k v r e] put_refines[OF assms, of k te tr v r e]
  show "refined (CallSet te tr k v r e) c"
    using set by (simp add: spec_call_def case_prod_beta Let_def set_reports[OF assms])
  have live: "live_item tg (abs_store c) k = None \<longleftrightarrow> cache_get tg c k = None"
    using cache_Get_Items[of tg c k] by (simp add: live_abs_store[OF assms] cache_Get_get)
  have heard: "map (\<lambda>(x, u). (k, u)) (case p of None \<Rightarrow> [] | Some (x, i) \<Rightarrow> [(x, Object i)]) =
      (case p of None \<Rightarrow> [] | Some (x, i) \<Rightarrow> [(k, Object i)])" for p :: "('a \<times> 'b Item) option"
    by (simp split: option.split prod.split)
  show "refined (CallAdd tg te tr k v r e) c"
    using set assms
    by (auto simp: spec_call_def AddWithRefreshExpire_def case_prod_beta Let_def live heard[unfolded case_prod_beta] report_def[of _ "[]"]
        cache_set_reports[OF assms, unfolded cache_set_state[OF inv] case_prod_beta] cache_set_state[OF inv] split: option.split)
  have "pushed_out (abs_store c) k = None" if "cache_get tg c k \<noteq> None"
    using that assms by (auto simp: pushed_out_def cache_get_def split: option.splits)
  then have "call_evicted (fst (cache_set te tr c k v r e)) k (snd (cache_set te tr c k v r e)) = []" if "cache_get tg c k \<noteq> None"
    using that by (simp add: cache_set_reports[OF assms] report_def split: option.split)
  note quiet = this[unfolded cache_set_state[OF inv]]
  show "refined (CallReplace tg te tr k v r e) c"
    using set assms
    by (auto simp: spec_call_def ReplaceWithRefreshExpire_def case_prod_beta Let_def live quiet report_def cache_set_state[OF inv]
        split: option.split)
qed

lemma refined_changes:
  assumes "cache_recent c"
  shows "documented (defaultExpiration c) (CallTouch t k d) \<Longrightarrow> refined (CallTouch t k d) c"
    and "refined (CallModify t k f) c" and "refined (CallDelete k) c" and "refined (CallPop t k) c"
    and "refined CallReset c" and "refined (CallDeleteAll ord) c"
proof -
  show "refined (CallTouch t k d) c" if "documented (defaultExpiration c) (CallTouch t k d)"
    using assms touch_refines[OF assms, of k _ d t] that
    by (cases "items c k") (simp_all add: spec_call_def report_def TouchWithExpire_def Let_def split: option.split)
  have live: "live_item t (abs_store c) k = (if cache_Get t c k = None then None else items c k)"
    by (simp add: live_abs_store[OF assms] Items_def cache_Get_def split: option.split)
  show "refined (CallModify t k f) c"
    using assms modify_refines[OF assms, of t k f]
    by (cases "items c k") (auto simp: spec_call_def report_def live Modify_result case_prod_beta Modify_def cache_Get_def Let_def
        split: option.split)
  show "refined (CallDelete k) c"
    using delete_refines[OF assms, of k] assms
    by (simp add: spec_call_def Delete_def case_prod_beta Let_def delete_reports report_def split: option.split)
  show "refined (CallPop t k) c"
    using delete_refines[OF assms, of k] assms
    by (auto simp: spec_call_def live Pop_def cache_Get_def case_prod_beta Let_def delete_reports report_def split: option.split)
  show "refined CallReset c" "refined (CallDeleteAll ord) c"
    using emptied_refines[OF assms] assms
    by (simp_all add: spec_call_def Reset_def DeleteAll_def Let_def report_def calls_of_items split: option.split)
qed

lemma refined_reads:
  assumes "cache_recent c"
  shows "refined (CallGet t k) c" "refined (CallGetStale t k) c" "refined (CallGetWithExpire t k) c"
    "refined (CallGetWithRenewExpiry t k) c" "refined (CallItems t) c" "refined (CallKeys ord t) c" "refined CallItemCount c"
    "refined (CallOnEvicted g) c" "refined (CallOnRefresh g) c" "refined CallStopJanitor c"
proof -
  have none: "report (abs_store c) [] = []" by (simp add: report_def split: option.split)
  note spec = spec_call_def none assms
  show "refined (CallGet t k) c" by (simp add: spec live_abs_store cache_Get_Items)
  show "refined (CallGetStale t k) c" by (simp add: spec GetStale_def Expired_def split: option.split)
  show "refined (CallGetWithExpire t k) c"
    by (simp add: spec live_abs_store Items_def GetWithExpire_def split: option.split)
  show "refined (CallGetWithRenewExpiry t k) c"
    by (simp add: spec live_abs_store Items_def GetWithRenewExpiry_def split: option.split)
  show "refined (CallItems t) c" by (simp add: spec live_abs_store)
  show "refined (CallKeys ord t) c"
    by (auto simp: spec live_abs_store Keys_def Items_def intro!: filter_cong split: option.splits)
  show "refined CallItemCount c" by (simp add: spec ItemCount_abs)
  have "cache_recent (OnEvicted c g)" "cache_recent (OnRefresh c g)" "cache_recent (stopJanitor c)"
    using assms by (simp_all add: cache_recent_def cache_inv_def stored_keys_def OnEvicted_def OnRefresh_def stopJanitor_def)
  then show "refined (CallOnEvicted g) c" "refined (CallOnRefresh g) c" "refined CallStopJanitor c"
    by (simp_all add: spec abs_store_def abs_items_def stored_keys_def OnEvicted_def OnRefresh_def stopJanitor_def report_def
        split: option.split)
qed

lemma default_ttl_spec_call: "default_ttl (fst (spec_call x s)) = default_ttl s"
  by (cases x) (simp_all add: spec_call_def store_put_def store_remove_def Let_def split: option.split)

interpretation cr: call_refinement abs_store "\<lambda>c. cache_recent c \<and> defaultExpiration c = ttl" "documented ttl" perform spec_call
  for ttl :: duration
proof -
  have refined: "refined x c" if rec: "cache_recent c" and ok: "documented (defaultExpiration c) x"
    for c :: "('k, 'v, 'e) cache" and x
  proof (cases x)
    case (CallDeleteFunc ord1 ord2 flt)
    have "range_of ord1 (items c)" using ok cache_inv_finite[OF recent_inv[OF rec]] by (simp add: CallDeleteFunc)
    then show ?thesis using DeleteFunc_refines[OF rec] by (simp only: CallDeleteFunc)
  next
    case (CallEvict t ord)
    have "range_of ord (items c)" using ok cache_inv_finite[OF recent_inv[OF rec]] by (simp add: CallEvict)
    then show ?thesis using evict_refines[OF rec] by (simp only: CallEvict)
  next
    case (CallTouch t k d)
    then show ?thesis using refined_changes(1)[OF rec] ok by (simp only: CallTouch)
  qed (use refined_sets[OF rec] refined_changes(2-)[OF rec] refined_reads[OF rec] in \<open>simp_all only:\<close>)
  have "defaultExpiration (fst (perform x c)) = defaultExpiration c"
    if "cache_recent c" "documented (defaultExpiration c) x" for c :: "('k, 'v, 'e) cache" and x
    using default_ttl_spec_call[of x "abs_store c"] refined[OF that] by simp
  then show "call_refinement abs_store (\<lambda>c. cache_recent c \<and> defaultExpiration c = ttl) (documented ttl) perform spec_call"
    using refined by unfold_locales auto
qed

end
