(* ===== verification/Cache_Properties.thy ===== *)
theory Cache_Properties
  imports Cache_Refinement
begin

text \<open>
  The properties of the LRU list and of the expiring cache, with their witnesses. The fixture
  \<open>full_cache\<close> is a cache of capacity 2 that holds the keys 5 and 6, with an eviction callback that
  records the key and the value it is called with.
\<close>

definition full_cache :: "(nat, nat, nat \<times> nat) cache" where
  "full_cache =
     fst (SetWithRefreshExpire 100 100
       (fst (SetWithRefreshExpire 100 100 (OnEvicted (NewLru 2 0 0) (Some Pair)) 5 10 NoRefresh 50))
       6 20 NoRefresh NoExpiration)"

lemma cache_exact_full_cache: "cache_exact full_cache"
proof -
  have "cache_exact (OnEvicted (NewLru 2 0 0) (Some Pair) :: (nat, nat, nat \<times> nat) cache)"
    by (simp add: cache_exact_def cache_inv_callbacks cache_inv_NewLru) (simp add: OnEvicted_def)
  then show ?thesis by (simp add: full_cache_def cache_exact_SetWithRefreshExpire)
qed

lemma cache_inv_full_cache: "cache_inv full_cache"
  using cache_exact_full_cache by (simp add: cache_exact_def)

lemma full_cache_eval:
  "items full_cache 5 = Some \<lparr>Object = 10, Refresh = 0, Expiration = 150\<rparr>"
  "items full_cache 6 = Some \<lparr>Object = 20, Refresh = 0, Expiration = 0\<rparr>"
  "lru_keys (lru full_cache) = [6, 5]" "MaxEntries (lru full_cache) = 2"
  "items full_cache 7 = None"
  by code_simp+

lemma full_cache_callbacks: "onEvicted full_cache = Some Pair" "onRefresh full_cache = None"
  by (simp_all add: full_cache_def cache_frame OnEvicted_def)

lemma dom_full_cache: "dom (items full_cache) = {5, 6}"
  using cache_exact_full_cache full_cache_eval(3) by (auto simp: cache_exact_def)

section \<open>The LRU list\<close>

text \<open>
  C16. \<open>lruCache.Add\<close> refines the recency list: on a well-formed list it never panics, leaves the
  list well formed with the same capacity, and its keys and the entry it returns are those of
  \<open>recency_add\<close>: an existing key moves to the front, a new key is pushed and, when that exceeds
  \<open>MaxEntries\<close>, the least recent key is dropped and returned.
\<close>
theorem lru_Add_refines_recency:
  assumes "lru_wf c"
  shows "lru_Add_go c k v = Ret (lru_Add c k v) \<and>
    lru_wf (fst (lru_Add c k v)) \<and> MaxEntries (fst (lru_Add c k v)) = MaxEntries c \<and>
    (lru_keys (fst (lru_Add c k v)), map_option ent_key (snd (lru_Add c k v)))
      = recency_add (MaxEntries c) k (lru_keys c)"
  using assms lru_Add_go_returns[of c k v] lru_wf_Add[OF assms] lru_Add_recency[of c k v]
  unfolding lru_wf_def by blast

theorem lru_Add_refines_recency_witness:
  "(lru_keys (fst (lru_Add (lru full_cache) 7 True)),
    map_option ent_key (snd (lru_Add (lru full_cache) 7 True))) = ([7, 6], Some 5)"
proof -
  have "lru_wf (lru full_cache)" using cache_inv_full_cache by (simp add: cache_inv_def)
  from lru_Add_refines_recency[OF this, of 7 True] show ?thesis
    by (simp add: full_cache_eval recency_add_def)
qed

section \<open>Bounds\<close>

text \<open>
  C6. The cache stays within its capacity: starting from \<open>NewLru n\<close> and after any sequence of
  operations other than \<open>Rename\<close>, every stored key is tracked by a well-formed LRU list and, where
  \<open>n\<close> is not 0, at most \<open>n\<close> items are stored.
\<close>
theorem cache_within_capacity:
  assumes "0 \<le> n" and "cache_step\<^sup>*\<^sup>* (NewLru n de ci) c"
  shows "lru_wf (lru c) \<and> dom (items c) \<subseteq> set (lru_keys (lru c)) \<and>
    (n \<noteq> 0 \<longrightarrow> int (ItemCount c) \<le> n)"
proof -
  have inv: "cache_inv c" using assms cache_run.inv_reachable by blast
  have "MaxEntries (lru c) = n"
    using capacity_steps[OF assms(2) cache_inv_NewLru[OF assms(1)]] by simp
  then show ?thesis using inv cache_inv_count[OF inv] by (auto simp: cache_inv_def)
qed

theorem cache_within_capacity_witness:
  "int (ItemCount (fst (SetWithRefreshExpire 0 0 (fst (SetWithRefreshExpire 0 0
      (NewLru 1 0 0 :: (nat, nat, unit) cache) 5 10 NoRefresh NoExpiration)) 6 20 NoRefresh NoExpiration))) \<le> 1"
  (is "int (ItemCount (fst (SetWithRefreshExpire 0 0 ?c1 6 20 NoRefresh NoExpiration))) \<le> 1")
proof -
  have "cache_step\<^sup>*\<^sup>* (NewLru 1 0 0) ?c1" by (rule r_into_rtranclp, rule step_set)
  then have "cache_step\<^sup>*\<^sup>* (NewLru 1 0 0) (fst (SetWithRefreshExpire 0 0 ?c1 6 20 NoRefresh NoExpiration))"
    by (rule rtranclp.rtrancl_into_rtrancl) (rule step_set)
  from cache_within_capacity[OF _ this] show ?thesis by simp
qed

section \<open>Setting and reading\<close>

text \<open>
  C7. The cache refines its documented behaviour, given as a bounded list of items from the most to the least recently set or touched
  key. Take any sequence of calls, on a new cache, of \<open>Set\<close>, \<open>Add\<close>, \<open>Replace\<close>, \<open>Touch\<close> for a positive time, \<open>Modify\<close>, \<open>Delete\<close>, \<open>Pop\<close>, \<open>Reset\<close>,
  \<open>DeleteAll\<close>, \<open>DeleteFunc\<close>, the janitor's eviction, all the readers and the registrations of callbacks, that is, of every method but \<open>Rename\<close>. Then the
  stored items, in the order of the LRU list, are the entries of the list after the same calls, and every call returned the
  same answer and made the eviction callback for the same items in the same order; in the callback of \<open>Add\<close> the key is the added one.
\<close>
theorem cache_refines_recency_store:
  assumes "0 \<le> n" and "list_all (documented (if de = 0 then -1 else de)) calls"
    and "run_calls perform calls (NewLru n de ci) = (c, outs)"
  shows "run_calls spec_call calls \<lparr>capacity = n, default_ttl = (if de = 0 then -1 else de), reporter = None, entries = []\<rparr> =
      (abs_store c, outs) \<and>
    entries (abs_store c) = map (\<lambda>k. (k, the (items c k))) (filter (\<lambda>k. items c k \<noteq> None) (lru_keys (lru c))) \<and>
    dom (items c) \<subseteq> set (lru_keys (lru c)) \<and> distinct (lru_keys (lru c))"
proof -
  have "cache_exact (NewLru n de ci)" using assms(1) by (simp add: cache_exact_def cache_inv_NewLru)
  then have new: "cache_recent (NewLru n de ci) \<and> defaultExpiration (NewLru n de ci) = (if de = 0 then -1 else de)"
    by (intro conjI cache_exact_recent) (simp_all add: NewLru_def newCacheWithJanitor_def newCache_def runJanitor_def Let_def)
  have start: "abs_store (NewLru n de ci) =
      \<lparr>capacity = n, default_ttl = (if de = 0 then -1 else de), reporter = None, entries = []\<rparr>"
    by (simp add: abs_store_def abs_items_def stored_keys_def)
      (simp add: NewLru_def newCacheWithJanitor_def newCache_def runJanitor_def Let_def)
  note run = cr.refines_calls[OF new assms(2), unfolded start assms(3)]
  then have "cache_recent c" by simp
  then show ?thesis
    using run lq.distinct_keys[of "lru c"] by (auto simp: cache_recent_def cache_inv_def abs_items_def stored_keys_def)
qed

text \<open>
  Touching the key 5 makes 6 the least recent one, which the key 7 then pushes out. After \<open>Reset\<close> the LRU list still
  holds 7 and 5, which do not keep the new keys 8 and 9 from being stored.
\<close>

definition some_calls :: "(nat, nat, nat \<times> nat) cache_call list" where
  "some_calls =
     [CallOnEvicted (Some Pair), CallSet 100 100 5 10 NoRefresh 50, CallSet 100 100 6 20 NoRefresh NoExpiration,
      CallTouch 110 5 90, CallAdd 120 120 120 5 11 NoRefresh 10, CallSet 120 120 7 30 NoRefresh NoExpiration, CallGet 200 5,
      CallGet 201 5, CallItemCount, CallReset, CallSet 210 210 8 40 NoRefresh NoExpiration, CallSet 210 210 9 50 NoRefresh NoExpiration,
      CallGet 220 8, CallItemCount]"

theorem cache_refines_recency_store_witness:
  "snd (run_calls perform some_calls (NewLru 2 0 0)) =
     [([], NoAnswer), ([], NoAnswer), ([], NoAnswer), ([], Value (Some 10)), ([], Outcome (Some (AlreadyExists 5))),
      ([(6, 20)], NoAnswer), ([], Value (Some 10)), ([], Value None), ([], Number 2), ([], NoAnswer), ([], NoAnswer), ([], NoAnswer),
      ([], Value (Some 40)), ([], Number 2)]"
proof -
  obtain c outs where run: "run_calls perform some_calls (NewLru 2 0 0) = (c, outs)" by fastforce
  have "list_all (documented (if 0 = (0 :: duration) then -1 else 0)) some_calls" by (simp add: some_calls_def DefaultExpiration_def)
  from cache_refines_recency_store[OF _ this run]
  have "outs =
     [([], NoAnswer), ([], NoAnswer), ([], NoAnswer), ([], Value (Some 10)), ([], Outcome (Some (AlreadyExists 5))),
      ([(6, 20)], NoAnswer), ([], Value (Some 10)), ([], Value None), ([], Number 2), ([], NoAnswer), ([], NoAnswer), ([], NoAnswer),
      ([], Value (Some 40)), ([], Number 2)]"
    by (auto simp: some_calls_def spec_call_def store_put_def bounded_put_def store_item_def until_def pushed_out_def lookup_item_def
        live_item_def report_def Expired_def UnixNano_def int64_id in_int64_def time_Add_def DefaultExpiration_def NoRefresh_def NoExpiration_def)
  then show ?thesis by (simp add: run)
qed

text \<open>
  Reading after setting. A key set with a positive expiration \<open>e\<close> at time \<open>te\<close> is found with its
  new value until \<open>te + e\<close> has passed and not after; any other key reads as before, except that the
  least recent key is gone when the cache was full and the key was new.
\<close>
lemma get_after_set:
  assumes "cache_inv c" and "0 < e" and "0 < te + e" and "in_int64 (te + e)" and "in_int64 now"
  shows "cache_Get now (fst (SetWithRefreshExpire te tr c k v r e)) x =
    (if x = k then (if now \<le> te + e then Some v else None)
     else if k \<notin> set (lru_keys (lru c)) \<and> 0 < MaxEntries (lru c) \<and>
       MaxEntries (lru c) = int (length (lru_keys (lru c))) \<and> x = last (lru_keys (lru c)) then None
     else cache_Get now c x)"
proof -
  have "Expired now (new_item te tr c v r e) \<longleftrightarrow> te + e < now"
    by (simp add: Expired_new_item[OF assms(2,4,3)] UnixNano_def int64_id[OF assms(5)])
  then show ?thesis by (auto simp: cache_Get_set victim_iff[OF assms(1)])
qed

section \<open>The sweep\<close>

text \<open>
  C8. One sweep of \<open>RefreshOrEvictExpired\<close> at time \<open>t\<close>. The refresh callback runs, in the order of the first range, once for each
  item whose refresh time is set and has passed, with its own key and value, and for no other item; let \<open>c1\<close> and \<open>s1\<close> be the cache and the rest of
  the state after that. Then exactly the items of \<open>c1\<close> whose expiration is set and lies before \<open>t\<close>
  are removed, every other item is untouched, and the eviction callback is called once for each
  removed item, with its own key and value, in the order of the second range.
\<close>
theorem sweep_evicts_exactly_the_expired:
  assumes "onRefresh c = Some f" and "range_of ord1 (items c)"
    and "(c1, s1) = fold (\<lambda>k. run (f k (Object (the (items c k)))))
      (filter (\<lambda>k. 0 < Refresh (the (items c k)) \<and> Refresh (the (items c k)) < UnixNano t) (ord1 (items c))) (c, s)"
    and "onEvicted c1 = Some g" and "range_of ord2 (items c1)"
    and "RefreshOrEvictExpired run ord1 ord2 t (c, s) = ((c2, s2), calls)"
  shows "items c2 =
      (\<lambda>k. case items c1 k of None \<Rightarrow> None | Some i \<Rightarrow> if 0 < Expiration i \<and> Expiration i < UnixNano t then None else Some i) \<and>
    s2 = s1 \<and>
    calls = map (\<lambda>k. g k (Object (the (items c1 k))))
      (filter (\<lambda>k. 0 < Expiration (the (items c1 k)) \<and> Expiration (the (items c1 k)) < UnixNano t) (ord2 (items c1)))"
proof -
  let ?n = "UnixNano t"
  let ?l = "evict_loop ?n (ord2 (items c1)) c1"
  have ord: "distinct (ord2 (items c1))" "set (ord2 (items c1)) = dom (items c1)"
    using assms(5) by (auto simp: range_of_def)
  have "fold (\<lambda>(k, v). run (f k v)) (itemsRequiringRefresh ord1 ?n c) (c, s) = (c1, s1)"
    using assms(1,2) by (simp add: itemsRequiringRefresh_due fold_map comp_def assms(3))
  then have res: "c2 = fst ?l" "s2 = s1" "calls = map (\<lambda>(k, v). g k v) (snd ?l)"
    using assms(1,4,6) by (auto simp: RefreshOrEvictExpired_def Let_def case_prod_beta evict_loop_frame)
  have "snd ?l = map (\<lambda>k. (k, Object (the (items c1 k))))
      (filter (\<lambda>k. due_eviction ?n (the (items c1 k))) (ord2 (items c1)))"
    using evict_loop_evicted[OF ord(1), of c1 ?n] ord(2) assms(4)
      map_filter_present[of "ord2 (items c1)" "items c1" "due_eviction ?n"] by auto
  then show ?thesis
    using res ord evict_loop_all[of c1 "ord2 (items c1)" ?n] unfolding without_expired_def due_eviction_def by simp
qed

text \<open>
  The key 5 is due for a refresh, which stores it again with a later expiration, and the key 6 has expired.
  The refresh callback also records its arguments.
\<close>

definition due_cache :: "(nat, nat, nat \<times> nat) cache" where
  "due_cache =
     OnRefresh (fst (SetWithRefreshExpire 100 100
       (fst (SetWithRefreshExpire 100 100 (OnEvicted (NewLru 2 0 0) (Some Pair)) 5 10 20 50))
       6 20 NoRefresh 40)) (Some Pair)"

definition renew :: "nat \<times> nat \<Rightarrow> (nat, nat, nat \<times> nat) cache \<times> (nat \<times> nat) list \<Rightarrow> (nat, nat, nat \<times> nat) cache \<times> (nat \<times> nat) list" where
  "renew e cs = (fst (SetWithRefreshExpire 151 151 (fst cs) (fst e) (snd e + 1) NoRefresh 50), snd cs @ [e])"

definition sweep_order :: "(nat \<rightharpoonup> nat Item) \<Rightarrow> nat list" where
  "sweep_order m = filter (\<lambda>k. m k \<noteq> None) [5, 6]"

lemma due_cache_eval:
  "items due_cache 5 = Some \<lparr>Object = 10, Refresh = 120, Expiration = 150\<rparr>"
  "items due_cache 6 = Some \<lparr>Object = 20, Refresh = 0, Expiration = 140\<rparr>"
  "lru_keys (lru due_cache) = [6, 5]"
  "items (fst (renew (5, 10) (due_cache, []))) 5 = Some \<lparr>Object = 11, Refresh = 0, Expiration = 201\<rparr>"
  "items (fst (renew (5, 10) (due_cache, []))) 6 = items due_cache 6"
  "lru_keys (lru (fst (renew (5, 10) (due_cache, [])))) = [5, 6]"
  by code_simp+

lemma due_cache_ranges:
  "sweep_order (items due_cache) = [5, 6]" "range_of sweep_order (items due_cache)"
  "sweep_order (items (fst (renew (5, 10) (due_cache, [])))) = [5, 6]"
  "range_of sweep_order (items (fst (renew (5, 10) (due_cache, []))))"
proof -
  have exact: "cache_exact (OnEvicted (NewLru 2 0 0) (Some Pair) :: (nat, nat, nat \<times> nat) cache)"
    by (simp add: cache_exact_def cache_inv_callbacks cache_inv_NewLru) (simp add: OnEvicted_def)
  have "cache_exact (OnRefresh c g)" if "cache_exact c" for c :: "(nat, nat, nat \<times> nat) cache" and g
    using that by (simp add: cache_exact_def cache_inv_callbacks) (simp add: OnRefresh_def)
  then have "cache_exact due_cache" "cache_exact (fst (renew (5, 10) (due_cache, [])))"
    using exact by (simp_all add: due_cache_def renew_def cache_exact_SetWithRefreshExpire)
  then have "dom (items due_cache) = {5, 6}" "dom (items (fst (renew (5, 10) (due_cache, [])))) = {5, 6}"
    using due_cache_eval(3,6) by (auto simp: cache_exact_def)
  then show "sweep_order (items due_cache) = [5, 6]" "range_of sweep_order (items due_cache)"
    "sweep_order (items (fst (renew (5, 10) (due_cache, [])))) = [5, 6]"
    "range_of sweep_order (items (fst (renew (5, 10) (due_cache, []))))"
    by (simp_all add: range_of_def sweep_order_def due_cache_eval)
qed

theorem sweep_evicts_exactly_the_expired_witness:
  "let ((c2, log), calls) = RefreshOrEvictExpired renew sweep_order sweep_order 151 (due_cache, [])
   in log = [(5, 10)] \<and> calls = [(6, 20)] \<and> cache_Get 151 c2 5 = Some 11 \<and> items c2 6 = None"
proof -
  obtain c2 log calls where r: "RefreshOrEvictExpired renew sweep_order sweep_order 151 (due_cache, []) = ((c2, log), calls)"
    by (metis prod.exhaust)
  have n: "UnixNano 151 = 151" by (simp add: UnixNano_def int64_id in_int64_def)
  let ?c1 = "fst (renew (5, 10) (due_cache, []))"
  have due: "(?c1, [(5, 10)]) = fold (\<lambda>k. renew (Pair k (Object (the (items due_cache k)))))
      (filter (\<lambda>k. 0 < Refresh (the (items due_cache k)) \<and> Refresh (the (items due_cache k)) < UnixNano 151)
        (sweep_order (items due_cache))) (due_cache, [])"
    by (simp add: due_cache_ranges due_cache_eval n) (simp add: renew_def)
  have callbacks: "onRefresh due_cache = Some Pair" "onEvicted ?c1 = Some Pair"
    by (simp_all add: due_cache_def renew_def cache_frame OnEvicted_def OnRefresh_def)
  show ?thesis
    using sweep_evicts_exactly_the_expired[OF callbacks(1) due_cache_ranges(2) due callbacks(2) due_cache_ranges(4) r]
    by (simp add: r due_cache_ranges due_cache_eval n cache_Get_def)
qed

section \<open>Where the code departs from its documentation\<close>

text \<open>
  \<open>TouchWithExpire\<close> with \<open>NoExpiration\<close>, documented as ``the item never expires'', sets the
  expiration one nanosecond into the past: from that very moment the key reads as absent.
\<close>
lemma touch_no_expiration_expires:
  assumes "items c k = Some i" and "1 < now" and "in_int64 now" and "now \<le> later" and "in_int64 later"
  shows "cache_Get later (fst (TouchWithExpire now c k NoExpiration)) k = None"
proof -
  have "in_int64 (now - 1)" using assms(2,3) by (simp add: in_int64_def)
  then show ?thesis
    using assms by (simp add: cache_Get_def TouchWithExpire_def NoExpiration_def DefaultExpiration_def
        Let_def UnixNano_def time_Add_def int64_id)
qed

lemma touch_no_expiration_expires_witness:
  "cache_Get 120 full_cache 6 = Some 20 \<and>
   cache_Get 120 (fst (TouchWithExpire 120 full_cache 6 NoExpiration)) 6 = None"
  using touch_no_expiration_expires[OF full_cache_eval(2), of 120 120]
  by (simp add: cache_ops full_cache_eval in_int64_def)

text \<open>
  One round of setting the key \<open>b\<close> and renaming it: the list holds at most \<open>b\<close>, so nothing is ever pushed out.
\<close>

lemma set_and_rename:
  assumes "lru_wf (lru c)" and "set (lru_keys (lru c)) \<subseteq> {b}" and "0 < MaxEntries (lru c)" and "k \<noteq> b"
    and c'_def: "c' = fst (Rename now (fst (SetWithRefreshExpire te tr c b v NoRefresh NoExpiration)) b k)"
  shows "items c' = (items c)(b := None, k \<mapsto> \<lparr>Object = v, Refresh = 0, Expiration = 0\<rparr>)"
    and "lru_wf (lru c')" and "set (lru_keys (lru c')) \<subseteq> {b}" and "MaxEntries (lru c') = MaxEntries (lru c)"
proof -
  have "distinct (lru_keys (lru c))" using assms(1) by (rule lq.distinct_keys)
  then have "lru_keys (lru c) = [] \<or> lru_keys (lru c) = [b]"
    using assms(2) by (cases "lru_keys (lru c)"; cases "tl (lru_keys (lru c))") auto
  then have add: "recency_add (MaxEntries (lru c)) b (lru_keys (lru c)) = ([b], None)"
    using assms(3) by (auto simp: recency_add_def)
  then have v: "victim c b = None" using lq.add_keysD(2)[OF assms(1), of b True] by (simp add: victim_def)
  have c': "c' = (fst (SetWithRefreshExpire te tr c b v NoRefresh NoExpiration))\<lparr>items :=
      (items c)(b := None, k \<mapsto> \<lparr>Object = v, Refresh = 0, Expiration = 0\<rparr>)\<rparr>"
    by (simp add: c'_def Rename_def SetWithRefreshExpire_items v drop_key_def new_item_def deadline_def NoRefresh_def
        NoExpiration_def DefaultExpiration_def)
  then show "items c' = (items c)(b := None, k \<mapsto> \<lparr>Object = v, Refresh = 0, Expiration = 0\<rparr>)" by simp
  show "lru_wf (lru c')" "set (lru_keys (lru c')) \<subseteq> {b}" "MaxEntries (lru c') = MaxEntries (lru c)"
    using assms(1) add lq.add_keysD(1)[OF assms(1), of b True]
    by (simp_all add: c' SetWithRefreshExpire_lru v lru_wf_Add capacity_lru_ops)
qed

lemma sets_and_renames:
  assumes "lru_wf (lru c)" and "set (lru_keys (lru c)) \<subseteq> {b}" and "0 < MaxEntries (lru c)" and "b \<notin> set ks" and "items c b = None"
    and c'_def: "c' = fold (\<lambda>k c. fst (Rename now (fst (SetWithRefreshExpire te tr c b v NoRefresh NoExpiration)) b k)) ks c"
  shows "items c' = (\<lambda>x. if x \<in> set ks then Some \<lparr>Object = v, Refresh = 0, Expiration = 0\<rparr> else items c x) \<and>
    MaxEntries (lru c') = MaxEntries (lru c)"
  unfolding c'_def using assms(1-5)
proof (induction ks arbitrary: c)
  case (Cons k ks)
  then have k: "k \<noteq> b" by auto
  note one = set_and_rename[OF Cons.prems(1-3) k refl, of now te tr v]
  show ?case using Cons.IH[OF one(2,3)] Cons.prems(3,4) one(1,4) k by (auto simp: Cons.prems(5))
qed simp

text \<open>
  C37. \<open>Rename\<close> loses the bound. It moves the item and leaves the LRU list as it was, so the new key is never evicted: take any positive
  capacity \<open>n\<close> and any list of distinct keys \<open>ks\<close>, however long; setting a key \<open>b\<close> outside the list and renaming it to a key
  of the list, for one key after the other, makes a cache that still has the capacity \<open>n\<close> and stores all keys of the list, each with its value.
\<close>
theorem rename_loses_the_bound:
  assumes "0 < n" and "distinct ks" and "b \<notin> set ks"
    and "c = fold (\<lambda>k c. fst (Rename now (fst (SetWithRefreshExpire te tr c b v NoRefresh NoExpiration)) b k)) ks (NewLru n de ci)"
  shows "MaxEntries (lru c) = n \<and> ItemCount c = length ks \<and> (\<forall>k t. cache_Get t c k = (if k \<in> set ks then Some v else None))"
proof -
  have new: "lru_wf (lru (NewLru n de ci))" using cache_inv_NewLru[of n de ci] assms(1) by (simp add: cache_inv_def)
  have its: "items c = (\<lambda>x. if x \<in> set ks then Some \<lparr>Object = v, Refresh = 0, Expiration = 0\<rparr> else None)"
    and cap: "MaxEntries (lru c) = n"
    using sets_and_renames[OF new _ _ assms(3) _ assms(4)] assms(1) by (simp_all cong: if_cong)
  have "dom (items c) = set ks" unfolding its by (auto split: if_splits)
  then have "ItemCount c = length ks" using distinct_card[OF assms(2)] by (simp add: ItemCount_def)
  then show ?thesis using cap by (simp add: its cache_Get_def)
qed

theorem rename_loses_the_bound_witness:
  "let c = fold (\<lambda>k c. fst (Rename 0 (fst (SetWithRefreshExpire 0 0 c 5 10 NoRefresh NoExpiration)) 5 k)) [6, 7]
     (NewLru 1 0 0 :: (nat, nat, unit) cache)
   in MaxEntries (lru c) = 1 \<and> ItemCount c = 2 \<and> cache_Get 0 c 6 = Some 10 \<and> cache_Get 0 c 7 = Some 10"
proof -
  define c :: "(nat, nat, unit) cache" where
    "c = fold (\<lambda>k c. fst (Rename 0 (fst (SetWithRefreshExpire 0 0 c 5 10 NoRefresh NoExpiration)) 5 k)) [6, 7] (NewLru 1 0 0)"
  from rename_loses_the_bound[OF _ _ _ c_def] show ?thesis unfolding Let_def c_def[symmetric] by simp
qed

text \<open>
  When adding a new key pushes the least recent key \<open>x\<close> out, \<open>AddWithRefreshExpire\<close> calls the
  eviction callback with the key just added and the value of \<open>x\<close>, where \<open>SetWithRefreshExpire\<close> calls
  it with \<open>x\<close> and its value.
\<close>
lemma add_reports_the_wrong_key:
  assumes "cache_inv c" and "onEvicted c = Some g" and "cache_Get tg c k = None"
    and "k \<notin> set (lru_keys (lru c))" and "0 < MaxEntries (lru c)"
    and "MaxEntries (lru c) = int (length (lru_keys (lru c)))"
    and "x = last (lru_keys (lru c))" and "items c x = Some i"
  shows "x \<noteq> k \<and> fst (snd (AddWithRefreshExpire tg te tr c k v r e)) = [g k (Object i)] \<and>
    snd (SetWithRefreshExpire te tr c k v r e) = [g x (Object i)]"
proof -
  have vic: "victim c k = Some x" using assms victim_iff[OF assms(1), of k x] by simp
  moreover have "x \<noteq> k" using vic victim_neq[OF assms(1), of k] by auto
  moreover have "onEvicted (fst (cache_set te tr c k v r e)) = Some g"
    using assms(2) by (simp add: cache_set_state[OF assms(1)] cache_frame)
  ultimately show ?thesis
    using assms(2,3,8)
    by (simp add: AddWithRefreshExpire_def case_prod_beta cache_set_value[OF assms(1)]
        SetWithRefreshExpire_calls call_evicted_def cache_Get_get)
qed

lemma add_reports_the_wrong_key_witness:
  "fst (snd (AddWithRefreshExpire 120 120 120 full_cache 7 30 NoRefresh 10)) = [(7, 10)] \<and>
   snd (SetWithRefreshExpire 120 120 full_cache 7 30 NoRefresh 10) = [(5, 10)]"
proof -
  have "cache_Get 120 full_cache 7 = None" by (simp add: cache_ops full_cache_eval)
  moreover have "7 \<notin> set (lru_keys (lru full_cache))" "0 < MaxEntries (lru full_cache)"
    "MaxEntries (lru full_cache) = int (length (lru_keys (lru full_cache)))"
    "5 = last (lru_keys (lru full_cache))"
    by (simp_all add: full_cache_eval)
  ultimately have "(5::nat) \<noteq> 7 \<and>
      fst (snd (AddWithRefreshExpire 120 120 120 full_cache 7 30 NoRefresh 10)) =
        [Pair 7 (Object \<lparr>Object = 10, Refresh = 0, Expiration = 150\<rparr>)] \<and>
      snd (SetWithRefreshExpire 120 120 full_cache 7 30 NoRefresh 10) =
        [Pair 5 (Object \<lparr>Object = 10, Refresh = 0, Expiration = 150\<rparr>)]"
    by (rule add_reports_the_wrong_key[OF cache_inv_full_cache full_cache_callbacks(1) _ _ _ _ _
          full_cache_eval(1)])
  then show ?thesis by simp
qed

text \<open>
  A negative \<open>MaxEntries\<close> (a value the flag \<open>--max-cache-size\<close> accepts) is no limit and disables
  the LRU eviction: after setting any list of keys every one of them is stored.
\<close>
lemma negative_capacity_is_unbounded:
  assumes "n < 0"
  shows "dom (items (fold (\<lambda>k c. fst (SetWithRefreshExpire te tr c k v r e)) ks (NewLru n de ci))) = set ks"
  using assms by (subst negative_capacity_sets) (simp_all add: lru_wf_newLRU)

lemma negative_capacity_is_unbounded_witness:
  "dom (items (fold (\<lambda>k c. fst (SetWithRefreshExpire 0 0 c k 1 NoRefresh NoExpiration))
     [5, 6, 7] (NewLru (-1) 0 0 :: (nat, nat, unit) cache))) = {5, 6, 7}"
  by (subst negative_capacity_is_unbounded) auto

end
