(* ===== verification/Agent_Errors.thy ===== *)
theory Agent_Errors
  imports Prelude
begin

text \<open>
  Go errors as a datatype, with the chain \<open>errors.As\<close> and \<open>errors.Is\<close> walk, and the two classifiers
  of the agent: \<open>src/pkg/errors/errors.go\<close> (the HTTP answer to an error) and
  \<open>src/internal/cloud/eksauth/errors.go\<close> (which API errors cannot be retried).

  A message is a sequence of pieces. The verbs whose rendering is a matter of the \<open>fmt\<close> package
  alone stay symbolic: \<open>Quo s\<close> is \<open>s\<close> printed with \<open>%q\<close>, \<open>Sec d\<close> the seconds of the duration \<open>d\<close>
  printed with \<open>%0.2f\<close>, \<open>Strs ss\<close> a slice of strings printed with \<open>%s\<close>, \<open>Num n\<close> an integer printed with
  \<open>%d\<close>, \<open>Hex n\<close> one printed with \<open>%02x\<close>, \<open>Val ns\<close> a network printed with \<open>%v\<close> or \<open>%s\<close>, by the numbers it consists of.

  Errors of the AWS SDK are the values the code can observe of them: what the methods it calls
  return, and the wrapped error.
\<close>

section \<open>Messages and errors\<close>

datatype piece = Txt string | Num int | Quo string | Sec duration | Strs "string list" | Val "int list" | Hex int

type_synonym msg = "piece list"

datatype api_kind =
  ResourceNotFoundException | ExpiredTokenException | InvalidTokenException | AccessDeniedException
| OtherAPIError string

record api_error =
  api_kind :: api_kind
  ErrorCode :: string
  ErrorMessage :: string
  ErrorFault :: string

text \<open>
  \<open>Wrapped pre e post\<close> is \<open>fmt.Errorf\<close> with \<open>%w\<close>; \<open>OperationError\<close> carries its service, operation
  and text, \<open>ResponseError\<close> the status code (0 without a response), the request id and its text.
\<close>

datatype goerr =
  Plain msg
| Wrapped msg goerr msg
| RequestValidationError int msg
| AccessDeniedError int msg
| ErrUnsupportedK8sVersion
| DeadlineExceeded
| OperationError string string msg goerr
| ResponseError int string msg goerr
| APIError api_error msg

primrec Error :: "goerr \<Rightarrow> msg" where
  "Error (Plain m) = m"
| "Error (Wrapped pre e post) = pre @ Error e @ post"
| "Error (RequestValidationError code m) = m"
| "Error (AccessDeniedError code m) = Txt ''Access Denied. '' # m"
| "Error ErrUnsupportedK8sVersion = [Txt ''kubernetes version does not support fetching public keys'']"
| "Error DeadlineExceeded = [Txt ''context deadline exceeded'']"
| "Error (OperationError service operation m e) = m"
| "Error (ResponseError code rid m e) = m"
| "Error (APIError ae m) = m"

text \<open>The error and everything it wraps, outermost first.\<close>

primrec err_chain :: "goerr \<Rightarrow> goerr list" where
  "err_chain (Plain m) = [Plain m]"
| "err_chain (Wrapped pre e post) = Wrapped pre e post # err_chain e"
| "err_chain (RequestValidationError code m) = [RequestValidationError code m]"
| "err_chain (AccessDeniedError code m) = [AccessDeniedError code m]"
| "err_chain ErrUnsupportedK8sVersion = [ErrUnsupportedK8sVersion]"
| "err_chain DeadlineExceeded = [DeadlineExceeded]"
| "err_chain (OperationError service operation m e) = OperationError service operation m e # err_chain e"
| "err_chain (ResponseError code rid m e) = ResponseError code rid m e # err_chain e"
| "err_chain (APIError ae m) = [APIError ae m]"

text \<open>\<open>errors.As\<close>: the first error of the chain the projection accepts.\<close>

definition errors_As :: "(goerr \<Rightarrow> 'a option) \<Rightarrow> goerr \<Rightarrow> 'a option" where
  "errors_As p e = (case List.map_filter p (err_chain e) of [] \<Rightarrow> None | x # _ \<Rightarrow> Some x)"

definition errors_Is :: "goerr \<Rightarrow> goerr \<Rightarrow> bool" where
  "errors_Is e target \<longleftrightarrow> target \<in> set (err_chain e)"

lemma errors_As_Wrapped: "p (Wrapped pre e post) = None \<Longrightarrow> errors_As p (Wrapped pre e post) = errors_As p e"
  by (simp add: errors_As_def List.map_filter_simps)

lemma errors_As_leaf:
  "errors_As p (Plain m) = p (Plain m)"
  "errors_As p (RequestValidationError c m) = p (RequestValidationError c m)"
  "errors_As p (AccessDeniedError c m) = p (AccessDeniedError c m)"
  "errors_As p (APIError ae m) = p (APIError ae m)"
  by (simp_all add: errors_As_def List.map_filter_simps split: option.split)

lemma errors_Is_Wrapped:
  "(\<And>a b. t \<noteq> Wrapped a e b) \<Longrightarrow> errors_Is (Wrapped pre e post) t \<longleftrightarrow> errors_Is e t"
  by (auto simp: errors_Is_def)

section \<open>The agent's own errors\<close>

definition StatusBadRequest :: int where "StatusBadRequest = 400"
definition StatusForbidden :: int where "StatusForbidden = 403"
definition StatusNotFound :: int where "StatusNotFound = 404"
definition StatusRequestTimeout :: int where "StatusRequestTimeout = 408"
definition StatusTooManyRequests :: int where "StatusTooManyRequests = 429"
definition StatusInternalServerError :: int where "StatusInternalServerError = 500"
definition StatusOK :: int where "StatusOK = 200"

lemmas http_status =
  StatusBadRequest_def StatusForbidden_def StatusNotFound_def StatusRequestTimeout_def
  StatusTooManyRequests_def StatusInternalServerError_def StatusOK_def

definition NewRequestValidationError :: "msg \<Rightarrow> goerr" where
  "NewRequestValidationError m = RequestValidationError StatusBadRequest m"

definition NewAccessDeniedError :: "msg \<Rightarrow> goerr" where
  "NewAccessDeniedError m = AccessDeniedError StatusForbidden m"

text \<open>The errors that implement \<open>HttpCodeProvidingError\<close>, with their \<open>HttpStatus()\<close>.\<close>

fun HttpStatus :: "goerr \<Rightarrow> int option" where
  "HttpStatus (RequestValidationError code m) = Some code"
| "HttpStatus (AccessDeniedError code m) = Some code"
| "HttpStatus _ = None"

fun as_ResponseError :: "goerr \<Rightarrow> (int \<times> string) option" where
  "as_ResponseError (ResponseError code rid m e) = Some (code, rid)"
| "as_ResponseError _ = None"

fun as_APIError :: "goerr \<Rightarrow> api_error option" where
  "as_APIError (APIError ae m) = Some ae"
| "as_APIError _ = None"

text \<open>\<open>strings.Join\<close> on messages.\<close>

fun join :: "msg \<Rightarrow> msg list \<Rightarrow> msg" where
  "join sep [] = []"
| "join sep [m] = m"
| "join sep (m # ms) = m @ sep @ join sep ms"

text \<open>
  \<open>HandleCredentialFetchingError\<close>: the body and the status of the answer. (The operation error only
  adds fields to the log line.)
\<close>

definition HandleCredentialFetchingError :: "goerr \<Rightarrow> msg \<times> int" where
  "HandleCredentialFetchingError err =
     (case errors_As HttpStatus err of
        Some status \<Rightarrow> (Error err, status)
      | None \<Rightarrow>
          (let (errMsg1, httpCode) =
                 (case errors_As as_ResponseError err of
                    None \<Rightarrow> ([], StatusInternalServerError)
                  | Some (code, rid) \<Rightarrow>
                      ([[Txt ''['', Txt rid, Txt '']'']],
                       if code \<noteq> 0 then code else StatusInternalServerError));
               errMsg =
                 (case errors_As as_APIError err of
                    None \<Rightarrow> errMsg1
                  | Some ae \<Rightarrow>
                      errMsg1 @ [[Txt ''('', Txt (ErrorCode ae), Txt ''): '', Txt (ErrorMessage ae),
                                  Txt '', fault: '', Txt (ErrorFault ae)]])
           in if errMsg = [] then (Error err, httpCode)
              else (join [Txt '': ''] errMsg, httpCode)))"

section \<open>Irrecoverable API errors\<close>

definition errCodeUnknown :: string where
  "errCodeUnknown = ''Unknown''"

definition IsIrrecoverableApiError :: "goerr \<Rightarrow> string \<times> bool" where
  "IsIrrecoverableApiError err =
     (case errors_As as_APIError err of
        Some ae \<Rightarrow>
          (ErrorCode ae,
           case api_kind ae of
             ResourceNotFoundException \<Rightarrow> True
           | ExpiredTokenException \<Rightarrow> True
           | InvalidTokenException \<Rightarrow> True
           | AccessDeniedException \<Rightarrow> True
           | OtherAPIError _ \<Rightarrow> False)
      | None \<Rightarrow> (errCodeUnknown, False))"

lemma IsIrrecoverableApiError_Wrapped [simp]:
  "IsIrrecoverableApiError (Wrapped pre e post) = IsIrrecoverableApiError e"
  by (simp add: IsIrrecoverableApiError_def errors_As_Wrapped)

lemma IsIrrecoverableApiError_Plain [simp]: "IsIrrecoverableApiError (Plain m) = (errCodeUnknown, False)"
  by (simp add: IsIrrecoverableApiError_def errors_As_leaf)

end
