(* ===== verification/Credentials.thy ===== *)
theory Credentials
  imports Agent_Errors
begin

text \<open>
  The data every component exchanges: requests and responses (\<open>src/pkg/credentials/model.go\<close>), the
  fixed addresses (\<open>src/configuration/config.go\<close>), JSON values as Go decodes them, and the JWT
  library, which is not part of the repository: its entry points are the fields of \<open>jwt_lib\<close>, an
  argument of every definition that uses them.
\<close>

section \<open>Requests and responses\<close>

record EksCredentialsRequest =
  ServiceAccountToken :: string
  ClusterName :: string
  RequestTargetHost :: string

record EksCredentialsResponse =
  AccessKeyId :: string
  SecretAccessKey :: string
  Token :: string
  AccountId :: string
  CredsExpiration :: time

section \<open>Configuration\<close>

definition DefaultIpv6TargetHost :: string where
  "DefaultIpv6TargetHost = ''fd00:ec2::23''"

definition DefaultIpv4TargetHost :: string where
  "DefaultIpv4TargetHost = ''169.254.170.23''"

definition AgentLinkName :: string where
  "AgentLinkName = ''pod-id-link0''"

definition RequestRate :: int where
  "RequestRate = 1000"

section \<open>JSON values\<close>

text \<open>
  The dynamic values \<open>encoding/json\<close> produces in an \<open>interface{}\<close>; an object is the list of its
  members, later duplicates having replaced earlier ones. A number keeps its literal.
\<close>

datatype json =
  JNull | JBool bool | JNumber string | JString string | JArray "json list"
| JObject "(string \<times> json) list"

type_synonym jobject = "(string \<times> json) list"

text \<open>The type assertions \<open>m[k].(string)\<close> and \<open>m[k].(map[string]interface{})\<close>: \<open>None\<close> is \<open>!ok\<close>.\<close>

definition get_string :: "jobject \<Rightarrow> string \<Rightarrow> string option" where
  "get_string m k = (case map_of m k of Some (JString s) \<Rightarrow> Some s | _ \<Rightarrow> None)"

definition get_object :: "jobject \<Rightarrow> string \<Rightarrow> jobject option" where
  "get_object m k = (case map_of m k of Some (JObject o') \<Rightarrow> Some o' | _ \<Rightarrow> None)"

text \<open>\<open>s, _ := m[k].(string)\<close>: the empty string where the assertion fails.\<close>

definition get_string_or_empty :: "jobject \<Rightarrow> string \<Rightarrow> string" where
  "get_string_or_empty m k = (case get_string m k of None \<Rightarrow> [] | Some s \<Rightarrow> s)"

section \<open>The JWT library\<close>

datatype jwt_claims = MapClaims jobject | OtherClaims

record jwt_token =
  jwt_Header :: jobject
  jwt_Claims :: jwt_claims

text \<open>
  \<open>ParseUnverified\<close> with \<open>jwt.MapClaims\<close>; \<open>ParseRegistered\<close> is the same call with
  \<open>*jwt.RegisteredClaims\<close> followed by \<open>Claims\<close>, and \<open>ValidateRegistered\<close> is \<open>Validator.Validate\<close> at a
  time; \<open>jwt_Parse\<close> is \<open>jwt.Parse\<close> with a key function, which may panic.
\<close>

record ('reg, 'key) jwt_lib =
  ParseUnverified :: "string \<Rightarrow> goerr + jwt_token"
  ParseRegistered :: "string \<Rightarrow> goerr + 'reg"
  ValidateRegistered :: "time \<Rightarrow> 'reg \<Rightarrow> goerr option"
  jwt_Parse :: "string \<Rightarrow> (jwt_token \<Rightarrow> goerr + 'key) \<Rightarrow> goerr option go"

section \<open>The pod a token names\<close>

text \<open>\<open>getPodUIDfromServiceAccountToken\<close> of \<open>src/internal/credsretriever/refreshing_cache.go\<close>.\<close>

definition getPodUIDfromServiceAccountToken :: "('reg, 'key) jwt_lib \<Rightarrow> string \<Rightarrow> goerr + string" where
  "getPodUIDfromServiceAccountToken lib token =
     (case ParseUnverified lib token of
        Inl err \<Rightarrow>
          Inl (NewRequestValidationError (Txt ''Service account token cannot be parsed: '' # Error err))
      | Inr parsedToken \<Rightarrow>
          (case jwt_Claims parsedToken of
             OtherClaims \<Rightarrow>
               Inl (NewRequestValidationError [Txt ''Service account token claims cannot be parsed''])
           | MapClaims claims \<Rightarrow>
               (case get_object claims ''kubernetes.io'' of
                  None \<Rightarrow>
                    Inl (NewRequestValidationError
                      [Txt ''Service account token missing kubernetes.io claims''])
                | Some k8sInfo \<Rightarrow>
                    (case get_object k8sInfo ''pod'' of
                       None \<Rightarrow>
                         Inl (NewRequestValidationError [Txt ''Service account token missing pod claims''])
                     | Some podInfo \<Rightarrow>
                         (case get_string podInfo ''uid'' of
                            None \<Rightarrow>
                              Inl (NewRequestValidationError
                                [Txt ''Service account token missing pod uid''])
                          | Some podUID \<Rightarrow> Inr podUID)))))"

lemma getPodUID_error_status:
  "getPodUIDfromServiceAccountToken lib token = Inl e \<Longrightarrow> \<exists>m. e = RequestValidationError 400 m"
  by (auto simp: getPodUIDfromServiceAccountToken_def NewRequestValidationError_def StatusBadRequest_def
      split: sum.splits jwt_claims.splits option.splits)

end
