(* ===== verification/Effects.thy ===== *)
theory Effects
  imports Prelude "HOL-Library.State_Monad" "HOL-Library.Sublist"
begin

text \<open>
  Goroutines as programs of the state monad. A goroutine runs on a world: the memory it shares with
  the others, a counter of the points where it meets the rest of the system, and the trace of what
  it did to the outside. Everything the goroutine does not decide itself (a clock reading, the answer of a
  service, what the other goroutines do meanwhile) is a function of that counter, so one argument
  of such functions fixes the whole environment, and every interleaving is one choice of it.

  The shared memory is only reached through \<open>atomically\<close>, one critical section of a mutex or one
  operation of \<open>sync/atomic\<close>; before each of them the other goroutines take any number of steps.
\<close>

section \<open>Worlds\<close>

record ('s, 'e) world =
  shared :: 's
  ticks :: nat
  trace :: "'e list"

type_synonym ('s, 'e, 'a) prog = "(('s, 'e) world, 'a) state"

abbreviation ret :: "'a \<Rightarrow> ('s, 'e, 'a) prog" where
  "ret \<equiv> State_Monad.return"

text \<open>A value the environment supplies.\<close>

definition ask :: "(nat \<Rightarrow> 'a) \<Rightarrow> ('s, 'e, 'a) prog" where
  "ask f = State (\<lambda>w. (f (ticks w), w\<lparr>ticks := Suc (ticks w)\<rparr>))"

definition emit :: "'e \<Rightarrow> ('s, 'e, unit) prog" where
  "emit ev = State (\<lambda>w. ((), w\<lparr>trace := trace w @ [ev]\<rparr>))"

definition atomically :: "(nat \<Rightarrow> 's \<Rightarrow> 's) \<Rightarrow> ('s \<Rightarrow> 'a \<times> 's) \<Rightarrow> ('s, 'e, 'a) prog" where
  "atomically others f =
     State (\<lambda>w. let (x, s) = f (others (ticks w) (shared w))
                in (x, w\<lparr>shared := s, ticks := Suc (ticks w)\<rparr>))"

lemma run_ask [simp]: "run_state (ask f) w = (f (ticks w), w\<lparr>ticks := Suc (ticks w)\<rparr>)"
  by (simp add: ask_def)

lemma run_emit [simp]: "run_state (emit ev) w = ((), w\<lparr>trace := trace w @ [ev]\<rparr>)"
  by (simp add: emit_def)

lemma run_atomically [simp]:
  "run_state (atomically others f) w =
     (fst (f (others (ticks w) (shared w))),
      w\<lparr>shared := snd (f (others (ticks w) (shared w))), ticks := Suc (ticks w)\<rparr>)"
  by (simp add: atomically_def case_prod_beta Let_def)

section \<open>What a program does to the shared memory\<close>

text \<open>
  \<open>moves step\<close>: the memory went through steps of the relation only, time passed, the trace grew.
\<close>

definition moves :: "('s \<Rightarrow> 's \<Rightarrow> bool) \<Rightarrow> ('s, 'e) world \<Rightarrow> ('s, 'e) world \<Rightarrow> bool" where
  "moves step w w' \<longleftrightarrow>
     step\<^sup>*\<^sup>* (shared w) (shared w') \<and> ticks w \<le> ticks w' \<and> prefix (trace w) (trace w')"

lemma moves_refl: "moves step w w"
  by (simp add: moves_def)

lemma moves_trans: "moves step u v \<Longrightarrow> moves step v w \<Longrightarrow> moves step u w"
  unfolding moves_def by (meson rtranclp_trans le_trans prefix_order.trans)

section \<open>Rely and guarantee\<close>

text \<open>
  \<open>ensures step I n m Q\<close>: started at tick \<open>n\<close> or later with \<open>I\<close> true of the memory, \<open>m\<close> changes the memory
  by steps of the protocol only and its result satisfies \<open>Q\<close>. The rules hold for a protocol that
  keeps \<open>I\<close>, which is what the locale of invariants states; each of them relies on the other goroutines
  to follow the protocol too.
\<close>

definition ensures ::
  "('s \<Rightarrow> 's \<Rightarrow> bool) \<Rightarrow> ('s \<Rightarrow> bool) \<Rightarrow> nat \<Rightarrow> ('s, 'e, 'a) prog \<Rightarrow> ('a \<Rightarrow> bool) \<Rightarrow> bool" where
  "ensures step I n m Q \<longleftrightarrow>
     (\<forall>w. I (shared w) \<longrightarrow> n \<le> ticks w \<longrightarrow>
        moves step w (snd (run_state m w)) \<and> Q (fst (run_state m w)))"

lemma ensuresD:
  assumes "ensures step I n m Q" and "run_state m w = (x, w')" and "I (shared w)" and "n \<le> ticks w"
  shows "moves step w w'" and "step\<^sup>*\<^sup>* (shared w) (shared w')" and "Q x"
  using assms by (force simp: ensures_def moves_def)+

lemma ensures_ret: "Q x \<Longrightarrow> ensures step I n (ret x) Q"
  by (simp add: ensures_def moves_refl)

lemma ensures_ask: "(\<And>k. n \<le> k \<Longrightarrow> Q (f k)) \<Longrightarrow> ensures step I n (ask f) Q"
  by (simp add: ensures_def moves_def)

lemma ensures_emit: "Q () \<Longrightarrow> ensures step I n (emit ev) Q"
  by (simp add: ensures_def moves_def)

lemma ensures_atomically:
  assumes "\<And>k s. step\<^sup>*\<^sup>* s (others k s)"
    and "\<And>k s. I s \<Longrightarrow> I (others k s)"
    and "\<And>s. I s \<Longrightarrow> step\<^sup>*\<^sup>* s (snd (f s)) \<and> Q (fst (f s))"
  shows "ensures step I n (atomically others f) Q"
  using assms rtranclp_trans[of step] by (simp add: ensures_def moves_def) blast

context step_invariant
begin

lemma ensures_bind:
  fixes m :: "('s, 'e, 'a) prog"
  assumes m: "ensures step inv n m R" and f: "\<And>x. R x \<Longrightarrow> ensures step inv n (f x) Q"
  shows "ensures step inv n (State_Monad.bind m f) Q"
  unfolding ensures_def
proof (intro allI impI)
  fix w :: "('s, 'e) world"
  assume I: "inv (shared w)" and n: "n \<le> ticks w"
  obtain x w1 where run: "run_state m w = (x, w1)" by fastforce
  note m' = ensuresD[OF m run I n]
  have "inv (shared w1)" using m'(2) I by (rule inv_steps)
  moreover have "n \<le> ticks w1" using m'(1) n by (simp add: moves_def)
  ultimately have "moves step w1 (snd (run_state (f x) w1)) \<and> Q (fst (run_state (f x) w1))"
    using f[OF m'(3)] by (simp add: ensures_def)
  then show "moves step w (snd (run_state (State_Monad.bind m f) w)) \<and>
      Q (fst (run_state (State_Monad.bind m f) w))"
    using m'(1) by (auto simp: run intro: moves_trans)
qed

lemma ensures_locked:
  assumes "\<And>k s. step\<^sup>*\<^sup>* s (others k s)" and "\<And>s. inv s \<Longrightarrow> step\<^sup>*\<^sup>* s (snd (f s)) \<and> Q (fst (f s))"
  shows "ensures step inv n (atomically others f) Q"
  by (rule ensures_atomically[OF assms(1) _ assms(2)]) (auto intro: inv_steps[OF assms(1)])

end

section \<open>Cost\<close>

text \<open>
  With a weight on events, \<open>costs f m b\<close> says that a run of \<open>m\<close> adds events of total weight at most \<open>b\<close>,
  whatever the environment does.
\<close>

definition cost :: "('e \<Rightarrow> int) \<Rightarrow> ('s, 'e) world \<Rightarrow> int" where
  "cost f w = sum_list (map f (trace w))"

definition costs :: "('e \<Rightarrow> int) \<Rightarrow> ('s, 'e, 'a) prog \<Rightarrow> int \<Rightarrow> bool" where
  "costs f m b \<longleftrightarrow> (\<forall>w. cost f (snd (run_state m w)) \<le> cost f w + b)"

lemma costs_ret: "0 \<le> b \<Longrightarrow> costs f (ret x) b"
  and costs_ask: "0 \<le> b \<Longrightarrow> costs f (ask g) b"
  and costs_atomically: "0 \<le> b \<Longrightarrow> costs f (atomically others h) b"
  and costs_emit: "f ev \<le> b \<Longrightarrow> costs f (emit ev) b"
  by (simp_all add: costs_def cost_def)

lemma costs_bind:
  assumes "costs f m a" and "\<And>x. costs f (g x) b" and "a + b \<le> c"
  shows "costs f (State_Monad.bind m g) c"
  unfolding costs_def
proof
  fix w
  obtain x v where run: "run_state m w = (x, v)" by fastforce
  have "cost f v \<le> cost f w + a" using assms(1) run unfolding costs_def by (metis snd_conv)
  moreover have "cost f (snd (run_state (g x) v)) \<le> cost f v + b" using assms(2) by (simp add: costs_def)
  ultimately show "cost f (snd (run_state (State_Monad.bind m g) w)) \<le> cost f w + c"
    using assms(3) by (simp add: run)
qed

end
