(* ===== verification/Retriever.thy ===== *)
theory Retriever
  imports Cache_Laws Credentials Effects
begin

text \<open>
  The caching credential retriever, \<open>src/internal/credsretriever/refreshing_cache.go\<close>, as programs over
  the memory its goroutines share. The environment \<open>env\<close> holds what is not in that file: the JWT
  library, the clock, the other goroutines, the delegate (an interface: EKS Auth, or whatever a
  caller chains), the token validator (an interface), the rate limiter and the random numbers; the
  answers that may differ from call to call are indexed by the counter of the world.

  A delegate that reports no error returns credentials and metadata, as its interface promises; the
  metadata is the association id. The delegate may also panic, as the one that calls EKS Auth does on an
  incomplete answer: the result \<open>Panic\<close> then unwinds the callers, which run their deferred calls. A log line
  is not modelled; a Prometheus counter's increment is an event of the trace.
\<close>

section \<open>State\<close>

record cacheEntry =
  requestLogCtx :: string
  originatingRequest :: EksCredentialsRequest
  entry_credentials :: EksCredentialsResponse

text \<open>The callbacks the retriever registers with its cache.\<close>

datatype callback = Renewal string cacheEntry | Eviction string cacheEntry

record 'tv cachedCredentialRetriever =
  internalCache :: "(string, cacheEntry, callback) cache"
  internalActiveRequestCache :: "(string, goerr option, callback) cache"
  tokenValidator :: "'tv option"
  tvInitInFlight :: bool
  credentialsRenewalTtl :: duration
  minCredentialTtl :: duration
  retryInterval :: duration
  maxRetryJitter :: duration
  refreshQPS :: int

datatype event =
  CallDelegate EksCredentialsRequest
| CallValidator EksCredentialsRequest
| Slept duration
| StartTokenValidatorInit
| Inc string "string list"

type_synonym ('tv, 'a) rprog = "('tv cachedCredentialRetriever, event, 'a) prog"

record ('reg, 'key, 'tv) renv =
  jwt :: "('reg, 'key) jwt_lib"
  clock :: "nat \<Rightarrow> time"
  others :: "nat \<Rightarrow> 'tv cachedCredentialRetriever \<Rightarrow> 'tv cachedCredentialRetriever"
  delegate :: "nat \<Rightarrow> EksCredentialsRequest \<Rightarrow> (goerr + EksCredentialsResponse \<times> string) go"
  validator :: "nat \<Rightarrow> 'tv \<Rightarrow> EksCredentialsRequest \<Rightarrow> goerr option"
  limiter_Allow :: "nat \<Rightarrow> bool"
  limiter_Wait :: "nat \<Rightarrow> goerr option"
  rnd :: "nat \<Rightarrow> int"

definition defaultActiveRequestRetries :: nat where
  "defaultActiveRequestRetries = 9"

definition defaultActiveRequestWaitTime :: duration where
  "defaultActiveRequestWaitTime = 200 * Millisecond"

definition defaultCleanupInterval :: duration where
  "defaultCleanupInterval = 1 * Minute"

definition defaultMinCredentialTtl :: duration where
  "defaultMinCredentialTtl = 15 * Second"

definition defaultRetryInterval :: duration where
  "defaultRetryInterval = 1 * Minute"

definition defaultMaxRetryJitter :: duration where
  "defaultMaxRetryJitter = 1 * Minute"

text \<open>The deadline of a renewal's context, within which the wait for the rate limiter and the delegate answer or fail.\<close>

definition renewalTimeout :: duration where
  "renewalTimeout = 1 * Minute"

section \<open>Construction\<close>

record ('d, 'tv) CachedCredentialRetrieverOpts =
  Delegate :: "'d option"
  TokenValidator :: "'tv option"
  CredentialsRenewalTtl :: duration
  MaxCacheSize :: int
  RefreshQPS :: int
  CleanupInterval :: duration

definition newCachedCredentialRetriever ::
  "('d, 'tv) CachedCredentialRetrieverOpts \<Rightarrow> 'tv cachedCredentialRetriever" where
  "newCachedCredentialRetriever opts =
     \<lparr>internalCache =
        OnEvicted
          (OnRefresh (NewLru (MaxCacheSize opts) (CredentialsRenewalTtl opts) (CleanupInterval opts))
             (Some Renewal))
          (Some Eviction),
      internalActiveRequestCache = NewLru (MaxCacheSize opts) 0 0,
      tokenValidator = TokenValidator opts,
      tvInitInFlight = False,
      credentialsRenewalTtl = CredentialsRenewalTtl opts,
      minCredentialTtl = defaultMinCredentialTtl,
      retryInterval = defaultRetryInterval,
      maxRetryJitter = defaultMaxRetryJitter,
      refreshQPS = RefreshQPS opts\<rparr>"

text \<open>
  \<open>int(d.Seconds())\<close>. The conversion goes through a \<open>float64\<close>, which is exact for whole numbers of
  seconds and, for others, below $2^{23}$ seconds.
\<close>

definition int_Seconds :: "duration \<Rightarrow> int" where
  "int_Seconds d = go_quot d Second"

definition NewCachedCredentialRetriever ::
  "('d, 'tv) CachedCredentialRetrieverOpts \<Rightarrow> 'tv cachedCredentialRetriever go" where
  "NewCachedCredentialRetriever opts =
     (if Delegate opts = None then Panic
      else
        let opts1 = (if CleanupInterval opts \<le> 0
                     then opts\<lparr>CleanupInterval := defaultCleanupInterval\<rparr> else opts);
            opts2 = (if RefreshQPS opts1 \<le> 0 then opts1\<lparr>RefreshQPS := 3\<rparr> else opts1)
        in if int64 (RefreshQPS opts2 * int_Seconds (CredentialsRenewalTtl opts2))
                < go_quot (MaxCacheSize opts2) 2
           then Panic
           else Ret (newCachedCredentialRetriever opts2))"

section \<open>Calls to the outside and to the caches\<close>

definition time_Now :: "('reg, 'key, 'tv) renv \<Rightarrow> ('tv, time) rprog" where
  "time_Now env = ask (clock env)"

definition read_shared ::
  "('reg, 'key, 'tv) renv \<Rightarrow> ('tv cachedCredentialRetriever \<Rightarrow> 'a) \<Rightarrow> ('tv, 'a) rprog" where
  "read_shared env f = atomically (others env) (\<lambda>s. (f s, s))"

text \<open>\<open>onCredentialEviction\<close>, and the callbacks a cache method makes after unlocking.\<close>

definition onCredentialEviction :: "string \<Rightarrow> cacheEntry \<Rightarrow> ('tv, unit) rprog" where
  "onCredentialEviction key entry = emit (Inc ''pod_identity_cache_state'' [''evicted''])"

primrec call_back :: "callback list \<Rightarrow> ('tv, unit) rprog" where
  "call_back [] = ret ()"
| "call_back (cb # cbs) =
     do { (case cb of Eviction key entry \<Rightarrow> onCredentialEviction key entry | Renewal _ _ \<Rightarrow> ret ());
          call_back cbs }"

definition internalCache_Get ::
  "('reg, 'key, 'tv) renv \<Rightarrow> string \<Rightarrow> ('tv, cacheEntry option) rprog" where
  "internalCache_Get env k =
     do { t \<leftarrow> time_Now env; read_shared env (\<lambda>s. cache_Get t (internalCache s) k) }"

definition internalCache_Delete :: "('reg, 'key, 'tv) renv \<Rightarrow> string \<Rightarrow> ('tv, unit) rprog" where
  "internalCache_Delete env k =
     do { cbs \<leftarrow> atomically (others env)
            (\<lambda>s. let (c, cbs) = Delete (internalCache s) k in (cbs, s\<lparr>internalCache := c\<rparr>));
          call_back cbs }"

definition internalCache_Set ::
  "('reg, 'key, 'tv) renv \<Rightarrow> string \<Rightarrow> cacheEntry \<Rightarrow> duration \<Rightarrow> duration \<Rightarrow> ('tv, unit) rprog" where
  "internalCache_Set env k v refresh expire =
     do { te \<leftarrow> time_Now env;
          tr \<leftarrow> time_Now env;
          cbs \<leftarrow> atomically (others env)
            (\<lambda>s. let (c, cbs) = SetWithRefreshExpire te tr (internalCache s) k v refresh expire
                 in (cbs, s\<lparr>internalCache := c\<rparr>));
          call_back cbs }"

definition internalCache_Modify ::
  "('reg, 'key, 'tv) renv \<Rightarrow> string \<Rightarrow> (cacheEntry \<Rightarrow> cacheEntry) \<Rightarrow> ('tv, unit) rprog" where
  "internalCache_Modify env k f =
     do { t \<leftarrow> time_Now env;
          atomically (others env)
            (\<lambda>s. ((), s\<lparr>internalCache := fst (Modify t (internalCache s) k f)\<rparr>)) }"

definition activeRequests_Get ::
  "('reg, 'key, 'tv) renv \<Rightarrow> string \<Rightarrow> ('tv, goerr option option) rprog" where
  "activeRequests_Get env k =
     do { t \<leftarrow> time_Now env; read_shared env (\<lambda>s. cache_Get t (internalActiveRequestCache s) k) }"

definition activeRequests_Add :: "('reg, 'key, 'tv) renv \<Rightarrow> string \<Rightarrow> ('tv, unit) rprog" where
  "activeRequests_Add env k =
     do { tg \<leftarrow> time_Now env; te \<leftarrow> time_Now env; tr \<leftarrow> time_Now env;
          atomically (others env)
            (\<lambda>s. ((), s\<lparr>internalActiveRequestCache :=
                         fst (cache_Add tg te tr (internalActiveRequestCache s) k None)\<rparr>)) }"

definition activeRequests_Delete :: "('reg, 'key, 'tv) renv \<Rightarrow> string \<Rightarrow> ('tv, unit) rprog" where
  "activeRequests_Delete env k =
     atomically (others env)
       (\<lambda>s. ((), s\<lparr>internalActiveRequestCache := fst (Delete (internalActiveRequestCache s) k)\<rparr>))"

section \<open>The token validator's slot\<close>

text \<open>
  \<open>tryInitTokenValidator\<close> takes the flag by compare-and-swap and starts a goroutine, which stores
  the new validator, if it got one, and then lowers the flag (\<open>tvInit_goroutine\<close>).
\<close>

definition tryInitTokenValidator :: "('reg, 'key, 'tv) renv \<Rightarrow> ('tv, unit) rprog" where
  "tryInitTokenValidator env =
     do { swapped \<leftarrow> atomically (others env)
            (\<lambda>s. if tvInitInFlight s then (False, s) else (True, s\<lparr>tvInitInFlight := True\<rparr>));
          if \<not> swapped then ret () else emit StartTokenValidatorInit }"

definition tvInit_goroutine ::
  "('reg, 'key, 'tv) renv \<Rightarrow> (nat \<Rightarrow> goerr + 'tv) \<Rightarrow> ('tv, unit) rprog" where
  "tvInit_goroutine env NewTokenValidator =
     do { r \<leftarrow> ask NewTokenValidator;
          (case r of
             Inl err \<Rightarrow> ret ()
           | Inr newTv \<Rightarrow> atomically (others env) (\<lambda>s. ((), s\<lparr>tokenValidator := Some newTv\<rparr>)));
          atomically (others env) (\<lambda>s. ((), s\<lparr>tvInitInFlight := False\<rparr>)) }"

section \<open>Serving from the cache\<close>

definition minDuration :: "duration \<Rightarrow> duration \<Rightarrow> duration" where
  "minDuration a b = (if a > b then b else a)"

definition credentialsInEntryWithinValidTtl ::
  "('reg, 'key, 'tv) renv \<Rightarrow> cacheEntry \<Rightarrow> ('tv, duration \<times> bool) rprog" where
  "credentialsInEntryWithinValidTtl env newCacheEntry =
     do { now \<leftarrow> time_Now env;
          minTtl \<leftarrow> read_shared env minCredentialTtl;
          let credsDuration = time_Sub (CredsExpiration (entry_credentials newCacheEntry)) now;
          ret (credsDuration, credsDuration > minTtl) }"

definition inc_local_validation :: "string \<Rightarrow> ('tv, unit) rprog" where
  "inc_local_validation result = emit (Inc ''pod_identity_local_validation'' [result])"

definition call_validator ::
  "('reg, 'key, 'tv) renv \<Rightarrow> 'tv \<Rightarrow> EksCredentialsRequest \<Rightarrow> ('tv, goerr option) rprog" where
  "call_validator env tv request =
     do { emit (CallValidator request); ask (\<lambda>n. validator env n tv request) }"

definition tryServingFromCache ::
  "('reg, 'key, 'tv) renv \<Rightarrow> string \<Rightarrow> EksCredentialsRequest
   \<Rightarrow> ('tv, EksCredentialsResponse option) rprog" where
  "tryServingFromCache env podUID request =
     do { got \<leftarrow> internalCache_Get env podUID;
          case got of
            None \<Rightarrow> ret None
          | Some val \<Rightarrow>
              do { (_, withinTtl) \<leftarrow> credentialsInEntryWithinValidTtl env val;
                   if \<not> withinTtl then do { internalCache_Delete env podUID; ret None }
                   else if ServiceAccountToken (originatingRequest val) = ServiceAccountToken request
                   then ret (Some (entry_credentials val))
                   else
                     do { slot \<leftarrow> read_shared env tokenValidator;
                          case slot of
                            None \<Rightarrow>
                              do { tryInitTokenValidator env;
                                   inc_local_validation ''skipped'';
                                   ret None }
                          | Some tv \<Rightarrow>
                              do { err \<leftarrow> call_validator env tv request;
                                   case err of
                                     Some e \<Rightarrow> do { inc_local_validation ''failure''; ret None }
                                   | None \<Rightarrow>
                                       do { internalCache_Modify env podUID
                                              (\<lambda>e. e\<lparr>originatingRequest := request\<rparr>);
                                            inc_local_validation ''success'';
                                            ret (Some (entry_credentials val)) } } } } }"

definition waitForActiveRequest :: "('reg, 'key, 'tv) renv \<Rightarrow> string \<Rightarrow> nat \<Rightarrow> ('tv, bool) rprog" where
  "waitForActiveRequest env token attempt =
     do { active \<leftarrow> activeRequests_Get env token;
          if active = None then ret False
          else
            do { (if attempt < defaultActiveRequestRetries
                  then emit (Slept defaultActiveRequestWaitTime) else ret ());
                 ret True } }"

section \<open>Asking the delegate\<close>

definition fetchCredentialsFromDelegate ::
  "('reg, 'key, 'tv) renv \<Rightarrow> EksCredentialsRequest \<Rightarrow> ('tv, (goerr + cacheEntry) go) rprog" where
  "fetchCredentialsFromDelegate env request =
     do { emit (CallDelegate request);
          answer \<leftarrow> ask (\<lambda>n. delegate env n request);
          ret (case answer of
                 Panic \<Rightarrow> Panic
               | Ret (Inl err) \<Rightarrow> Ret (Inl err)
               | Ret (Inr (iamCredentials, associationId)) \<Rightarrow>
                   Ret (Inr \<lparr>requestLogCtx = associationId, originatingRequest = request,
                             entry_credentials = iamCredentials\<rparr>)) }"

definition pod_uid_error :: "goerr \<Rightarrow> goerr" where
  "pod_uid_error err = Wrapped [Txt ''failed to get pod uid from service account token: ''] err []"

definition callDelegateAndCache ::
  "('reg, 'key, 'tv) renv \<Rightarrow> EksCredentialsRequest \<Rightarrow> ('tv, (goerr + cacheEntry) go) rprog" where
  "callDelegateAndCache env request =
     (case getPodUIDfromServiceAccountToken (jwt env) (ServiceAccountToken request) of
        Inl err \<Rightarrow> ret (Ret (Inl (pod_uid_error err)))
      | Inr podUID \<Rightarrow>
          do { fetched \<leftarrow> fetchCredentialsFromDelegate env request;
               case fetched of
                 Panic \<Rightarrow> ret Panic
               | Ret (Inl err) \<Rightarrow> ret (Ret (Inl (Wrapped [Txt ''error getting credentials to cache: ''] err [])))
               | Ret (Inr newCacheEntry) \<Rightarrow>
                   do { (credsDuration, credentialsValid) \<leftarrow>
                          credentialsInEntryWithinValidTtl env newCacheEntry;
                        if \<not> credentialsValid
                        then ret (Ret (Inl (Plain
                          [Txt ''fetched credentials are expired or will expire within the next '',
                           Sec credsDuration, Txt '' seconds''])))
                        else
                          do { renewalTtl \<leftarrow> read_shared env credentialsRenewalTtl;
                               internalCache_Set env podUID newCacheEntry
                                 (minDuration credsDuration renewalTtl) credsDuration;
                               ret (Ret (Inr newCacheEntry)) } } })"

section \<open>A request\<close>

text \<open>
  The loop of \<open>GetIamCredentials\<close> with \<open>left\<close> attempts left; the attempt's number is the loop
  variable.
\<close>

primrec serve_loop ::
  "('reg, 'key, 'tv) renv \<Rightarrow> string \<Rightarrow> EksCredentialsRequest \<Rightarrow> nat
   \<Rightarrow> ('tv, EksCredentialsResponse option) rprog" where
  "serve_loop env podUID request 0 = ret None"
| "serve_loop env podUID request (Suc left) =
     do { resp \<leftarrow> tryServingFromCache env podUID request;
          case resp of
            Some r \<Rightarrow> ret (Some r)
          | None \<Rightarrow>
              do { wait \<leftarrow> waitForActiveRequest env (ServiceAccountToken request)
                     (defaultActiveRequestRetries - left);
                   if \<not> wait then ret None else serve_loop env podUID request left } }"

text \<open>The deferred \<open>Delete\<close> runs when the function returns and when a panic unwinds it.\<close>

definition fetch_on_miss ::
  "('reg, 'key, 'tv) renv \<Rightarrow> EksCredentialsRequest \<Rightarrow> ('tv, (goerr + EksCredentialsResponse) go) rprog" where
  "fetch_on_miss env request =
     do { _ \<leftarrow> activeRequests_Get env (ServiceAccountToken request);
          activeRequests_Add env (ServiceAccountToken request);
          emit (Inc ''pod_identity_cache_state'' [''miss'']);
          fetched \<leftarrow> callDelegateAndCache env request;
          activeRequests_Delete env (ServiceAccountToken request);
          ret (case fetched of
                 Panic \<Rightarrow> Panic
               | Ret (Inl err) \<Rightarrow> Ret (Inl err)
               | Ret (Inr entry) \<Rightarrow> Ret (Inr (entry_credentials entry))) }"

text \<open>The request is a pointer; the metadata returned is always nil.\<close>

definition GetIamCredentials ::
  "('reg, 'key, 'tv) renv \<Rightarrow> EksCredentialsRequest option
   \<Rightarrow> ('tv, (goerr + EksCredentialsResponse) go) rprog" where
  "GetIamCredentials env request =
     (case request of
        None \<Rightarrow>
          ret (Ret (Inl (Plain [Txt ''request to fetch credentials is empty, this is most likely a bug''])))
      | Some req \<Rightarrow>
          if ServiceAccountToken req = ''''
          then ret (Ret (Inl (Plain
            [Txt ''service account is empty, cannot fetch credentials without a valid one''])))
          else
            (case getPodUIDfromServiceAccountToken (jwt env) (ServiceAccountToken req) of
               Inl err \<Rightarrow> ret (Ret (Inl (pod_uid_error err)))
             | Inr podUID \<Rightarrow>
                 do { served \<leftarrow> serve_loop env podUID req (Suc defaultActiveRequestRetries);
                      case served of
                        Some resp \<Rightarrow> ret (Ret (Inr resp))
                      | None \<Rightarrow> fetch_on_miss env req }))"

section \<open>Renewal\<close>

text \<open>\<open>rand.Int63n(n)\<close> for positive \<open>n\<close>.\<close>

definition Int63n :: "('reg, 'key, 'tv) renv \<Rightarrow> int \<Rightarrow> ('tv, int) rprog" where
  "Int63n env n = ask (\<lambda>i. rnd env i mod n)"

definition keep_old_credentials ::
  "('reg, 'key, 'tv) renv \<Rightarrow> string \<Rightarrow> cacheEntry \<Rightarrow> ('tv, unit) rprog" where
  "keep_old_credentials env key entry =
     do { now \<leftarrow> time_Now env;
          minTtl \<leftarrow> read_shared env minCredentialTtl;
          let oldCredsDuration = time_Sub (CredsExpiration (entry_credentials entry)) now;
          if oldCredsDuration > minTtl
          then
            do { retry \<leftarrow> read_shared env retryInterval;
                 maxJitter \<leftarrow> read_shared env maxRetryJitter;
                 jitter \<leftarrow> Int63n env maxJitter;
                 let calculatedRetryInterval = int64 (retry + jitter);
                 internalCache_Set env key entry
                   (minDuration oldCredsDuration calculatedRetryInterval) oldCredsDuration }
          else ret () }"

text \<open>A panic of the delegate leaves the callback: nothing on the way up recovers it.\<close>

definition onCredentialRenewal ::
  "('reg, 'key, 'tv) renv \<Rightarrow> string \<Rightarrow> cacheEntry \<Rightarrow> ('tv, unit go) rprog" where
  "onCredentialRenewal env key entry =
     do { allowed \<leftarrow> ask (limiter_Allow env);
          if allowed then
            do { waited \<leftarrow> ask (limiter_Wait env);
                 case waited of
                   Some err \<Rightarrow> ret (Ret ())
                 | None \<Rightarrow>
                     do { fetched \<leftarrow> callDelegateAndCache env (originatingRequest entry);
                          case fetched of
                            Panic \<Rightarrow> ret Panic
                          | Ret (Inr _) \<Rightarrow>
                              do { emit (Inc ''pod_identity_cache_state'' [''hit'']); ret (Ret ()) }
                          | Ret (Inl err) \<Rightarrow>
                              let (errCode, isIrrecoverableError) = IsIrrecoverableApiError err in
                              if isIrrecoverableError then
                                do { emit (Inc ''pod_identity_cache_errors''
                                       [''NonRecoverable'', errCode]);
                                     case getPodUIDfromServiceAccountToken (jwt env)
                                            (ServiceAccountToken (originatingRequest entry)) of
                                       Inl err' \<Rightarrow> ret (Ret ())
                                     | Inr podUID \<Rightarrow> do { internalCache_Delete env podUID; ret (Ret ()) } }
                              else
                                do { emit (Inc ''pod_identity_cache_errors'' [''Recoverable'', errCode]);
                                     keep_old_credentials env key entry;
                                     ret (Ret ()) } } }
          else do { keep_old_credentials env key entry; ret (Ret ()) } }"

section \<open>The janitor's sweep over the credentials\<close>

text \<open>
  \<open>RefreshOrEvictExpired\<close> with the retriever's callbacks. It takes the lock of the cache twice, so it is two
  sections, and between them the refresh callback runs on the items that were due, one after the other. A callback
  that panics ends the sweep: no lock is held then, and nothing is evicted.
\<close>

primrec run_refresh :: "('reg, 'key, 'tv) renv \<Rightarrow> callback list \<Rightarrow> ('tv, unit go) rprog" where
  "run_refresh env [] = ret (Ret ())"
| "run_refresh env (cb # cbs) =
     do { r \<leftarrow> (case cb of Renewal key entry \<Rightarrow> onCredentialRenewal env key entry | Eviction _ _ \<Rightarrow> ret (Ret ()));
          case r of Panic \<Rightarrow> ret Panic | Ret _ \<Rightarrow> run_refresh env cbs }"

definition due_refresh ::
  "((string \<rightharpoonup> cacheEntry Item) \<Rightarrow> string list) \<Rightarrow> time \<Rightarrow> 'tv cachedCredentialRetriever \<Rightarrow> callback list" where
  "due_refresh ord t s =
     (case onRefresh (internalCache s) of
        None \<Rightarrow> []
      | Some f \<Rightarrow> map (\<lambda>(k, v). f k v) (itemsRequiringRefresh ord (UnixNano t) (internalCache s)))"

definition evict_expired ::
  "((string \<rightharpoonup> cacheEntry Item) \<Rightarrow> string list) \<Rightarrow> time \<Rightarrow> 'tv cachedCredentialRetriever
   \<Rightarrow> callback list \<times> 'tv cachedCredentialRetriever" where
  "evict_expired ord t s =
     (let c = internalCache s; (c', evictedItems) = evict_loop (UnixNano t) (ord (items c)) c
      in (case onEvicted c' of None \<Rightarrow> [] | Some f \<Rightarrow> map (\<lambda>(k, v). f k v) evictedItems, s\<lparr>internalCache := c'\<rparr>))"

definition janitor_sweep ::
  "('reg, 'key, 'tv) renv \<Rightarrow> ((string \<rightharpoonup> cacheEntry Item) \<Rightarrow> string list)
   \<Rightarrow> ((string \<rightharpoonup> cacheEntry Item) \<Rightarrow> string list) \<Rightarrow> ('tv, unit go) rprog" where
  "janitor_sweep env ord1 ord2 =
     do { t \<leftarrow> time_Now env;
          due \<leftarrow> read_shared env (due_refresh ord1 t);
          r \<leftarrow> run_refresh env due;
          case r of
            Panic \<Rightarrow> ret Panic
          | Ret _ \<Rightarrow>
              do { cbs \<leftarrow> atomically (others env) (evict_expired ord2 t);
                   call_back cbs;
                   ret (Ret ()) } }"

end
