(* ===== verification/Interleaving.thy ===== *)
theory Interleaving
  imports Effects
begin

text \<open>
  Goroutines that run side by side. A program of the state monad is one goroutine's run against a
  fixed environment; here a goroutine is a \<open>thread\<close>, the tree of the points where it meets the
  rest of the system, and a system is a set of threads whose next points are taken in any order.
  \<open>interp\<close> gives a thread back as a program, so that what is proved of the threads holds of the
  programs and the other way round.

  \<open>guarantees\<close> says that every single section of a thread, in whatever memory that satisfies the
  invariant it is entered, follows a protocol, and that the result satisfies a predicate; it makes no
  assumption on the other threads. In a system all of whose threads do so the invariant holds
  throughout (\<open>system_inv_steps\<close>), which is how the assumption on the others is discharged.
\<close>

section \<open>Threads\<close>

datatype ('s, 'e, 'a) thread =
  Done 'a
| Ask "nat \<Rightarrow> ('s, 'e, 'a) thread"
| Emit 'e "('s, 'e, 'a) thread"
| Section "'s \<Rightarrow> 's" "'s \<Rightarrow> ('s, 'e, 'a) thread"

primrec tbind :: "('s, 'e, 'a) thread \<Rightarrow> ('a \<Rightarrow> ('s, 'e, 'b) thread) \<Rightarrow> ('s, 'e, 'b) thread" where
  "tbind (Done x) k = k x"
| "tbind (Ask g) k = Ask (\<lambda>n. tbind (g n) k)"
| "tbind (Emit ev t) k = Emit ev (tbind t k)"
| "tbind (Section f g) k = Section f (\<lambda>s. tbind (g s) k)"

definition t_ask :: "(nat \<Rightarrow> 'a) \<Rightarrow> ('s, 'e, 'a) thread" where
  "t_ask f = Ask (\<lambda>n. Done (f n))"

definition t_emit :: "'e \<Rightarrow> ('s, 'e, unit) thread" where
  "t_emit ev = Emit ev (Done ())"

definition t_section :: "('s \<Rightarrow> 'a \<times> 's) \<Rightarrow> ('s, 'e, 'a) thread" where
  "t_section f = Section (\<lambda>s. snd (f s)) (\<lambda>s. Done (fst (f s)))"

primrec interp :: "(nat \<Rightarrow> 's \<Rightarrow> 's) \<Rightarrow> ('s, 'e, 'a) thread \<Rightarrow> ('s, 'e, 'a) prog" where
  "interp others (Done x) = ret x"
| "interp others (Ask g) = do { n \<leftarrow> ask (\<lambda>n. n); interp others (g n) }"
| "interp others (Emit ev t) = do { emit ev; interp others t }"
| "interp others (Section f g) = do { s \<leftarrow> atomically others (\<lambda>s. (s, f s)); interp others (g s) }"

lemma interp_tbind [simp]:
  "interp others (tbind t k) = State_Monad.bind (interp others t) (\<lambda>x. interp others (k x))"
  by (induction t) simp_all

lemma interp_ask [simp]: "interp others (t_ask f) = ask f"
  by (rule state_ext) (simp add: t_ask_def)

lemma interp_emit [simp]: "interp others (t_emit ev) = emit ev"
  by (rule state_ext) (simp add: t_emit_def)

lemma interp_section [simp]: "interp others (t_section f) = atomically others f"
  by (rule state_ext) (simp add: t_section_def)

lemma interp_splits:
  "interp os (if b then t1 else t2) = (if b then interp os t1 else interp os t2)"
  "interp os (case ov of None \<Rightarrow> t1 | Some x \<Rightarrow> k x) = (case ov of None \<Rightarrow> interp os t1 | Some x \<Rightarrow> interp os (k x))"
  "interp os (case sv of Inl e \<Rightarrow> l e | Inr y \<Rightarrow> r y) = (case sv of Inl e \<Rightarrow> interp os (l e) | Inr y \<Rightarrow> interp os (r y))"
  "interp os (case p of (a, c) \<Rightarrow> h a c) = (case p of (a, c) \<Rightarrow> interp os (h a c))"
  "interp os (case gv of Ret z \<Rightarrow> g z | Panic \<Rightarrow> t2) = (case gv of Ret z \<Rightarrow> interp os (g z) | Panic \<Rightarrow> interp os t2)"
  by (simp_all split: option.split sum.split prod.split go.split)

section \<open>What every section of a thread guarantees\<close>

primrec guarantees ::
  "('s \<Rightarrow> 's \<Rightarrow> bool) \<Rightarrow> ('s \<Rightarrow> bool) \<Rightarrow> nat \<Rightarrow> ('s, 'e, 'a) thread \<Rightarrow> ('a \<Rightarrow> bool) \<Rightarrow> bool" where
  "guarantees step I n (Done x) Q \<longleftrightarrow> Q x"
| "guarantees step I n (Ask g) Q \<longleftrightarrow> (\<forall>k \<ge> n. guarantees step I n (g k) Q)"
| "guarantees step I n (Emit ev t) Q \<longleftrightarrow> guarantees step I n t Q"
| "guarantees step I n (Section f g) Q \<longleftrightarrow>
     (\<forall>s. I s \<longrightarrow> step\<^sup>*\<^sup>* s (f s) \<and> guarantees step I n (g s) Q)"

lemma g_ask: "(\<And>k. n \<le> k \<Longrightarrow> Q (f k)) \<Longrightarrow> guarantees step I n (t_ask f) Q"
  by (simp add: t_ask_def)

lemma g_emit: "Q () \<Longrightarrow> guarantees step I n (t_emit ev) Q"
  by (simp add: t_emit_def)

lemma g_section:
  "(\<And>s. I s \<Longrightarrow> step\<^sup>*\<^sup>* s (snd (f s)) \<and> Q (fst (f s))) \<Longrightarrow> guarantees step I n (t_section f) Q"
  by (simp add: t_section_def)

lemma g_weaken: "guarantees step I n t R \<Longrightarrow> (\<And>x. R x \<Longrightarrow> Q x) \<Longrightarrow> guarantees step I n t Q"
  by (induction t) auto

lemma g_bind:
  "guarantees step I n t R \<Longrightarrow> (\<And>x. R x \<Longrightarrow> guarantees step I n (k x) Q) \<Longrightarrow>
   guarantees step I n (tbind t k) Q"
  by (induction t) auto

text \<open>Where the others keep to the protocol, a program made of such sections does too.\<close>

context step_invariant
begin

lemma guarantees_ensures:
  assumes "\<And>k s. step\<^sup>*\<^sup>* s (others k s)" and "guarantees step inv n t Q"
  shows "ensures step inv n (interp others t) Q"
  using assms(2)
proof (induction t)
  case (Done x)
  then show ?case by (simp add: ensures_ret)
next
  case (Ask g)
  show ?case
    unfolding interp.simps
    by (rule ensures_bind[where R = "\<lambda>k. n \<le> k"], rule ensures_ask) (use Ask in auto)
next
  case (Emit ev t)
  show ?case
    unfolding interp.simps
    by (rule ensures_bind[where R = "\<lambda>_. True"], rule ensures_emit) (use Emit in auto)
next
  case (Section f g)
  show ?case
    unfolding interp.simps
    by (rule ensures_bind[where R = inv], rule ensures_locked[OF assms(1)]) (use Section in auto)
qed

end

section \<open>Systems\<close>

text \<open>
  A goroutine runs a job. \<open>code\<close> gives the thread of a job; jobs that satisfy \<open>arrives\<close> may be started
  from outside at any time, and an event \<open>ev\<close> with \<open>starts ev = Some j\<close> is a \<open>go\<close> statement that
  starts the job \<open>j\<close>. The clock of the system ticks with every question and every section.
\<close>

record ('j, 's, 'e, 'a) goroutine =
  job :: 'j
  started :: nat
  rest :: "('s, 'e, 'a) thread"

record ('j, 's, 'e, 'a) system =
  mem :: 's
  time :: nat
  events :: "'e list"
  goroutines :: "nat \<rightharpoonup> ('j, 's, 'e, 'a) goroutine"

definition launch ::
  "('j \<Rightarrow> ('s, 'e, 'a) thread) \<Rightarrow> nat \<Rightarrow> 'j \<Rightarrow> ('j, 's, 'e, 'a) system \<Rightarrow> ('j, 's, 'e, 'a) system" where
  "launch code i j S = S\<lparr>goroutines := (goroutines S)(i \<mapsto> \<lparr>job = j, started = time S, rest = code j\<rparr>)\<rparr>"

definition continue ::
  "nat \<Rightarrow> ('s, 'e, 'a) thread \<Rightarrow> ('j, 's, 'e, 'a) system \<Rightarrow> ('j, 's, 'e, 'a) system" where
  "continue i t S = S\<lparr>goroutines := (goroutines S)(i := map_option (rest_update (\<lambda>_. t)) (goroutines S i))\<rparr>"

inductive system_step ::
  "('j \<Rightarrow> ('s, 'e, 'a) thread) \<Rightarrow> ('j \<Rightarrow> bool) \<Rightarrow> ('e \<Rightarrow> 'j option)
   \<Rightarrow> ('j, 's, 'e, 'a) system \<Rightarrow> ('j, 's, 'e, 'a) system \<Rightarrow> bool"
  for code arrives starts where
  arrival: "arrives j \<Longrightarrow> goroutines S i = None \<Longrightarrow> system_step code arrives starts S (launch code i j S)"
| question: "goroutines S i = Some g \<Longrightarrow> rest g = Ask f \<Longrightarrow>
    system_step code arrives starts S (continue i (f (time S)) (S\<lparr>time := Suc (time S)\<rparr>))"
| event: "goroutines S i = Some g \<Longrightarrow> rest g = Emit ev t \<Longrightarrow> starts ev = None \<Longrightarrow>
    system_step code arrives starts S (continue i t (S\<lparr>events := events S @ [ev]\<rparr>))"
| go_statement: "goroutines S i = Some g \<Longrightarrow> rest g = Emit ev t \<Longrightarrow> starts ev = Some j \<Longrightarrow>
    goroutines S i' = None \<Longrightarrow>
    system_step code arrives starts S (launch code i' j (continue i t (S\<lparr>events := events S @ [ev]\<rparr>)))"
| critical: "goroutines S i = Some g \<Longrightarrow> rest g = Section f k \<Longrightarrow>
    system_step code arrives starts S
      (continue i (k (mem S)) (S\<lparr>mem := f (mem S), time := Suc (time S)\<rparr>))"

definition idle_system :: "'s \<Rightarrow> ('j, 's, 'e, 'a) system" where
  "idle_system s = \<lparr>mem = s, time = 0, events = [], goroutines = Map.empty\<rparr>"

text \<open>
  The memory satisfies the invariant of the protocol and every goroutine still guarantees what its job promises.
\<close>

definition system_inv ::
  "('s \<Rightarrow> 's \<Rightarrow> bool) \<Rightarrow> ('s \<Rightarrow> bool) \<Rightarrow> ('j \<Rightarrow> nat \<Rightarrow> 'a \<Rightarrow> bool) \<Rightarrow> ('j, 's, 'e, 'a) system \<Rightarrow> bool" where
  "system_inv step I Q S \<longleftrightarrow>
     I (mem S) \<and>
     (\<forall>i g. goroutines S i = Some g \<longrightarrow>
        started g \<le> time S \<and> guarantees step I (started g) (rest g) (Q (job g) (started g)))"

lemma goroutines_launch [simp]:
  "goroutines (launch code i j S) = (goroutines S)(i \<mapsto> \<lparr>job = j, started = time S, rest = code j\<rparr>)"
  "mem (launch code i j S) = mem S" "time (launch code i j S) = time S" "events (launch code i j S) = events S"
  by (simp_all add: launch_def)

lemma goroutines_continue [simp]:
  "goroutines (continue i t S) = (goroutines S)(i := map_option (rest_update (\<lambda>_. t)) (goroutines S i))"
  "mem (continue i t S) = mem S" "time (continue i t S) = time S" "events (continue i t S) = events S"
  by (simp_all add: continue_def)

lemma mem_idle_system [simp]: "mem (idle_system s) = s"
  by (simp add: idle_system_def)

lemma finite_goroutines:
  "finite (dom (goroutines S)) \<Longrightarrow> finite (dom (goroutines (continue i t S)))"
  "finite (dom (goroutines S)) \<Longrightarrow> finite (dom (goroutines (launch code i j S)))"
proof -
  assume fin: "finite (dom (goroutines S))"
  have "dom (goroutines (continue i t S)) \<subseteq> dom (goroutines S)" by (auto split: if_splits)
  then show "finite (dom (goroutines (continue i t S)))" using fin by (rule finite_subset)
  show "finite (dom (goroutines (launch code i j S)))" using fin by simp
qed

lemma system_invD:
  assumes "system_inv step I Q S" and "goroutines S i = Some g"
  shows "started g \<le> time S" and "rest g = t \<Longrightarrow> guarantees step I (started g) t (Q (job g) (started g))"
  using assms by (auto simp: system_inv_def)

lemma system_inv_continue:
  assumes "system_inv step I Q S" and "goroutines S i = Some g" and "I (mem S')"
    and "guarantees step I (started g) t (Q (job g) (started g))"
    and "goroutines S' = goroutines S" and "time S \<le> time S'"
  shows "system_inv step I Q (continue i t S')"
  using assms by (auto simp: system_inv_def intro: le_trans)

lemma system_inv_launch:
  assumes "system_inv step I Q S" and "guarantees step I (time S) (code j) (Q j (time S))"
  shows "system_inv step I Q (launch code i j S)"
  using assms by (auto simp: system_inv_def)

context step_invariant
begin

lemma system_inv_step:
  assumes code: "\<And>j n. guarantees step inv n (code j) (Q j n)"
    and "system_step code arrives starts S S'" and S: "system_inv step inv Q S"
  shows "system_inv step inv Q S' \<and> step\<^sup>*\<^sup>* (mem S) (mem S')"
proof -
  have I: "inv (mem S)" using S by (simp add: system_inv_def)
  show ?thesis
    using assms(2)
  proof cases
    case (arrival j i)
    then show ?thesis using S code by (simp add: system_inv_launch)
  next
    case (question i g f)
    then show ?thesis
      using system_invD[OF S question(2)] I by (auto intro!: system_inv_continue[OF S question(2)])
  next
    case (event i g ev t)
    then show ?thesis
      using system_invD[OF S event(2)] I by (auto intro!: system_inv_continue[OF S event(2)])
  next
    case (go_statement i g ev t j i')
    then show ?thesis
      using system_invD[OF S go_statement(2)] I code
      by (auto intro!: system_inv_launch system_inv_continue[OF S go_statement(2)])
  next
    case (critical i g f k)
    have steps: "step\<^sup>*\<^sup>* (mem S) (f (mem S))"
      and k: "guarantees step inv (started g) (k (mem S)) (Q (job g) (started g))"
      using system_invD(2)[OF S critical(2,3)] I by simp_all
    have "inv (f (mem S))" using steps I by (rule inv_steps)
    then show ?thesis
      using critical steps k by (auto intro!: system_inv_continue[OF S critical(2)])
  qed
qed

lemma system_inv_steps:
  assumes code: "\<And>j n. guarantees step inv n (code j) (Q j n)"
    and "(system_step code arrives starts)\<^sup>*\<^sup>* S S'" and "system_inv step inv Q S"
  shows "system_inv step inv Q S' \<and> step\<^sup>*\<^sup>* (mem S) (mem S')"
  using assms(2)
proof (induction rule: rtranclp_induct)
  case base
  then show ?case using assms(3) by simp
next
  case (step y z)
  then show ?case using system_inv_step[OF code step.hyps(2)] by (meson rtranclp_trans)
qed

lemma system_inv_idle: "inv s \<Longrightarrow> system_inv step inv Q (idle_system s)"
  by (simp add: system_inv_def idle_system_def)

text \<open>In a system that starts with an idle memory the results of all jobs keep their promises.\<close>

lemma system_results:
  assumes "\<And>j n. guarantees step inv n (code j) (Q j n)"
    and "(system_step code arrives starts)\<^sup>*\<^sup>* (idle_system s) S" and "inv s"
  shows "step\<^sup>*\<^sup>* s (mem S)" and "inv (mem S)"
    and "goroutines S i = Some g \<Longrightarrow> rest g = Done x \<Longrightarrow> started g \<le> time S \<and> Q (job g) (started g) x"
proof -
  have S: "system_inv step inv Q S" and "step\<^sup>*\<^sup>* s (mem S)"
    using system_inv_steps[OF assms(1,2) system_inv_idle[OF assms(3)]] by simp_all
  then show "step\<^sup>*\<^sup>* s (mem S)" by simp
  show "inv (mem S)" using S by (simp add: system_inv_def)
  show "started g \<le> time S \<and> Q (job g) (started g) x" if "goroutines S i = Some g" "rest g = Done x"
    using system_invD(1)[OF S that(1)] system_invD(2)[OF S that] by simp
qed

end

section \<open>One goroutine on its own\<close>

text \<open>
  A goroutine that is scheduled alone behaves as its program does when nobody else runs: the system's
  runs contain those of the program.
\<close>

lemma fresh_goroutine: "finite (dom (goroutines S)) \<Longrightarrow> \<exists>i. goroutines S i = None"
  by (meson domIff ex_new_if_finite infinite_UNIV_nat)

definition alone :: "nat \<Rightarrow> 's \<Rightarrow> 's" where
  "alone n s = s"

lemma scheduled_alone:
  assumes "goroutines S i = Some \<lparr>job = j, started = n, rest = t\<rparr>" and "finite (dom (goroutines S))"
    and "shared w = mem S" and "ticks w = time S"
    and "run_state (interp alone t) w = (x, w')"
  shows "\<exists>S'. (system_step code arrives starts)\<^sup>*\<^sup>* S S' \<and>
    goroutines S' i = Some \<lparr>job = j, started = n, rest = Done x\<rparr> \<and>
    mem S' = shared w' \<and> time S' = ticks w' \<and> finite (dom (goroutines S'))"
    (is "\<exists>S'. ?to S S'")
  using assms
proof (induction t arbitrary: S w)
  case (Done x')
  then show ?case by (intro exI[of _ S]) auto
next
  case (Ask f)
  let ?S = "continue i (f (time S)) (S\<lparr>time := Suc (time S)\<rparr>)"
  have "system_step code arrives starts S ?S" using Ask.prems(1) by (rule question) simp
  moreover have "\<exists>S'. ?to ?S S'"
    by (rule Ask.IH[where w = "w\<lparr>ticks := Suc (ticks w)\<rparr>"]) (use Ask.prems in \<open>simp_all add: finite_goroutines del: goroutines_continue(1), simp\<close>)
  ultimately show ?case by (blast intro: converse_rtranclp_into_rtranclp)
next
  case (Emit ev t)
  let ?S = "continue i t (S\<lparr>events := events S @ [ev]\<rparr>)"
  obtain i' where i': "goroutines S i' = None" using fresh_goroutine[OF Emit.prems(2)] by blast
  define S1 where "S1 = (case starts ev of None \<Rightarrow> ?S | Some k \<Rightarrow> launch code i' k ?S)"
  have "system_step code arrives starts S S1"
    using event[OF Emit.prems(1)] go_statement[OF Emit.prems(1) _ _ i'] by (auto simp: S1_def split: option.split)
  moreover have "\<exists>S'. ?to S1 S'"
  proof (rule Emit.IH[where w = "w\<lparr>trace := trace w @ [ev]\<rparr>"])
    show "finite (dom (goroutines S1))"
      unfolding S1_def using Emit.prems(2)
      by (auto intro!: finite_goroutines split: option.split simp del: goroutines_continue goroutines_launch)
  qed (use Emit.prems i' in \<open>auto simp: S1_def split: option.split\<close>)
  ultimately show ?case by (blast intro: converse_rtranclp_into_rtranclp)
next
  case (Section f k)
  let ?S = "continue i (k (mem S)) (S\<lparr>mem := f (mem S), time := Suc (time S)\<rparr>)"
  have "system_step code arrives starts S ?S" using Section.prems(1) by (rule critical) simp
  moreover have "\<exists>S'. ?to ?S S'"
    by (rule Section.IH[where w = "w\<lparr>shared := f (mem S), ticks := Suc (ticks w)\<rparr>"])
      (use Section.prems in \<open>simp_all add: finite_goroutines alone_def del: goroutines_continue(1), simp\<close>)
  ultimately show ?case by (blast intro: converse_rtranclp_into_rtranclp)
qed

text \<open>A goroutine that has ended stays as it is.\<close>

lemma ended_stays:
  assumes "system_step code arrives starts S T" and "goroutines S i = Some g" and "rest g = Done x"
  shows "goroutines T i = Some g"
  using assms by cases (auto simp: continue_def)

lemma arrives_alone:
  assumes "arrives j" and "goroutines S i = None" and "finite (dom (goroutines S))"
    and "run_state (interp alone (code j)) \<lparr>shared = mem S, ticks = time S, trace = []\<rparr> = (x, w')"
  shows "\<exists>S'. (system_step code arrives starts)\<^sup>*\<^sup>* S S' \<and>
    goroutines S' i = Some \<lparr>job = j, started = time S, rest = Done x\<rparr> \<and>
    mem S' = shared w' \<and> time S' = ticks w' \<and> finite (dom (goroutines S'))"
proof -
  let ?S = "launch code i j S" and ?w = "\<lparr>shared = mem S, ticks = time S, trace = []\<rparr>"
  have fin: "finite (dom (goroutines ?S))" using assms(3) by (rule finite_goroutines)
  have g: "goroutines ?S i = Some \<lparr>job = j, started = time S, rest = code j\<rparr>" by simp
  show ?thesis
    using scheduled_alone[OF g fin _ _ assms(4), of code arrives starts]
      arrival[of arrives j S i code starts, OF assms(1,2)]
    by (auto intro: converse_rtranclp_into_rtranclp)
qed

section \<open>A scheduler\<close>

text \<open>One step of goroutine \<open>i\<close>, which numbers the goroutine a \<open>go\<close> statement starts \<open>i'\<close>; and \<open>n\<close> such steps.\<close>

definition move ::
  "('j \<Rightarrow> ('s, 'e, 'a) thread) \<Rightarrow> ('e \<Rightarrow> 'j option) \<Rightarrow> nat \<Rightarrow> nat \<Rightarrow> ('j, 's, 'e, 'a) system \<Rightarrow> ('j, 's, 'e, 'a) system" where
  "move code starts i i' S =
     (case goroutines S i of
        None \<Rightarrow> S
      | Some g \<Rightarrow>
          (case rest g of
             Done x \<Rightarrow> S
           | Ask f \<Rightarrow> continue i (f (time S)) (S\<lparr>time := Suc (time S)\<rparr>)
           | Emit ev t \<Rightarrow>
               (let S' = continue i t (S\<lparr>events := events S @ [ev]\<rparr>) in
                case starts ev of None \<Rightarrow> S' | Some j \<Rightarrow> launch code i' j S')
           | Section f k \<Rightarrow> continue i (k (mem S)) (S\<lparr>mem := f (mem S), time := Suc (time S)\<rparr>)))"

primrec schedule ::
  "('j \<Rightarrow> ('s, 'e, 'a) thread) \<Rightarrow> ('e \<Rightarrow> 'j option) \<Rightarrow> nat \<Rightarrow> nat \<Rightarrow> nat \<Rightarrow> ('j, 's, 'e, 'a) system \<Rightarrow> ('j, 's, 'e, 'a) system" where
  "schedule code starts i i' 0 S = S"
| "schedule code starts i i' (Suc n) S = (if goroutines S i' = None then schedule code starts i i' n (move code starts i i' S) else S)"

lemma schedule_reachable: "(system_step code arrives starts)\<^sup>*\<^sup>* S (schedule code starts i i' n S)"
proof (induction n arbitrary: S)
  case (Suc n)
  have "(system_step code arrives starts)\<^sup>*\<^sup>* S (move code starts i i' S)" if "goroutines S i' = None"
    using that
    by (auto simp: move_def Let_def split: option.split thread.split
        intro!: r_into_rtranclp[where r = "system_step code arrives starts"] intro: question event go_statement critical)
  then show ?case using Suc by (auto intro: rtranclp_trans)
qed simp

lemma arrives_schedule:
  "arrives j \<Longrightarrow> (system_step code arrives starts)\<^sup>*\<^sup>* (idle_system s) (schedule code starts i i' n (launch code i j (idle_system s)))"
  by (rule converse_rtranclp_into_rtranclp[OF arrival schedule_reachable]) (simp_all add: idle_system_def)

section \<open>A flag that one goroutine holds at a time\<close>

text \<open>
  A flag of the memory that is taken by compare-and-swap. \<open>holding flag guarded starts b t c\<close>: a thread that
  holds the flag exactly when \<open>b\<close> takes it only when it is down, lowers it only while it holds it,
  makes the guarded events only while it holds it, hands it over with a \<open>go\<close> statement only while it holds it, and when it ends with \<open>x\<close> it holds the flag
  exactly when \<open>c x\<close>.
\<close>

primrec holding ::
  "('s \<Rightarrow> bool) \<Rightarrow> ('e \<Rightarrow> bool) \<Rightarrow> ('e \<Rightarrow> 'j option) \<Rightarrow> bool \<Rightarrow> ('s, 'e, 'a) thread \<Rightarrow> ('a \<Rightarrow> bool) \<Rightarrow> bool" where
  "holding flag guarded starts b (Done x) c \<longleftrightarrow> b = c x"
| "holding flag guarded starts b (Ask g) c \<longleftrightarrow> (\<forall>n. holding flag guarded starts b (g n) c)"
| "holding flag guarded starts b (Emit ev t) c \<longleftrightarrow>
     (guarded ev \<longrightarrow> b) \<and> (if starts ev = None then holding flag guarded starts b t c else b \<and> holding flag guarded starts False t c)"
| "holding flag guarded starts b (Section f g) c \<longleftrightarrow>
     (\<forall>s. (b \<longrightarrow> flag s) \<longrightarrow>
        (\<not> b \<and> flag s \<longrightarrow> flag (f s)) \<and> holding flag guarded starts (flag (f s) \<and> (b \<or> \<not> flag s)) (g s) c)"

abbreviation released ::
  "('s \<Rightarrow> bool) \<Rightarrow> ('e \<Rightarrow> bool) \<Rightarrow> ('e \<Rightarrow> 'j option) \<Rightarrow> bool \<Rightarrow> ('s, 'e, 'a) thread \<Rightarrow> bool" where
  "released flag guarded starts b t \<equiv> holding flag guarded starts b t (\<lambda>_. False)"

lemma h_bind:
  "holding flag guarded starts b t c \<Longrightarrow> (\<And>x. holding flag guarded starts (c x) (k x) d) \<Longrightarrow> holding flag guarded starts b (tbind t k) d"
  by (induction t arbitrary: b) (auto split: if_splits)

lemma h_ask: "(\<And>n. c (f n) = b) \<Longrightarrow> holding flag guarded starts b (t_ask f) c"
  by (auto simp: t_ask_def)

lemma h_emit: "starts ev = None \<Longrightarrow> (guarded ev \<Longrightarrow> b) \<Longrightarrow> c () = b \<Longrightarrow> holding flag guarded starts b (t_emit ev) c"
  by (auto simp: t_emit_def)

lemma h_section:
  "(\<And>s. flag (snd (f s)) = flag s) \<Longrightarrow> (\<And>s. c (fst (f s)) = b) \<Longrightarrow> holding flag guarded starts b (t_section f) c"
  by (auto simp: t_section_def)

lemma holding_section:
  "holding flag guarded starts b (Section f g) c \<Longrightarrow> (b \<Longrightarrow> flag s) \<Longrightarrow>
   (\<not> b \<and> flag s \<longrightarrow> flag (f s)) \<and> holding flag guarded starts (flag (f s) \<and> (b \<or> \<not> flag s)) (g s) c"
  by simp

text \<open>All the threads a thread may come to.\<close>

primrec always :: "(('s, 'e, 'a) thread \<Rightarrow> bool) \<Rightarrow> ('s, 'e, 'a) thread \<Rightarrow> bool" where
  "always P (Done x) \<longleftrightarrow> P (Done x)"
| "always P (Ask g) \<longleftrightarrow> P (Ask g) \<and> (\<forall>n. always P (g n))"
| "always P (Emit ev t) \<longleftrightarrow> P (Emit ev t) \<and> always P t"
| "always P (Section f g) \<longleftrightarrow> P (Section f g) \<and> (\<forall>s. always P (g s))"

lemma always_True: "(\<And>u. P u) \<Longrightarrow> always P t"
  by (induction t) auto

lemma always_now: "always P t \<Longrightarrow> P t"
  by (cases t) auto

text \<open>Who holds the flag.\<close>

definition held_by ::
  "('s \<Rightarrow> bool) \<Rightarrow> ('e \<Rightarrow> bool) \<Rightarrow> ('e \<Rightarrow> 'j option) \<Rightarrow> nat option \<Rightarrow> ('j, 's, 'e, 'a) system \<Rightarrow> bool" where
  "held_by flag guarded starts own S \<longleftrightarrow>
     (flag (mem S) \<longleftrightarrow> own \<noteq> None) \<and>
     (\<forall>i g. goroutines S i = Some g \<longrightarrow> released flag guarded starts (own = Some i) (rest g)) \<and>
     (\<forall>i. own = Some i \<longrightarrow> goroutines S i \<noteq> None)"

text \<open>A job that arrives does not hold the flag, one that a \<open>go\<close> statement starts takes it over.\<close>

definition disciplined ::
  "('j \<Rightarrow> ('s, 'e, 'a) thread) \<Rightarrow> ('j \<Rightarrow> bool) \<Rightarrow> ('s \<Rightarrow> bool)
   \<Rightarrow> ('e \<Rightarrow> bool) \<Rightarrow> ('e \<Rightarrow> 'j option) \<Rightarrow> bool" where
  "disciplined code arrives flag guarded starts \<longleftrightarrow>
     (\<forall>j. arrives j \<longrightarrow> released flag guarded starts False (code j)) \<and>
     (\<forall>ev j. starts ev = Some j \<longrightarrow> released flag guarded starts True (code j))"

lemma held_by_step:
  assumes "disciplined code arrives flag guarded starts"
    and "system_step code arrives starts S S'" and "held_by flag guarded starts own S"
  shows "\<exists>own'. held_by flag guarded starts own' S'"
  using assms(2)
proof cases
  case (arrival j i)
  then have "own \<noteq> Some i" using assms(3) by (auto simp: held_by_def)
  then have "held_by flag guarded starts own S'" using arrival assms(1,3) by (auto simp: held_by_def disciplined_def)
  then show ?thesis ..
next
  case (question i g f)
  then have "held_by flag guarded starts own S'" using assms(3) by (fastforce simp: held_by_def)
  then show ?thesis ..
next
  case (event i g ev t)
  then have "held_by flag guarded starts own S'" using assms(3) by (fastforce simp: held_by_def)
  then show ?thesis ..
next
  case (go_statement i g ev t j i')
  then have "own = Some i" using assms(3) by (fastforce simp: held_by_def)
  then have "held_by flag guarded starts (Some i') S'"
    using go_statement assms(1,3) by (fastforce simp: held_by_def disciplined_def)
  then show ?thesis ..
next
  case (critical i g f k)
  let ?own = "if own = Some i \<or> \<not> flag (mem S) then (if flag (f (mem S)) then Some i else None) else own"
  have mem: "flag (mem S) \<longleftrightarrow> own \<noteq> None" and alive: "\<And>l. own = Some l \<Longrightarrow> goroutines S l \<noteq> None"
    and rest: "\<And>l h. goroutines S l = Some h \<Longrightarrow> released flag guarded starts (own = Some l) (rest h)"
    using assms(3) by (auto simp: held_by_def)
  have now: "own \<noteq> Some i \<and> flag (mem S) \<longrightarrow> flag (f (mem S))"
    and "released flag guarded starts (flag (f (mem S)) \<and> (own = Some i \<or> \<not> flag (mem S))) (k (mem S))"
    using holding_section[OF rest[OF critical(2), unfolded critical(3)], of "mem S"] mem by auto
  moreover have "(?own = Some i) = (flag (f (mem S)) \<and> (own = Some i \<or> \<not> flag (mem S)))" using mem by auto
  moreover have "(?own = Some l) = (own = Some l)" if "l \<noteq> i" for l using that mem by auto
  ultimately have "released flag guarded starts (?own = Some l) (rest h)" if "goroutines S' l = Some h" for l h
    using that rest[of l h] critical(1,2) by (cases "l = i") auto
  moreover have "flag (mem S') \<longleftrightarrow> ?own \<noteq> None" using now mem critical(1) by auto
  moreover have "?own = Some l \<Longrightarrow> goroutines S' l \<noteq> None" for l
    using alive critical(1,2) by (auto split: if_splits)
  ultimately have "held_by flag guarded starts ?own S'" unfolding held_by_def by blast
  then show ?thesis ..
qed

lemma held_by_steps:
  assumes "disciplined code arrives flag guarded starts"
    and "(system_step code arrives starts)\<^sup>*\<^sup>* (idle_system s) S" and "\<not> flag s"
  shows "\<exists>own. held_by flag guarded starts own S"
  using assms(2)
proof (induction rule: rtranclp_induct)
  case base
  show ?case using assms(3) by (intro exI[of _ None]) (simp add: held_by_def idle_system_def)
next
  case (step y z)
  then show ?case using held_by_step[OF assms(1)] by blast
qed

lemma held_by_guarded:
  assumes "held_by flag guarded starts own S" and "goroutines S i = Some g" and "rest g = Emit ev t" and "guarded ev"
  shows "own = Some i"
  using assms unfolding held_by_def by fastforce

text \<open>
  Where every thread of a job \<open>j\<close> needs the flag until it ends, at most one goroutine at a time works on
  such a job, and the flag is up meanwhile.
\<close>

definition needs_flag ::
  "('s \<Rightarrow> bool) \<Rightarrow> ('e \<Rightarrow> bool) \<Rightarrow> ('e \<Rightarrow> 'j option) \<Rightarrow> ('s, 'e, 'a) thread \<Rightarrow> bool" where
  "needs_flag flag guarded starts t \<longleftrightarrow> (\<exists>x. t = Done x) \<or> \<not> released flag guarded starts False t"

lemma always_step:
  assumes "system_step code arrives starts S S'"
    and "\<And>j. always (P j) (code j)"
    and "\<And>i g. goroutines S i = Some g \<Longrightarrow> always (P (job g)) (rest g)"
    and "goroutines S' i = Some g"
  shows "always (P (job g)) (rest g)"
  using assms(1)
proof cases
  case (arrival j l)
  then show ?thesis using assms(2-4) by (auto split: if_splits)
next
  case (question l h f)
  then show ?thesis using assms(3)[OF question(2)] assms(3,4) by (auto split: if_splits)
next
  case (event l h ev t)
  then show ?thesis using assms(3)[OF event(2)] assms(3,4) by (auto split: if_splits)
next
  case (go_statement l h ev t j l')
  then show ?thesis using assms(3)[OF go_statement(2)] assms(2,3,4) by (auto split: if_splits)
next
  case (critical l h f k)
  then show ?thesis using assms(3)[OF critical(2)] assms(3,4) by (auto split: if_splits)
qed

lemma always_steps:
  assumes "(system_step code arrives starts)\<^sup>*\<^sup>* (idle_system s) S"
    and "\<And>j. always (P j) (code j)" and "goroutines S i = Some g"
  shows "always (P (job g)) (rest g)"
  using assms(1,3)
proof (induction arbitrary: i g rule: rtranclp_induct)
  case base
  then show ?case by (simp add: idle_system_def)
next
  case (step y z)
  show ?case by (rule always_step[OF step.hyps(2) assms(2) step.IH step.prems])
qed

lemma one_at_a_time:
  assumes "disciplined code arrives flag guarded starts"
    and "(system_step code arrives starts)\<^sup>*\<^sup>* (idle_system s) S" and "\<not> flag s"
    and "\<And>j. B j \<Longrightarrow> always (needs_flag flag guarded starts) (code j)"
  shows "\<exists>own. (flag (mem S) \<longleftrightarrow> own \<noteq> None) \<and>
    (\<forall>i g. goroutines S i = Some g \<longrightarrow> B (job g) \<longrightarrow> (\<nexists>x. rest g = Done x) \<longrightarrow> own = Some i)"
proof -
  obtain own where own: "held_by flag guarded starts own S"
    using held_by_steps[OF assms(1-3)] by blast
  have "own = Some i" if g: "goroutines S i = Some g" "B (job g)" "\<nexists>x. rest g = Done x" for i g
  proof -
    have "always (\<lambda>t. B j \<longrightarrow> needs_flag flag guarded starts t) (code j)" for j
      using assms(4)[of j] by (cases "B j") (auto intro: always_True)
    then have "always (\<lambda>t. B (job g) \<longrightarrow> needs_flag flag guarded starts t) (rest g)"
      by (rule always_steps[OF assms(2) _ g(1)])
    then have "\<not> released flag guarded starts False (rest g)" using g(2,3) by (auto dest: always_now simp: needs_flag_def)
    moreover have "released flag guarded starts (own = Some i) (rest g)" using own g(1) by (simp add: held_by_def)
    ultimately show ?thesis by (cases "own = Some i") auto
  qed
  then show ?thesis using own unfolding held_by_def by blast
qed

end
