(* ===== verification/Retriever_Threads.thy ===== *)
theory Retriever_Threads
  imports Retriever Interleaving
begin

text \<open>
  The programs of the retriever as threads, which show each of their sections: the same code, statement by
  statement, and the lemma of each says that it denotes the program of \<open>Retriever\<close> whatever the other
  goroutines do. The environment's \<open>others\<close> plays no role in a thread.
\<close>

named_theorems denotes \<open>the program a thread stands for\<close>

type_synonym ('tv, 'a) rthread = "('tv cachedCredentialRetriever, event, 'a) thread"

section \<open>Calls to the outside and to the caches\<close>

definition t_Now :: "('reg, 'key, 'tv) renv \<Rightarrow> ('tv, time) rthread" where
  "t_Now env = t_ask (clock env)"

definition t_read :: "('tv cachedCredentialRetriever \<Rightarrow> 'a) \<Rightarrow> ('tv, 'a) rthread" where
  "t_read f = t_section (\<lambda>s. (f s, s))"

definition t_eviction :: "string \<Rightarrow> cacheEntry \<Rightarrow> ('tv, unit) rthread" where
  "t_eviction key entry = t_emit (Inc ''pod_identity_cache_state'' [''evicted''])"

primrec t_call_back :: "callback list \<Rightarrow> ('tv, unit) rthread" where
  "t_call_back [] = Done ()"
| "t_call_back (cb # cbs) =
     tbind (case cb of Eviction key entry \<Rightarrow> t_eviction key entry | Renewal _ _ \<Rightarrow> Done ()) (\<lambda>_. t_call_back cbs)"

definition t_cache_Get :: "('reg, 'key, 'tv) renv \<Rightarrow> string \<Rightarrow> ('tv, cacheEntry option) rthread" where
  "t_cache_Get env k = tbind (t_Now env) (\<lambda>t. t_read (\<lambda>s. cache_Get t (internalCache s) k))"

definition t_cache_Delete :: "string \<Rightarrow> ('tv, unit) rthread" where
  "t_cache_Delete k =
     tbind (t_section (\<lambda>s. let (c, cbs) = Delete (internalCache s) k in (cbs, s\<lparr>internalCache := c\<rparr>))) t_call_back"

definition t_cache_Set ::
  "('reg, 'key, 'tv) renv \<Rightarrow> string \<Rightarrow> cacheEntry \<Rightarrow> duration \<Rightarrow> duration \<Rightarrow> ('tv, unit) rthread" where
  "t_cache_Set env k v refresh expire =
     tbind (t_Now env) (\<lambda>te. tbind (t_Now env) (\<lambda>tr.
     tbind (t_section (\<lambda>s. let (c, cbs) = SetWithRefreshExpire te tr (internalCache s) k v refresh expire
                           in (cbs, s\<lparr>internalCache := c\<rparr>))) t_call_back))"

definition t_cache_Modify ::
  "('reg, 'key, 'tv) renv \<Rightarrow> string \<Rightarrow> (cacheEntry \<Rightarrow> cacheEntry) \<Rightarrow> ('tv, unit) rthread" where
  "t_cache_Modify env k f =
     tbind (t_Now env) (\<lambda>t. t_section (\<lambda>s. ((), s\<lparr>internalCache := fst (Modify t (internalCache s) k f)\<rparr>)))"

definition t_active_Get :: "('reg, 'key, 'tv) renv \<Rightarrow> string \<Rightarrow> ('tv, goerr option option) rthread" where
  "t_active_Get env k = tbind (t_Now env) (\<lambda>t. t_read (\<lambda>s. cache_Get t (internalActiveRequestCache s) k))"

definition t_active_Add :: "('reg, 'key, 'tv) renv \<Rightarrow> string \<Rightarrow> ('tv, unit) rthread" where
  "t_active_Add env k =
     tbind (t_Now env) (\<lambda>tg. tbind (t_Now env) (\<lambda>te. tbind (t_Now env) (\<lambda>tr.
     t_section (\<lambda>s. ((), s\<lparr>internalActiveRequestCache :=
       fst (cache_Add tg te tr (internalActiveRequestCache s) k None)\<rparr>)))))"

definition t_active_Delete :: "string \<Rightarrow> ('tv, unit) rthread" where
  "t_active_Delete k =
     t_section (\<lambda>s. ((), s\<lparr>internalActiveRequestCache := fst (Delete (internalActiveRequestCache s) k)\<rparr>))"

section \<open>The token validator's slot\<close>

definition t_tryInit :: "('tv, unit) rthread" where
  "t_tryInit =
     tbind (t_section (\<lambda>s. if tvInitInFlight s then (False, s) else (True, s\<lparr>tvInitInFlight := True\<rparr>)))
       (\<lambda>swapped. if \<not> swapped then Done () else t_emit StartTokenValidatorInit)"

definition t_tvInit :: "(nat \<Rightarrow> goerr + 'tv) \<Rightarrow> ('tv, unit) rthread" where
  "t_tvInit NewTokenValidator =
     tbind (t_ask NewTokenValidator) (\<lambda>r.
     tbind (case r of
              Inl err \<Rightarrow> Done ()
            | Inr newTv \<Rightarrow> t_section (\<lambda>s. ((), s\<lparr>tokenValidator := Some newTv\<rparr>)))
       (\<lambda>_. t_section (\<lambda>s. ((), s\<lparr>tvInitInFlight := False\<rparr>))))"

section \<open>A request\<close>

definition t_ttl :: "('reg, 'key, 'tv) renv \<Rightarrow> cacheEntry \<Rightarrow> ('tv, duration \<times> bool) rthread" where
  "t_ttl env e =
     tbind (t_Now env) (\<lambda>now. tbind (t_read minCredentialTtl) (\<lambda>minTtl.
     let credsDuration = time_Sub (CredsExpiration (entry_credentials e)) now
     in Done (credsDuration, credsDuration > minTtl)))"

definition t_inc :: "string \<Rightarrow> ('tv, unit) rthread" where
  "t_inc result = t_emit (Inc ''pod_identity_local_validation'' [result])"

definition t_validator ::
  "('reg, 'key, 'tv) renv \<Rightarrow> 'tv \<Rightarrow> EksCredentialsRequest \<Rightarrow> ('tv, goerr option) rthread" where
  "t_validator env tv request =
     tbind (t_emit (CallValidator request)) (\<lambda>_. t_ask (\<lambda>n. validator env n tv request))"

definition t_tryServing ::
  "('reg, 'key, 'tv) renv \<Rightarrow> string \<Rightarrow> EksCredentialsRequest \<Rightarrow> ('tv, EksCredentialsResponse option) rthread" where
  "t_tryServing env podUID request =
     tbind (t_cache_Get env podUID) (\<lambda>got.
     case got of
       None \<Rightarrow> Done None
     | Some val \<Rightarrow>
         tbind (t_ttl env val) (\<lambda>(_, withinTtl).
         if \<not> withinTtl then tbind (t_cache_Delete podUID) (\<lambda>_. Done None)
         else if ServiceAccountToken (originatingRequest val) = ServiceAccountToken request
         then Done (Some (entry_credentials val))
         else
           tbind (t_read tokenValidator) (\<lambda>slot.
           case slot of
             None \<Rightarrow> tbind t_tryInit (\<lambda>_. tbind (t_inc ''skipped'') (\<lambda>_. Done None))
           | Some tv \<Rightarrow>
               tbind (t_validator env tv request) (\<lambda>err.
               case err of
                 Some e \<Rightarrow> tbind (t_inc ''failure'') (\<lambda>_. Done None)
               | None \<Rightarrow>
                   tbind (t_cache_Modify env podUID (\<lambda>e. e\<lparr>originatingRequest := request\<rparr>)) (\<lambda>_.
                   tbind (t_inc ''success'') (\<lambda>_. Done (Some (entry_credentials val))))))))"

definition t_wait :: "('reg, 'key, 'tv) renv \<Rightarrow> string \<Rightarrow> nat \<Rightarrow> ('tv, bool) rthread" where
  "t_wait env token attempt =
     tbind (t_active_Get env token) (\<lambda>active.
     if active = None then Done False
     else
       tbind (if attempt < defaultActiveRequestRetries then t_emit (Slept defaultActiveRequestWaitTime) else Done ())
         (\<lambda>_. Done True))"

definition t_fetch ::
  "('reg, 'key, 'tv) renv \<Rightarrow> EksCredentialsRequest \<Rightarrow> ('tv, (goerr + cacheEntry) go) rthread" where
  "t_fetch env request =
     tbind (t_emit (CallDelegate request)) (\<lambda>_. tbind (t_ask (\<lambda>n. delegate env n request)) (\<lambda>answer.
     Done (case answer of
             Panic \<Rightarrow> Panic
           | Ret (Inl err) \<Rightarrow> Ret (Inl err)
           | Ret (Inr (iamCredentials, associationId)) \<Rightarrow>
               Ret (Inr \<lparr>requestLogCtx = associationId, originatingRequest = request,
                         entry_credentials = iamCredentials\<rparr>))))"

definition t_callDelegate ::
  "('reg, 'key, 'tv) renv \<Rightarrow> EksCredentialsRequest \<Rightarrow> ('tv, (goerr + cacheEntry) go) rthread" where
  "t_callDelegate env request =
     (case getPodUIDfromServiceAccountToken (jwt env) (ServiceAccountToken request) of
        Inl err \<Rightarrow> Done (Ret (Inl (pod_uid_error err)))
      | Inr podUID \<Rightarrow>
          tbind (t_fetch env request) (\<lambda>fetched.
          case fetched of
            Panic \<Rightarrow> Done Panic
          | Ret (Inl err) \<Rightarrow> Done (Ret (Inl (Wrapped [Txt ''error getting credentials to cache: ''] err [])))
          | Ret (Inr newCacheEntry) \<Rightarrow>
              tbind (t_ttl env newCacheEntry) (\<lambda>(credsDuration, credentialsValid).
              if \<not> credentialsValid
              then Done (Ret (Inl (Plain
                [Txt ''fetched credentials are expired or will expire within the next '',
                 Sec credsDuration, Txt '' seconds''])))
              else
                tbind (t_read credentialsRenewalTtl) (\<lambda>renewalTtl.
                tbind (t_cache_Set env podUID newCacheEntry (minDuration credsDuration renewalTtl) credsDuration)
                  (\<lambda>_. Done (Ret (Inr newCacheEntry)))))))"

primrec t_loop ::
  "('reg, 'key, 'tv) renv \<Rightarrow> string \<Rightarrow> EksCredentialsRequest \<Rightarrow> nat \<Rightarrow> ('tv, EksCredentialsResponse option) rthread" where
  "t_loop env podUID request 0 = Done None"
| "t_loop env podUID request (Suc left) =
     tbind (t_tryServing env podUID request) (\<lambda>resp.
     case resp of
       Some r \<Rightarrow> Done (Some r)
     | None \<Rightarrow>
         tbind (t_wait env (ServiceAccountToken request) (defaultActiveRequestRetries - left)) (\<lambda>wait.
         if \<not> wait then Done None else t_loop env podUID request left))"

definition t_miss ::
  "('reg, 'key, 'tv) renv \<Rightarrow> EksCredentialsRequest \<Rightarrow> ('tv, (goerr + EksCredentialsResponse) go) rthread" where
  "t_miss env request =
     tbind (t_active_Get env (ServiceAccountToken request)) (\<lambda>_.
     tbind (t_active_Add env (ServiceAccountToken request)) (\<lambda>_.
     tbind (t_emit (Inc ''pod_identity_cache_state'' [''miss''])) (\<lambda>_.
     tbind (t_callDelegate env request) (\<lambda>fetched.
     tbind (t_active_Delete (ServiceAccountToken request)) (\<lambda>_.
     Done (case fetched of
             Panic \<Rightarrow> Panic
           | Ret (Inl err) \<Rightarrow> Ret (Inl err)
           | Ret (Inr entry) \<Rightarrow> Ret (Inr (entry_credentials entry))))))))"

definition t_GetIamCredentials ::
  "('reg, 'key, 'tv) renv \<Rightarrow> EksCredentialsRequest option \<Rightarrow> ('tv, (goerr + EksCredentialsResponse) go) rthread" where
  "t_GetIamCredentials env request =
     (case request of
        None \<Rightarrow>
          Done (Ret (Inl (Plain [Txt ''request to fetch credentials is empty, this is most likely a bug''])))
      | Some req \<Rightarrow>
          if ServiceAccountToken req = ''''
          then Done (Ret (Inl (Plain
            [Txt ''service account is empty, cannot fetch credentials without a valid one''])))
          else
            (case getPodUIDfromServiceAccountToken (jwt env) (ServiceAccountToken req) of
               Inl err \<Rightarrow> Done (Ret (Inl (pod_uid_error err)))
             | Inr podUID \<Rightarrow>
                 tbind (t_loop env podUID req (Suc defaultActiveRequestRetries)) (\<lambda>served.
                 case served of Some resp \<Rightarrow> Done (Ret (Inr resp)) | None \<Rightarrow> t_miss env req)))"

section \<open>Renewal and the sweep\<close>

definition t_keep :: "('reg, 'key, 'tv) renv \<Rightarrow> string \<Rightarrow> cacheEntry \<Rightarrow> ('tv, unit) rthread" where
  "t_keep env key entry =
     tbind (t_Now env) (\<lambda>now. tbind (t_read minCredentialTtl) (\<lambda>minTtl.
     let oldCredsDuration = time_Sub (CredsExpiration (entry_credentials entry)) now
     in if oldCredsDuration > minTtl
        then
          tbind (t_read retryInterval) (\<lambda>retry. tbind (t_read maxRetryJitter) (\<lambda>maxJitter.
          tbind (t_ask (\<lambda>i. rnd env i mod maxJitter)) (\<lambda>jitter.
          t_cache_Set env key entry (minDuration oldCredsDuration (int64 (retry + jitter))) oldCredsDuration)))
        else Done ()))"

definition t_renewal :: "('reg, 'key, 'tv) renv \<Rightarrow> string \<Rightarrow> cacheEntry \<Rightarrow> ('tv, unit go) rthread" where
  "t_renewal env key entry =
     tbind (t_ask (limiter_Allow env)) (\<lambda>allowed.
     if allowed then
       tbind (t_ask (limiter_Wait env)) (\<lambda>waited.
       case waited of
         Some err \<Rightarrow> Done (Ret ())
       | None \<Rightarrow>
           tbind (t_callDelegate env (originatingRequest entry)) (\<lambda>fetched.
           case fetched of
             Panic \<Rightarrow> Done Panic
           | Ret (Inr _) \<Rightarrow>
               tbind (t_emit (Inc ''pod_identity_cache_state'' [''hit''])) (\<lambda>_. Done (Ret ()))
           | Ret (Inl err) \<Rightarrow>
               let (errCode, isIrrecoverableError) = IsIrrecoverableApiError err in
               if isIrrecoverableError then
                 tbind (t_emit (Inc ''pod_identity_cache_errors'' [''NonRecoverable'', errCode])) (\<lambda>_.
                 case getPodUIDfromServiceAccountToken (jwt env) (ServiceAccountToken (originatingRequest entry)) of
                   Inl err' \<Rightarrow> Done (Ret ())
                 | Inr podUID \<Rightarrow> tbind (t_cache_Delete podUID) (\<lambda>_. Done (Ret ())))
               else
                 tbind (t_emit (Inc ''pod_identity_cache_errors'' [''Recoverable'', errCode])) (\<lambda>_.
                 tbind (t_keep env key entry) (\<lambda>_. Done (Ret ())))))
     else tbind (t_keep env key entry) (\<lambda>_. Done (Ret ())))"

primrec t_refresh :: "('reg, 'key, 'tv) renv \<Rightarrow> callback list \<Rightarrow> ('tv, unit go) rthread" where
  "t_refresh env [] = Done (Ret ())"
| "t_refresh env (cb # cbs) =
     tbind (case cb of Renewal key entry \<Rightarrow> t_renewal env key entry | Eviction _ _ \<Rightarrow> Done (Ret ()))
       (\<lambda>r. case r of Panic \<Rightarrow> Done Panic | Ret _ \<Rightarrow> t_refresh env cbs)"

definition t_sweep ::
  "('reg, 'key, 'tv) renv \<Rightarrow> ((string \<rightharpoonup> cacheEntry Item) \<Rightarrow> string list)
   \<Rightarrow> ((string \<rightharpoonup> cacheEntry Item) \<Rightarrow> string list) \<Rightarrow> ('tv, unit go) rthread" where
  "t_sweep env ord1 ord2 =
     tbind (t_Now env) (\<lambda>t. tbind (t_read (due_refresh ord1 t)) (\<lambda>due.
     tbind (t_refresh env due) (\<lambda>r.
     case r of
       Panic \<Rightarrow> Done Panic
     | Ret _ \<Rightarrow>
         tbind (t_section (evict_expired ord2 t)) (\<lambda>cbs. tbind (t_call_back cbs) (\<lambda>_. Done (Ret ()))))))"

section \<open>The threads are the programs\<close>

lemma denotes_calls [denotes]:
  "interp (others env) (t_Now env) = time_Now env"
  "interp (others env) (t_read f) = read_shared env f"
  "interp (others env) (t_call_back cbs) = call_back cbs"
  "interp (others env) (t_inc r) = inc_local_validation r"
  "interp (others env) (t_validator env tv req) = call_validator env tv req"
  by (simp_all add: t_Now_def time_Now_def t_read_def read_shared_def t_inc_def inc_local_validation_def
      t_validator_def call_validator_def)
    (induction cbs; simp add: t_eviction_def onCredentialEviction_def split: callback.split)

lemma denotes_caches [denotes]:
  "interp (others env) (t_cache_Get env k) = internalCache_Get env k"
  "interp (others env) (t_cache_Delete k) = internalCache_Delete env k"
  "interp (others env) (t_cache_Set env k v r x) = internalCache_Set env k v r x"
  "interp (others env) (t_cache_Modify env k f) = internalCache_Modify env k f"
  "interp (others env) (t_active_Get env tok) = activeRequests_Get env tok"
  "interp (others env) (t_active_Add env tok) = activeRequests_Add env tok"
  "interp (others env) (t_active_Delete tok) = activeRequests_Delete env tok"
  by (simp_all add: denotes t_cache_Get_def internalCache_Get_def t_cache_Delete_def internalCache_Delete_def
      t_cache_Set_def internalCache_Set_def t_cache_Modify_def internalCache_Modify_def t_active_Get_def
      activeRequests_Get_def t_active_Add_def activeRequests_Add_def t_active_Delete_def activeRequests_Delete_def)

lemma denotes_slot [denotes]:
  "interp (others env) t_tryInit = tryInitTokenValidator env"
  "interp (others env) (t_tvInit new) = tvInit_goroutine env new"
  by (auto simp: t_tryInit_def tryInitTokenValidator_def t_tvInit_def tvInit_goroutine_def
      intro!: arg_cong2[where f = State_Monad.bind] split: sum.split)

lemma denotes_serving [denotes]:
  "interp (others env) (t_ttl env e) = credentialsInEntryWithinValidTtl env e"
  "interp (others env) (t_fetch env req) = fetchCredentialsFromDelegate env req"
  "interp (others env) (t_wait env tok i) = waitForActiveRequest env tok i"
  by (simp_all add: denotes interp_splits Let_def t_ttl_def credentialsInEntryWithinValidTtl_def t_fetch_def
      fetchCredentialsFromDelegate_def t_wait_def waitForActiveRequest_def cong: if_cong)

lemma denotes_tryServing [denotes]:
  "interp (others env) (t_tryServing env podUID req) = tryServingFromCache env podUID req"
  by (simp add: denotes interp_splits t_tryServing_def tryServingFromCache_def
      cong: if_cong option.case_cong)

lemma denotes_callDelegate [denotes]:
  "interp (others env) (t_callDelegate env req) = callDelegateAndCache env req"
  by (simp add: denotes interp_splits t_callDelegate_def callDelegateAndCache_def cong: if_cong sum.case_cong go.case_cong)

lemma denotes_loop [denotes]: "interp (others env) (t_loop env podUID req left) = serve_loop env podUID req left"
  by (induction left) (simp_all add: denotes interp_splits cong: if_cong option.case_cong)

lemma denotes_miss [denotes]: "interp (others env) (t_miss env req) = fetch_on_miss env req"
  by (simp add: denotes t_miss_def fetch_on_miss_def)

lemma denotes_GetIamCredentials [denotes]:
  "interp (others env) (t_GetIamCredentials env request) = GetIamCredentials env request"
  by (simp add: denotes interp_splits t_GetIamCredentials_def GetIamCredentials_def
      del: t_loop.simps serve_loop.simps cong: if_cong option.case_cong sum.case_cong)

lemma denotes_keep [denotes]: "interp (others env) (t_keep env k e) = keep_old_credentials env k e"
  by (simp add: denotes interp_splits Let_def t_keep_def keep_old_credentials_def Int63n_def cong: if_cong)

lemma denotes_renewal [denotes]: "interp (others env) (t_renewal env k e) = onCredentialRenewal env k e"
  by (simp add: denotes interp_splits Let_def t_renewal_def onCredentialRenewal_def
      cong: if_cong option.case_cong sum.case_cong go.case_cong)

lemma denotes_refresh [denotes]: "interp (others env) (t_refresh env cbs) = run_refresh env cbs"
  by (induction cbs) (simp_all add: denotes interp_splits split: callback.split cong: go.case_cong)

lemma denotes_sweep [denotes]: "interp (others env) (t_sweep env ord1 ord2) = janitor_sweep env ord1 ord2"
  by (simp add: denotes interp_splits t_sweep_def janitor_sweep_def cong: go.case_cong)

end
