(* ===== verification/Retriever_Laws.thy ===== *)
theory Retriever_Laws
  imports Retriever_Threads
begin

text \<open>
  The protocol the retriever's goroutines follow on the memory they share, its invariant, and the proof that
  every program of the retriever follows it.
\<close>

section \<open>Provenance\<close>

text \<open>
  A token is accepted when the delegate answered a request that carried it with credentials, or
  the token validator passed it. Credentials are issued for a pod when the delegate returned them
  for a token that names the pod.
\<close>

definition names_pod :: "('reg, 'key, 'tv) renv \<Rightarrow> string \<Rightarrow> string \<Rightarrow> bool" where
  "names_pod env token uid \<longleftrightarrow> getPodUIDfromServiceAccountToken (jwt env) token = Inr uid"

definition accepted :: "('reg, 'key, 'tv) renv \<Rightarrow> string \<Rightarrow> bool" where
  "accepted env token \<longleftrightarrow>
     (\<exists>n req r. ServiceAccountToken req = token \<and> delegate env n req = Ret (Inr r)) \<or>
     (\<exists>n tv req. ServiceAccountToken req = token \<and> validator env n tv req = None)"

definition issued :: "('reg, 'key, 'tv) renv \<Rightarrow> string \<Rightarrow> EksCredentialsResponse \<Rightarrow> bool" where
  "issued env uid creds \<longleftrightarrow>
     (\<exists>n req a. delegate env n req = Ret (Inr (creds, a)) \<and> names_pod env (ServiceAccountToken req) uid)"

definition genuine :: "('reg, 'key, 'tv) renv \<Rightarrow> string \<Rightarrow> cacheEntry \<Rightarrow> bool" where
  "genuine env k e \<longleftrightarrow>
     issued env k (entry_credentials e) \<and>
     names_pod env (ServiceAccountToken (originatingRequest e)) k \<and>
     accepted env (ServiceAccountToken (originatingRequest e))"

lemma accepted_by_validator: "validator env n tv req = None \<Longrightarrow> accepted env (ServiceAccountToken req)"
  unfolding accepted_def by blast

lemma accepted_by_delegate: "delegate env n req = Ret (Inr r) \<Longrightarrow> accepted env (ServiceAccountToken req)"
  unfolding accepted_def by blast

text \<open>
  A panic can only come from the delegate: on the request at hand, or, in a renewal, on a request whose token was accepted before.
\<close>

definition delegate_panics :: "('reg, 'key, 'tv) renv \<Rightarrow> bool" where
  "delegate_panics env \<longleftrightarrow> (\<exists>n req. delegate env n req = Panic)"

definition panics_on :: "('reg, 'key, 'tv) renv \<Rightarrow> nat \<Rightarrow> EksCredentialsRequest \<Rightarrow> bool" where
  "panics_on env n req \<longleftrightarrow> (\<exists>k \<ge> n. delegate env k req = Panic)"

definition renewal_panics :: "('reg, 'key, 'tv) renv \<Rightarrow> nat \<Rightarrow> bool" where
  "renewal_panics env n \<longleftrightarrow> (\<exists>req. panics_on env n req \<and> accepted env (ServiceAccountToken req))"

lemma panics_delegate: "panics_on env n req \<Longrightarrow> delegate_panics env" "renewal_panics env n \<Longrightarrow> delegate_panics env"
  by (auto simp: delegate_panics_def panics_on_def renewal_panics_def)

text \<open>Longer to live than the minimum, at a reading of the clock made at tick \<open>n\<close> or later.\<close>

definition fresh_since :: "('reg, 'key, 'tv) renv \<Rightarrow> nat \<Rightarrow> EksCredentialsResponse \<Rightarrow> bool" where
  "fresh_since env n creds \<longleftrightarrow> (\<exists>k \<ge> n. clock env k + defaultMinCredentialTtl < CredsExpiration creds)"

section \<open>The protocol\<close>

inductive retriever_step ::
  "('reg, 'key, 'tv) renv \<Rightarrow> 'tv cachedCredentialRetriever \<Rightarrow> 'tv cachedCredentialRetriever \<Rightarrow> bool"
  for env where
  step_put: "genuine env k e \<Longrightarrow>
    retriever_step env s
      (s\<lparr>internalCache := fst (SetWithRefreshExpire te tr (internalCache s) k e r x)\<rparr>)"
| step_remove: "retriever_step env s (s\<lparr>internalCache := fst (Delete (internalCache s) k)\<rparr>)"
| step_adopt: "names_pod env (ServiceAccountToken req) k \<Longrightarrow> accepted env (ServiceAccountToken req) \<Longrightarrow>
    retriever_step env s
      (s\<lparr>internalCache := fst (Modify t (internalCache s) k (\<lambda>e. e\<lparr>originatingRequest := req\<rparr>))\<rparr>)"
| step_sweep: "retriever_step env s (s\<lparr>internalCache := fst (evict_loop now ks (internalCache s))\<rparr>)"
| step_request_begins: "retriever_step env s
    (s\<lparr>internalActiveRequestCache := fst (cache_Add tg te tr (internalActiveRequestCache s) tok None)\<rparr>)"
| step_request_ends: "retriever_step env s
    (s\<lparr>internalActiveRequestCache := fst (Delete (internalActiveRequestCache s) tok)\<rparr>)"
| step_init_flag: "retriever_step env s (s\<lparr>tvInitInFlight := b\<rparr>)"
| step_init_store: "retriever_step env s (s\<lparr>tokenValidator := Some tv\<rparr>)"

inductive_cases retriever_stepE: "retriever_step env s t"

definition retriever_inv :: "('reg, 'key, 'tv) renv \<Rightarrow> 'tv cachedCredentialRetriever \<Rightarrow> bool" where
  "retriever_inv env s \<longleftrightarrow>
     (\<forall>k e. stored (internalCache s) k = Some e \<longrightarrow> genuine env k e) \<and>
     onEvicted (internalCache s) = Some Eviction \<and> onRefresh (internalCache s) = Some Renewal \<and>
     minCredentialTtl s = defaultMinCredentialTtl"

lemma retriever_inv_new: "retriever_inv env (newCachedCredentialRetriever opts)"
  by (simp add: retriever_inv_def newCachedCredentialRetriever_def OnEvicted_def OnRefresh_def stored_def)

lemma retriever_inv_step:
  assumes "retriever_step env s t" and "retriever_inv env s"
  shows "retriever_inv env t"
proof -
  have all: "\<And>k e. stored (internalCache s) k = Some e \<Longrightarrow> genuine env k e"
    using assms(2) by (simp add: retriever_inv_def)
  show ?thesis
    using assms(1)
  proof cases
    case (step_put k e te tr r x)
    then show ?thesis
      using assms(2) es.all_put[of "internalCache s" "genuine env" k e te tr r x]
      by (auto simp: retriever_inv_def cache_frame)
  next
    case (step_remove k)
    then show ?thesis
      using assms(2) es.all_remove[of "internalCache s" "genuine env" k]
      by (auto simp: retriever_inv_def cache_frame)
  next
    case (step_adopt req k tm)
    have "genuine env k (w\<lparr>originatingRequest := req\<rparr>)" if "genuine env k w" for w
      using that step_adopt by (simp add: genuine_def)
    then show ?thesis
      using assms(2) step_adopt
        es.all_modify[of "internalCache s" "genuine env" tm k "\<lambda>e. e\<lparr>originatingRequest := req\<rparr>"]
      by (auto simp: retriever_inv_def cache_frame)
  next
    case (step_sweep now ks)
    then show ?thesis
      using assms(2) es.all_sweep[of "internalCache s" "genuine env" now ks]
      by (auto simp: retriever_inv_def cache_frame)
  qed (use assms(2) in \<open>simp_all add: retriever_inv_def\<close>)
qed

interpretation rp: step_invariant
  "\<lambda>s. \<exists>opts :: (unit, 'tv) CachedCredentialRetrieverOpts. s = newCachedCredentialRetriever opts"
  "retriever_step env" "retriever_inv env"
  for env :: "('reg, 'key, 'tv) renv"
  by unfold_locales (auto intro: retriever_inv_new retriever_inv_step)

section \<open>Every section of every program follows the protocol\<close>

abbreviation keeps ::
  "('reg, 'key, 'tv) renv \<Rightarrow> nat \<Rightarrow> ('tv, 'a) rthread \<Rightarrow> ('a \<Rightarrow> bool) \<Rightarrow> bool" where
  "keeps env \<equiv> guarantees (retriever_step env) (retriever_inv env)"

lemma keeps_now: "keeps env n (t_Now env) (\<lambda>t. \<exists>k \<ge> n. t = clock env k)"
  unfolding t_Now_def by (rule g_ask) auto

lemma keeps_read: "(\<And>s. retriever_inv env s \<Longrightarrow> Q (f s)) \<Longrightarrow> keeps env n (t_read f) Q"
  unfolding t_read_def by (rule g_section) simp

lemma keeps_locked:
  "(\<And>s. retriever_inv env s \<Longrightarrow> (retriever_step env)\<^sup>*\<^sup>* s (snd (f s))) \<Longrightarrow> keeps env n (t_section f) (\<lambda>_. True)"
  by (rule g_section) simp

lemma keeps_emit: "keeps env n (t_emit ev) (\<lambda>_. True)"
  by (rule g_emit) simp

lemma keeps_call_back: "keeps env n (t_call_back cbs) (\<lambda>_. True)"
  by (induction cbs) (auto simp: t_eviction_def intro!: g_bind[where R = "\<lambda>_. True"] keeps_emit split: callback.split)

lemma keeps_Get: "keeps env n (t_cache_Get env k) (\<lambda>r. \<forall>e. r = Some e \<longrightarrow> genuine env k e)"
  unfolding t_cache_Get_def
  by (rule g_bind[OF keeps_now], rule keeps_read) (auto simp: retriever_inv_def dest: es.lookup_stored)

lemma keeps_Delete: "keeps env n (t_cache_Delete k) (\<lambda>_. True)"
  unfolding t_cache_Delete_def
  by (rule g_bind[OF keeps_locked keeps_call_back]) (auto simp: case_prod_beta Let_def intro: step_remove)

lemma keeps_Set:
  assumes "genuine env k e"
  shows "keeps env n (t_cache_Set env k e r x) (\<lambda>_. True)"
  unfolding t_cache_Set_def
  by (rule g_bind[OF keeps_now], rule g_bind[OF keeps_now], rule g_bind[OF keeps_locked keeps_call_back])
    (auto simp: case_prod_beta Let_def intro: step_put assms)

lemma keeps_adopt:
  assumes "names_pod env (ServiceAccountToken req) k" and "accepted env (ServiceAccountToken req)"
  shows "keeps env n (t_cache_Modify env k (\<lambda>e. e\<lparr>originatingRequest := req\<rparr>)) (\<lambda>_. True)"
  unfolding t_cache_Modify_def
  by (rule g_bind[OF keeps_now], rule keeps_locked) (auto intro: step_adopt assms)

lemma keeps_active:
  "keeps env n (t_active_Get env tok) (\<lambda>_. True)"
  "keeps env n (t_active_Add env tok) (\<lambda>_. True)"
  "keeps env n (t_active_Delete tok) (\<lambda>_. True)"
  unfolding t_active_Get_def t_active_Add_def t_active_Delete_def
  by (auto intro!: g_bind[OF keeps_now] keeps_read keeps_locked r_into_rtranclp[where r = "retriever_step env"]
      intro: step_request_begins step_request_ends)

lemma keeps_tryInit: "keeps env n t_tryInit (\<lambda>_. True)"
  unfolding t_tryInit_def
  by (rule g_bind[OF keeps_locked]) (auto intro: step_init_flag keeps_emit)

lemma keeps_tvInit: "keeps env n (t_tvInit new) (\<lambda>_. True)"
  unfolding t_tvInit_def
  by (rule g_bind[OF g_ask[where Q = "\<lambda>_. True"]], simp,
      rule g_bind[where R = "\<lambda>_. True"], auto intro!: keeps_locked split: sum.split)
    (auto intro: step_init_store step_init_flag)

lemma keeps_ttl:
  "keeps env n (t_ttl env e) (\<lambda>(d, ok). ok \<longrightarrow> fresh_since env n (entry_credentials e))"
  unfolding t_ttl_def Let_def
proof (rule g_bind[OF keeps_now], rule g_bind[OF keeps_read])
  show "minCredentialTtl s = defaultMinCredentialTtl" if "retriever_inv env s" for s
    using that by (simp add: retriever_inv_def)
  fix t m
  assume "\<exists>k\<ge>n. t = clock env k" and m: "m = defaultMinCredentialTtl"
  moreover have "0 \<le> m" by (simp add: m defaultMinCredentialTtl_def Second_def)
  ultimately show "keeps env n
      (Done (time_Sub (CredsExpiration (entry_credentials e)) t,
             m < time_Sub (CredsExpiration (entry_credentials e)) t))
      (\<lambda>(d, ok). ok \<longrightarrow> fresh_since env n (entry_credentials e))"
    using time_Sub_gt[of m] by (auto simp: fresh_since_def)
qed

lemma keeps_inc: "keeps env n (t_inc r) (\<lambda>_. True)"
  unfolding t_inc_def by (rule keeps_emit)

lemma keeps_validator:
  "keeps env n (t_validator env tv req) (\<lambda>err. err = None \<longrightarrow> accepted env (ServiceAccountToken req))"
  unfolding t_validator_def
  by (rule g_bind[OF keeps_emit], rule g_ask) (auto intro: accepted_by_validator)

text \<open>What a response served to a request for a pod satisfies.\<close>

definition servable ::
  "('reg, 'key, 'tv) renv \<Rightarrow> nat \<Rightarrow> string \<Rightarrow> EksCredentialsRequest \<Rightarrow> EksCredentialsResponse \<Rightarrow> bool" where
  "servable env n podUID req resp \<longleftrightarrow>
     issued env podUID resp \<and> accepted env (ServiceAccountToken req) \<and> fresh_since env n resp"

lemma keeps_then_none:
  "keeps env n t (\<lambda>_. True) \<Longrightarrow> keeps env n (tbind t (\<lambda>_. Done None)) (\<lambda>r. \<forall>resp. r = Some resp \<longrightarrow> P resp)"
  by (erule g_bind) simp

text \<open>The local validation of a token that is not the one the cached entry was fetched with.\<close>

lemma keeps_local_validation:
  assumes pod: "names_pod env (ServiceAccountToken req) podUID"
    and val: "genuine env podUID val" "fresh_since env n (entry_credentials val)"
  shows "keeps env n
      (tbind (t_validator env tv req) (\<lambda>err.
       case err of
         Some e \<Rightarrow> tbind (t_inc ''failure'') (\<lambda>_. Done None)
       | None \<Rightarrow>
           tbind (t_cache_Modify env podUID (\<lambda>e. e\<lparr>originatingRequest := req\<rparr>)) (\<lambda>_.
           tbind (t_inc ''success'') (\<lambda>_. Done (Some (entry_credentials val))))))
      (\<lambda>r. \<forall>resp. r = Some resp \<longrightarrow> servable env n podUID req resp)"
proof -
  have "keeps env n
      (tbind (t_cache_Modify env podUID (\<lambda>e. e\<lparr>originatingRequest := req\<rparr>)) (\<lambda>_.
       tbind (t_inc ''success'') (\<lambda>_. Done (Some (entry_credentials val)))))
      (\<lambda>r. \<forall>resp. r = Some resp \<longrightarrow> servable env n podUID req resp)"
    if "accepted env (ServiceAccountToken req)"
    by (rule g_bind[OF keeps_adopt[OF pod that]], rule g_bind[OF keeps_inc])
      (use that val in \<open>auto simp: servable_def genuine_def\<close>)
  then show ?thesis
    by (intro g_bind[OF keeps_validator]) (auto intro: keeps_then_none[OF keeps_inc] split: option.split)
qed

lemma keeps_tryServing:
  assumes pod: "names_pod env (ServiceAccountToken req) podUID"
  shows "keeps env n (t_tryServing env podUID req)
    (\<lambda>r. \<forall>resp. r = Some resp \<longrightarrow> servable env n podUID req resp)"
  unfolding t_tryServing_def
proof (rule g_bind[OF keeps_Get], goal_cases)
  case (1 got)
  show ?case
  proof (cases got)
    case (Some val)
    have gen: "genuine env podUID val" using 1 Some by simp
    have skip: "keeps env n (tbind t_tryInit (\<lambda>_. tbind (t_inc ''skipped'') (\<lambda>_. Done None)))
        (\<lambda>r. \<forall>resp. r = Some resp \<longrightarrow> servable env n podUID req resp)"
      by (rule g_bind[OF keeps_tryInit]) (rule keeps_then_none[OF keeps_inc])
    have slot: "keeps env n (t_read tokenValidator) (\<lambda>_. True)" by (rule keeps_read) simp
    have hit: "servable env n podUID req (entry_credentials val)"
      if "fresh_since env n (entry_credentials val)"
        "ServiceAccountToken (originatingRequest val) = ServiceAccountToken req"
      using that gen by (simp add: servable_def genuine_def)
    show ?thesis
      unfolding Some option.case
      by (rule g_bind[OF keeps_ttl])
        (auto intro!: keeps_then_none[OF keeps_Delete] g_bind[OF slot] skip hit
          keeps_local_validation[OF pod gen] split: option.split)
  qed simp
qed

lemma keeps_wait: "keeps env n (t_wait env tok i) (\<lambda>_. True)"
  unfolding t_wait_def
  by (rule g_bind[OF keeps_active(1)]) (auto intro!: keeps_emit g_bind[where R = "\<lambda>_. True"])

lemma keeps_loop:
  assumes "names_pod env (ServiceAccountToken req) podUID"
  shows "keeps env n (t_loop env podUID req left)
    (\<lambda>r. \<forall>resp. r = Some resp \<longrightarrow> servable env n podUID req resp)"
proof (induction left)
  case (Suc left)
  show ?case
    unfolding t_loop.simps
    by (rule g_bind[OF keeps_tryServing[OF assms]])
      (auto intro!: g_bind[OF keeps_wait] Suc.IH split: option.split)
qed simp

lemma keeps_fetch:
  "keeps env n (t_fetch env req)
     (\<lambda>r. (r = Panic \<longrightarrow> panics_on env n req) \<and>
        (\<forall>e. r = Ret (Inr e) \<longrightarrow> originatingRequest e = req \<and>
           (\<exists>k a. delegate env k req = Ret (Inr (entry_credentials e, a)))))"
  unfolding t_fetch_def
  by (rule g_bind[OF keeps_emit], rule g_bind[OF g_ask[where Q = "\<lambda>r. \<exists>k \<ge> n. r = delegate env k req"]])
    (force simp: panics_on_def split: sum.splits go.splits)+

lemma keeps_callDelegate:
  "keeps env n (t_callDelegate env req)
    (\<lambda>r. (r = Panic \<longrightarrow> panics_on env n req) \<and>
       (\<forall>e. r = Ret (Inr e) \<longrightarrow>
          (\<exists>uid. names_pod env (ServiceAccountToken req) uid \<and> servable env n uid req (entry_credentials e))))"
proof (cases "getPodUIDfromServiceAccountToken (jwt env) (ServiceAccountToken req)")
  case (Inl err)
  then show ?thesis by (simp add: t_callDelegate_def)
next
  case (Inr uid)
  then have pod: "names_pod env (ServiceAccountToken req) uid" by (simp add: names_pod_def)
  show ?thesis
    unfolding t_callDelegate_def Inr sum.case
  proof (rule g_bind[OF keeps_fetch], goal_cases)
    case (1 fetched)
    consider "fetched = Panic" | (err) err where "fetched = Ret (Inl err)" | (Inr) e where "fetched = Ret (Inr e)"
      by (metis go.exhaust sum.exhaust)
    then show ?case
    proof cases
      case (Inr e)
      then obtain k a where e: "originatingRequest e = req" "delegate env k req = Ret (Inr (entry_credentials e, a))"
        using 1 by auto
      then have acc: "accepted env (ServiceAccountToken req)" by (blast intro: accepted_by_delegate)
      have iss: "issued env uid (entry_credentials e)" using e pod unfolding issued_def by blast
      have gen: "genuine env uid e" using acc iss pod by (simp add: genuine_def e)
      have ttl: "keeps env n (t_read credentialsRenewalTtl) (\<lambda>_. True)" by (rule keeps_read) simp
      have "\<exists>uid. names_pod env (ServiceAccountToken req) uid \<and> servable env n uid req (entry_credentials e)"
        if "fresh_since env n (entry_credentials e)"
        using that pod acc iss unfolding servable_def by blast
      then show ?thesis
        unfolding Inr sum.case go.case
        by (intro g_bind[OF keeps_ttl]) (auto intro!: g_bind[OF ttl] g_bind[OF keeps_Set[OF gen]], blast)
    qed (use 1 in simp_all)
  qed
qed

lemma keeps_miss:
  "keeps env n (t_miss env req)
    (\<lambda>r. (r = Panic \<longrightarrow> panics_on env n req) \<and>
       (\<forall>resp. r = Ret (Inr resp) \<longrightarrow>
          (\<exists>uid. names_pod env (ServiceAccountToken req) uid \<and> servable env n uid req resp)))"
  unfolding t_miss_def
  by (rule g_bind[OF keeps_active(1)], rule g_bind[OF keeps_active(2)], rule g_bind[OF keeps_emit],
      rule g_bind[OF keeps_callDelegate], rule g_bind[OF keeps_active(3)])
    (auto split: sum.splits go.splits)

lemma keeps_GetIamCredentials:
  "keeps env n (t_GetIamCredentials env request)
    (\<lambda>r. (r = Panic \<longrightarrow> (\<exists>req. request = Some req \<and> panics_on env n req)) \<and>
       (\<forall>resp. r = Ret (Inr resp) \<longrightarrow>
          (\<exists>req uid. request = Some req \<and> names_pod env (ServiceAccountToken req) uid \<and>
             servable env n uid req resp)))"
proof (cases request)
  case None
  then show ?thesis by (simp add: t_GetIamCredentials_def)
next
  case (Some req)
  show ?thesis
  proof (cases "getPodUIDfromServiceAccountToken (jwt env) (ServiceAccountToken req)")
    case (Inl err)
    then show ?thesis by (simp add: t_GetIamCredentials_def Some)
  next
    case (Inr uid)
    then have pod: "names_pod env (ServiceAccountToken req) uid" by (simp add: names_pod_def)
    have "keeps env n
        (tbind (t_loop env uid req (Suc defaultActiveRequestRetries)) (\<lambda>served.
         case served of Some resp \<Rightarrow> Done (Ret (Inr resp)) | None \<Rightarrow> t_miss env req))
        (\<lambda>r. (r = Panic \<longrightarrow> panics_on env n req) \<and>
           (\<forall>resp. r = Ret (Inr resp) \<longrightarrow> (\<exists>uid. names_pod env (ServiceAccountToken req) uid \<and> servable env n uid req resp)))"
      by (rule g_bind[OF keeps_loop[OF pod]]) (use pod keeps_miss in \<open>auto split: option.split\<close>)
    then show ?thesis by (simp add: t_GetIamCredentials_def Some Inr del: t_loop.simps)
  qed
qed

lemma keeps_keep:
  assumes gen: "genuine env k e"
  shows "keeps env n (t_keep env k e) (\<lambda>_. True)"
proof -
  have read: "keeps env n (t_read f) (\<lambda>_. True)" for f :: "'c cachedCredentialRetriever \<Rightarrow> duration"
    by (rule keeps_read) simp
  show ?thesis
    unfolding t_keep_def Let_def
    by (rule g_bind[OF keeps_now], rule g_bind[OF read])
      (auto intro!: g_bind[OF read] g_bind[OF g_ask[where Q = "\<lambda>_. True"]] keeps_Set[OF gen])
qed

lemma keeps_renewal:
  assumes gen: "genuine env k e"
  shows "keeps env n (t_renewal env k e) (\<lambda>r. r = Panic \<longrightarrow> renewal_panics env n)"
proof -
  have "renewal_panics env n" if "panics_on env n (originatingRequest e)"
    using that gen by (auto simp: renewal_panics_def genuine_def)
  then show ?thesis
    unfolding t_renewal_def
    by (auto simp: case_prod_beta Let_def split: option.split sum.split go.split
      intro!: g_bind[OF g_ask[where Q = "\<lambda>_. True"]] g_bind[OF keeps_emit] g_bind[OF keeps_callDelegate]
        g_bind[OF keeps_keep[OF gen]] g_bind[OF keeps_Delete])
qed

definition genuine_callback :: "('reg, 'key, 'tv) renv \<Rightarrow> callback \<Rightarrow> bool" where
  "genuine_callback env cb = (case cb of Renewal k e \<Rightarrow> genuine env k e | Eviction _ _ \<Rightarrow> True)"

lemma keeps_refresh:
  "list_all (genuine_callback env) cbs \<Longrightarrow> keeps env n (t_refresh env cbs) (\<lambda>r. r = Panic \<longrightarrow> renewal_panics env n)"
  by (induction cbs)
    (auto simp: genuine_callback_def intro!: g_bind[where R = "\<lambda>r. r = Panic \<longrightarrow> renewal_panics env n"] keeps_renewal
      split: callback.splits go.split)

lemma due_genuine: "retriever_inv env s \<Longrightarrow> list_all (genuine_callback env) (due_refresh ord t s)"
  by (auto simp: retriever_inv_def due_refresh_def list_all_iff itemsRequiringRefresh_def set_map_filter stored_def
      genuine_callback_def split: option.splits if_splits)

lemma keeps_sweep: "keeps env n (t_sweep env ord1 ord2) (\<lambda>r. r = Panic \<longrightarrow> renewal_panics env n)"
proof -
  have evict: "keeps env n
      (tbind (t_section (evict_expired ord2 t)) (\<lambda>cbs. tbind (t_call_back cbs) (\<lambda>_. Done (Ret ()))))
      (\<lambda>r. r = Panic \<longrightarrow> renewal_panics env n)" for t
    by (rule g_bind[OF keeps_locked g_bind[OF keeps_call_back]])
      (auto simp: evict_expired_def Let_def case_prod_beta intro: step_sweep)
  show ?thesis
    unfolding t_sweep_def
    by (rule g_bind[OF keeps_now], rule g_bind[OF keeps_read[where Q = "list_all (genuine_callback env)"]],
        rule due_genuine, assumption, rule g_bind[OF keeps_refresh], assumption)
      (use evict in \<open>auto split: go.split\<close>)
qed

section \<open>Programs among others that follow the protocol\<close>

definition cooperative :: "('reg, 'key, 'tv) renv \<Rightarrow> bool" where
  "cooperative env \<longleftrightarrow> (\<forall>n s. (retriever_step env)\<^sup>*\<^sup>* s (others env n s))"

abbreviation follows ::
  "('reg, 'key, 'tv) renv \<Rightarrow> nat \<Rightarrow> ('tv, 'a) rprog \<Rightarrow> ('a \<Rightarrow> bool) \<Rightarrow> bool" where
  "follows env \<equiv> ensures (retriever_step env) (retriever_inv env)"

lemma keeps_follows:
  "cooperative env \<Longrightarrow> keeps env n t Q \<Longrightarrow> follows env n (interp (others env) t) Q"
  by (rule rp.guarantees_ensures) (simp_all add: cooperative_def)

lemmas follows_GetIamCredentials = keeps_follows[OF _ keeps_GetIamCredentials, unfolded denotes]
lemmas follows_sweep = keeps_follows[OF _ keeps_sweep, unfolded denotes]
lemmas follows_tvInit_goroutine = keeps_follows[OF _ keeps_tvInit, unfolded denotes]

section \<open>The caches see only their own operations\<close>

lemma retriever_step_caches:
  assumes "retriever_step env s t"
  shows "cache_step\<^sup>*\<^sup>* (internalCache s) (internalCache t)"
    and "cache_step\<^sup>*\<^sup>* (internalActiveRequestCache s) (internalActiveRequestCache t)"
  using assms
  by (cases; auto simp: cache_Add_def AddWithExpire_def intro: cache_step.intros)+

lemma retriever_steps_caches:
  assumes "(retriever_step env)\<^sup>*\<^sup>* s t"
  shows "cache_step\<^sup>*\<^sup>* (internalCache s) (internalCache t)"
    and "cache_step\<^sup>*\<^sup>* (internalActiveRequestCache s) (internalActiveRequestCache t)"
  using assms
  by (induction rule: rtranclp_induct) (auto dest: retriever_step_caches intro: rtranclp_trans)

lemma reachable_count:
  assumes "(retriever_step env)\<^sup>*\<^sup>* (newCachedCredentialRetriever opts) s" and "0 < MaxCacheSize opts"
  shows "int (ItemCount (internalCache s)) \<le> MaxCacheSize opts"
proof -
  let ?c = "internalCache (newCachedCredentialRetriever opts)"
  have c: "cache_inv ?c" "MaxEntries (lru ?c) = MaxCacheSize opts"
    using assms(2) by (auto simp: newCachedCredentialRetriever_def OnEvicted_def OnRefresh_def cache_inv_def lru_wf_newLRU)
  have steps: "cache_step\<^sup>*\<^sup>* ?c (internalCache s)" using assms(1) by (rule retriever_steps_caches(1))
  have "cache_inv (internalCache s)" using steps c(1) by (rule cache_run.inv_steps)
  then show ?thesis
    using cache_inv_count[of "internalCache s"] capacity_steps[OF steps c(1)] c(2) assms(2) by simp
qed

section \<open>Waiting and calling are bounded\<close>

definition delegate_call :: "event \<Rightarrow> int" where
  "delegate_call ev = (case ev of CallDelegate _ \<Rightarrow> 1 | _ \<Rightarrow> 0)"

definition time_slept :: "event \<Rightarrow> duration" where
  "time_slept ev = (case ev of Slept d \<Rightarrow> d | _ \<Rightarrow> 0)"

lemma weights [simp]:
  "delegate_call (CallDelegate r) = 1" "delegate_call (CallValidator r) = 0" "delegate_call (Slept d) = 0"
  "delegate_call StartTokenValidatorInit = 0" "delegate_call (Inc m l) = 0"
  "time_slept (CallDelegate r) = 0" "time_slept (CallValidator r) = 0" "time_slept (Slept d) = d"
  "time_slept StartTokenValidatorInit = 0" "time_slept (Inc m l) = 0"
  by (simp_all add: delegate_call_def time_slept_def)

text \<open>A weight that counts none of the events the cache operations and the validation make.\<close>

definition free_of_charge :: "(event \<Rightarrow> int) \<Rightarrow> bool" where
  "free_of_charge f \<longleftrightarrow>
     (\<forall>m l. f (Inc m l) = 0) \<and> (\<forall>r. f (CallValidator r) = 0) \<and> f StartTokenValidatorInit = 0"

lemma costs_primitives:
  assumes "free_of_charge f"
  shows "costs f (time_Now env) 0" and "costs f (read_shared env g) 0" and "costs f (call_back cbs) 0"
    and "costs f (inc_local_validation r) 0"
  by (auto simp: time_Now_def read_shared_def intro: costs_ask costs_atomically)
    (induction cbs; use assms in \<open>auto simp: onCredentialEviction_def inc_local_validation_def
      free_of_charge_def intro!: costs_ret costs_emit costs_bind[of f _ 0 _ 0] split: callback.split\<close>)+

lemma costs_cache_calls:
  assumes "free_of_charge f"
  shows "costs f (internalCache_Get env k) 0" and "costs f (internalCache_Delete env k) 0"
    and "costs f (internalCache_Set env k v r x) 0" and "costs f (internalCache_Modify env k g) 0"
    and "costs f (activeRequests_Get env tok) 0" and "costs f (activeRequests_Add env tok) 0"
    and "costs f (activeRequests_Delete env tok) 0" and "costs f (credentialsInEntryWithinValidTtl env e) 0"
    and "costs f (tryInitTokenValidator env) 0" and "costs f (call_validator env tv req) 0"
  unfolding internalCache_Get_def internalCache_Delete_def internalCache_Set_def internalCache_Modify_def
    activeRequests_Get_def activeRequests_Add_def activeRequests_Delete_def
    credentialsInEntryWithinValidTtl_def tryInitTokenValidator_def call_validator_def Let_def
  using assms
  by (auto intro!: costs_bind[of f _ 0 _ 0] costs_primitives costs_atomically costs_ret costs_emit costs_ask
      simp: free_of_charge_def)

lemma costs_tryServing:
  assumes "free_of_charge f"
  shows "costs f (tryServingFromCache env podUID req) 0"
  unfolding tryServingFromCache_def
  by (auto intro!: costs_bind[of f _ 0 _ 0] costs_cache_calls[OF assms] costs_primitives[OF assms] costs_ret
      split: option.split)

lemma costs_callDelegate:
  assumes "free_of_charge f" and "f (CallDelegate req) \<le> b" and "0 \<le> b"
  shows "costs f (callDelegateAndCache env req) b"
proof -
  have "costs f (fetchCredentialsFromDelegate env req) b"
    unfolding fetchCredentialsFromDelegate_def using assms(2)
    by (intro costs_bind[of f _ b _ 0] costs_bind[of f _ 0 _ 0] costs_emit costs_ask costs_ret) simp_all
  note fetch = this
  have store: "costs f (do { (d, ok) \<leftarrow> credentialsInEntryWithinValidTtl env e;
        if \<not> ok then ret (Ret (Inl (err d)))
        else do { ttl \<leftarrow> read_shared env credentialsRenewalTtl;
                  internalCache_Set env uid e (minDuration d ttl) d; ret (Ret (Inr e)) } }) 0" for e err uid
    by (auto intro!: costs_bind[of f _ 0 _ 0] costs_cache_calls[OF assms(1)] costs_primitives[OF assms(1)] costs_ret)
  have "costs f (do { fetched \<leftarrow> fetchCredentialsFromDelegate env req;
      case fetched of Panic \<Rightarrow> ret Panic | Ret (Inl err) \<Rightarrow> ret (Ret (Inl (g err))) | Ret (Inr e) \<Rightarrow> m e }) b"
    if "\<And>e. costs f (m e) 0" for g and m :: "cacheEntry \<Rightarrow> ('a, (goerr + cacheEntry) go) rprog"
    by (rule costs_bind[OF fetch, where b = 0]) (use that in \<open>auto intro: costs_ret split: sum.split go.split\<close>)
  from this[OF store] show ?thesis
    unfolding callDelegateAndCache_def by (auto intro: costs_ret assms(3) split: sum.split)
qed

lemma costs_miss:
  assumes "free_of_charge f" and "f (CallDelegate req) \<le> b" and "0 \<le> b"
  shows "costs f (fetch_on_miss env req) b"
  unfolding fetch_on_miss_def using assms(1)
  by (intro costs_bind[of f _ 0 _ b] costs_cache_calls costs_bind[of f _ b _ 0] costs_callDelegate[OF assms]
      costs_bind[of f _ 0 _ 0] costs_ret costs_emit) (simp_all add: free_of_charge_def)

lemma costs_wait:
  assumes "free_of_charge f" and "f (Slept defaultActiveRequestWaitTime) \<le> b" and "0 \<le> b"
  shows "costs f (waitForActiveRequest env tok i) (if i < defaultActiveRequestRetries then b else 0)"
proof (cases "i < defaultActiveRequestRetries")
  case True
  then show ?thesis
    unfolding waitForActiveRequest_def using assms
    by (intro costs_bind[of f _ 0 _ b] costs_cache_calls)
      (auto intro!: costs_bind[of f _ b _ 0] costs_ret costs_emit)
next
  case False
  then show ?thesis
    unfolding waitForActiveRequest_def using assms
    by (auto intro!: costs_bind[of f _ 0 _ 0] costs_cache_calls costs_ret)
qed

lemma costs_loop:
  assumes "free_of_charge f" and "f (Slept defaultActiveRequestWaitTime) \<le> b" and "0 \<le> b"
    and "left \<le> Suc defaultActiveRequestRetries"
  shows "costs f (serve_loop env podUID req left) (int (left - 1) * b)"
  using assms(4)
proof (induction left)
  case 0
  then show ?case by (simp add: costs_ret)
next
  case (Suc left)
  let ?b = "if defaultActiveRequestRetries - left < defaultActiveRequestRetries then b else 0"
  have b: "?b + int (left - 1) * b \<le> int left * b"
    using assms(3) Suc.prems by (cases left) (simp_all add: algebra_simps)
  have "costs f (do { wait \<leftarrow> waitForActiveRequest env (ServiceAccountToken req) (defaultActiveRequestRetries - left);
        if \<not> wait then ret None else serve_loop env podUID req left }) (int left * b)"
    by (rule costs_bind[OF costs_wait[OF assms(1-3)] _ b])
      (use Suc assms(3) in \<open>auto intro!: costs_ret\<close>)
  then show ?case
    using assms(3)
    by (auto intro!: costs_bind[OF costs_tryServing[OF assms(1)], where b = "int left * b"] costs_ret
        split: option.split)
qed

lemma costs_GetIamCredentials:
  assumes "free_of_charge f" and "f (Slept defaultActiveRequestWaitTime) \<le> b" and "0 \<le> b"
    and "\<And>req. f (CallDelegate req) \<le> d" and "0 \<le> d"
  shows "costs f (GetIamCredentials env request) (int defaultActiveRequestRetries * b + d)"
proof -
  have "costs f (do { served \<leftarrow> serve_loop env uid req (Suc defaultActiveRequestRetries);
        case served of Some resp \<Rightarrow> ret (Ret (Inr resp)) | None \<Rightarrow> fetch_on_miss env req })
      (int defaultActiveRequestRetries * b + d)" for uid req
    using costs_loop[OF assms(1-3) order_refl] assms
    by (intro costs_bind[where a = "int defaultActiveRequestRetries * b" and b = d])
      (auto simp del: serve_loop.simps intro!: costs_ret costs_miss split: option.split)
  moreover have "0 \<le> int defaultActiveRequestRetries * b + d" using assms by simp
  ultimately show ?thesis
    by (auto simp: GetIamCredentials_def intro!: costs_ret split: option.split sum.split)
qed

end
