(* ===== verification/Retriever_Behaviour.thy ===== *)
theory Retriever_Behaviour
  imports Retriever_Laws
begin

text \<open>
  What the programs of the retriever compute when no other goroutine interferes: hits, misses, failed
  fetches and the outcomes of a renewal.
\<close>

section \<open>Runs without interference\<close>

definition undisturbed :: "('reg, 'key, 'tv) renv \<Rightarrow> bool" where
  "undisturbed env \<longleftrightarrow> (\<forall>n s. others env n s = s)"

lemma undisturbed_cooperative: "undisturbed env \<Longrightarrow> cooperative env"
  by (simp add: undisturbed_def cooperative_def)

abbreviation later :: "nat \<Rightarrow> ('s, 'e) world \<Rightarrow> ('s, 'e) world" where
  "later n w \<equiv> w\<lparr>ticks := n + ticks w\<rparr>"

definition eviction_events :: "callback list \<Rightarrow> event list" where
  "eviction_events cbs =
     List.map_filter (\<lambda>cb. case cb of Eviction _ _ \<Rightarrow> Some (Inc ''pod_identity_cache_state'' [''evicted''])
                                    | Renewal _ _ \<Rightarrow> None) cbs"

lemma run_call_back [simp]:
  "run_state (call_back cbs) w = ((), w\<lparr>trace := trace w @ eviction_events cbs\<rparr>)"
  by (induction cbs arbitrary: w)
    (auto simp: eviction_events_def List.map_filter_simps onCredentialEviction_def split: callback.split)

lemma run_time_Now [simp]: "run_state (time_Now env) w = (clock env (ticks w), later 1 w)"
  by (simp add: time_Now_def)

lemma run_inc [simp]:
  "run_state (inc_local_validation r) w =
     ((), w\<lparr>trace := trace w @ [Inc ''pod_identity_local_validation'' [r]]\<rparr>)"
  by (simp add: inc_local_validation_def)

lemma run_validator [simp]:
  "run_state (call_validator env tv req) w =
     (validator env (ticks w) tv req, w\<lparr>ticks := 1 + ticks w, trace := trace w @ [CallValidator req]\<rparr>)"
  by (simp add: call_validator_def)

lemma run_fetch [simp]:
  "run_state (fetchCredentialsFromDelegate env req) w =
     (map_go (map_sum id (\<lambda>(creds, a). \<lparr>requestLogCtx = a, originatingRequest = req, entry_credentials = creds\<rparr>))
        (delegate env (ticks w) req),
      w\<lparr>ticks := 1 + ticks w, trace := trace w @ [CallDelegate req]\<rparr>)"
  by (simp add: fetchCredentialsFromDelegate_def case_prod_beta split: sum.split go.split)

lemma run_read_shared:
  "undisturbed env \<Longrightarrow> run_state (read_shared env f) w = (f (shared w), later 1 w)"
  by (simp add: read_shared_def undisturbed_def)

lemma run_Get:
  "undisturbed env \<Longrightarrow> run_state (internalCache_Get env k) w =
     (cache_Get (clock env (ticks w)) (internalCache (shared w)) k, later 2 w)"
  by (simp add: internalCache_Get_def run_read_shared)

lemma run_Delete:
  "undisturbed env \<Longrightarrow> run_state (internalCache_Delete env k) w =
     ((), w\<lparr>ticks := 1 + ticks w,
           shared := (shared w)\<lparr>internalCache := fst (Delete (internalCache (shared w)) k)\<rparr>,
           trace := trace w @ eviction_events (snd (Delete (internalCache (shared w)) k))\<rparr>)"
  by (simp add: internalCache_Delete_def undisturbed_def case_prod_beta Let_def)

lemma run_Set:
  "undisturbed env \<Longrightarrow> run_state (internalCache_Set env k v r x) w =
     (let cs = SetWithRefreshExpire (clock env (ticks w)) (clock env (1 + ticks w))
                 (internalCache (shared w)) k v r x
      in ((), w\<lparr>ticks := 3 + ticks w, shared := (shared w)\<lparr>internalCache := fst cs\<rparr>,
               trace := trace w @ eviction_events (snd cs)\<rparr>))"
  by (simp add: internalCache_Set_def undisturbed_def case_prod_beta Let_def numeral_eq_Suc)

lemma run_Modify:
  "undisturbed env \<Longrightarrow> run_state (internalCache_Modify env k f) w =
     ((), w\<lparr>ticks := 2 + ticks w,
           shared := (shared w)\<lparr>internalCache := fst (Modify (clock env (ticks w)) (internalCache (shared w)) k f)\<rparr>\<rparr>)"
  by (simp add: internalCache_Modify_def undisturbed_def)

lemma run_active_Get:
  "undisturbed env \<Longrightarrow> run_state (activeRequests_Get env k) w =
     (cache_Get (clock env (ticks w)) (internalActiveRequestCache (shared w)) k, later 2 w)"
  by (simp add: activeRequests_Get_def run_read_shared)

lemma run_active_Add:
  "undisturbed env \<Longrightarrow> run_state (activeRequests_Add env k) w =
     ((), w\<lparr>ticks := 4 + ticks w, shared := (shared w)\<lparr>internalActiveRequestCache :=
        fst (cache_Add (clock env (ticks w)) (clock env (1 + ticks w)) (clock env (2 + ticks w))
               (internalActiveRequestCache (shared w)) k None)\<rparr>\<rparr>)"
  by (simp add: activeRequests_Add_def undisturbed_def numeral_eq_Suc)

lemma run_active_Delete:
  "undisturbed env \<Longrightarrow> run_state (activeRequests_Delete env k) w =
     ((), w\<lparr>ticks := 1 + ticks w, shared := (shared w)\<lparr>internalActiveRequestCache :=
        fst (Delete (internalActiveRequestCache (shared w)) k)\<rparr>\<rparr>)"
  by (simp add: activeRequests_Delete_def undisturbed_def)

lemma run_ttl:
  "undisturbed env \<Longrightarrow> run_state (credentialsInEntryWithinValidTtl env e) w =
     (let d = time_Sub (CredsExpiration (entry_credentials e)) (clock env (ticks w))
      in ((d, minCredentialTtl (shared w) < d), later 2 w))"
  by (simp add: credentialsInEntryWithinValidTtl_def run_read_shared Let_def)

lemmas quiet_runs =
  run_read_shared run_Get run_Delete run_Set run_Modify run_active_Get run_active_Add run_active_Delete
  run_ttl

section \<open>Hits\<close>

lemma tryServing_hit:
  assumes "undisturbed env"
    and "cache_Get (clock env (ticks w)) (internalCache (shared w)) uid = Some e"
    and "minCredentialTtl (shared w) < time_Sub (CredsExpiration (entry_credentials e)) (clock env (2 + ticks w))"
    and "ServiceAccountToken (originatingRequest e) = ServiceAccountToken req"
  shows "run_state (tryServingFromCache env uid req) w = (Some (entry_credentials e), later 4 w)"
  using assms by (simp add: tryServingFromCache_def quiet_runs Let_def)

lemma GetIamCredentials_hit:
  assumes "undisturbed env" and "ServiceAccountToken req \<noteq> ''''"
    and "names_pod env (ServiceAccountToken req) uid"
    and "cache_Get (clock env (ticks w)) (internalCache (shared w)) uid = Some e"
    and "minCredentialTtl (shared w) < time_Sub (CredsExpiration (entry_credentials e)) (clock env (2 + ticks w))"
    and "ServiceAccountToken (originatingRequest e) = ServiceAccountToken req"
  shows "run_state (GetIamCredentials env (Some req)) w = (Ret (Inr (entry_credentials e)), later 4 w)"
  using assms(2,3) tryServing_hit[OF assms(1,4,5,6)]
  by (simp add: GetIamCredentials_def names_pod_def)

section \<open>Misses\<close>

text \<open>The entry a successful fetch makes.\<close>

definition fetched_entry :: "EksCredentialsRequest \<Rightarrow> EksCredentialsResponse \<Rightarrow> string \<Rightarrow> cacheEntry" where
  "fetched_entry req creds a =
     \<lparr>requestLogCtx = a, originatingRequest = req, entry_credentials = creds\<rparr>"

lemma callDelegate_failure:
  assumes "undisturbed env" and "run_state (callDelegateAndCache env req) w = (r, w')" and "\<nexists>e. r = Ret (Inr e)"
  shows "shared w' = shared w"
proof -
  consider "delegate env (ticks w) req = Panic" | (err) err where "delegate env (ticks w) req = Ret (Inl err)"
    | (creds) creds a where "delegate env (ticks w) req = Ret (Inr (creds, a))"
    by (metis go.exhaust sum.exhaust surj_pair)
  then show ?thesis
    using assms
    by cases (auto simp: callDelegateAndCache_def quiet_runs case_prod_beta Let_def split: sum.splits if_splits)
qed

lemma callDelegate_error:
  assumes "undisturbed env" and "names_pod env (ServiceAccountToken req) uid"
    and "delegate env (ticks w) req = Ret (Inl err)"
  shows "run_state (callDelegateAndCache env req) w =
    (Ret (Inl (Wrapped [Txt ''error getting credentials to cache: ''] err [])),
     w\<lparr>ticks := 1 + ticks w, trace := trace w @ [CallDelegate req]\<rparr>)"
  using assms by (simp add: callDelegateAndCache_def names_pod_def)

lemma callDelegate_panic:
  assumes "names_pod env (ServiceAccountToken req) uid" and "delegate env (ticks w) req = Panic"
  shows "run_state (callDelegateAndCache env req) w =
    (Panic, w\<lparr>ticks := 1 + ticks w, trace := trace w @ [CallDelegate req]\<rparr>)"
  using assms by (simp add: callDelegateAndCache_def names_pod_def)

lemma callDelegate_success:
  assumes "undisturbed env" and "names_pod env (ServiceAccountToken req) uid"
    and "delegate env (ticks w) req = Ret (Inr (creds, a))"
    and "d = time_Sub (CredsExpiration creds) (clock env (1 + ticks w))"
    and "minCredentialTtl (shared w) < d"
  shows "run_state (callDelegateAndCache env req) w =
    (let cs = SetWithRefreshExpire (clock env (4 + ticks w)) (clock env (5 + ticks w))
                (internalCache (shared w)) uid (fetched_entry req creds a)
                (minDuration d (credentialsRenewalTtl (shared w))) d
     in (Ret (Inr (fetched_entry req creds a)),
         w\<lparr>ticks := 7 + ticks w, shared := (shared w)\<lparr>internalCache := fst cs\<rparr>,
           trace := trace w @ [CallDelegate req] @ eviction_events (snd cs)\<rparr>))"
  using assms
  by (simp add: callDelegateAndCache_def names_pod_def quiet_runs Let_def fetched_entry_def numeral_eq_Suc)

lemma GetIamCredentials_miss:
  assumes "undisturbed env" and "ServiceAccountToken req \<noteq> ''''"
    and "names_pod env (ServiceAccountToken req) uid"
    and "cache_Get (clock env (ticks w)) (internalCache (shared w)) uid = None"
    and "cache_Get (clock env (2 + ticks w)) (internalActiveRequestCache (shared w)) (ServiceAccountToken req) = None"
  shows "run_state (GetIamCredentials env (Some req)) w = run_state (fetch_on_miss env req) (later 4 w)"
  using assms
  by (simp add: GetIamCredentials_def names_pod_def tryServingFromCache_def waitForActiveRequest_def quiet_runs
      numeral_eq_Suc)


lemma miss_success:
  assumes "undisturbed env" and "names_pod env (ServiceAccountToken req) uid"
    and "delegate env (6 + ticks w) req = Ret (Inr (creds, a))"
    and "d = time_Sub (CredsExpiration creds) (clock env (7 + ticks w))"
    and "minCredentialTtl (shared w) < d"
    and "run_state (fetch_on_miss env req) w = (r, w')"
  shows "r = Ret (Inr creds)"
    and "internalCache (shared w') =
      fst (SetWithRefreshExpire (clock env (10 + ticks w)) (clock env (11 + ticks w))
            (internalCache (shared w)) uid (fetched_entry req creds a)
            (minDuration d (credentialsRenewalTtl (shared w))) d)"
    and "minCredentialTtl (shared w') = minCredentialTtl (shared w)" and "ticks w' = 14 + ticks w"
  using assms(6) assms(1-5)
  by (auto simp: fetch_on_miss_def quiet_runs callDelegate_success[OF assms(1,2) _ refl] Let_def
      fetched_entry_def eval_nat_numeral)

lemma failed_miss_keeps_cache:
  assumes "undisturbed env" and "run_state (fetch_on_miss env req) w = (res, w')" and "\<nexists>creds. res = Ret (Inr creds)"
  shows "internalCache (shared w') = internalCache (shared w)"
proof -
  define v where "v = snd (run_state (activeRequests_Add env (ServiceAccountToken req)) (later 2 w))"
  define v' where "v' = v\<lparr>trace := trace v @ [Inc ''pod_identity_cache_state'' [''miss'']]\<rparr>"
  obtain r u where run: "run_state (callDelegateAndCache env req) v' = (r, u)" by fastforce
  have v: "internalCache (shared v) = internalCache (shared w)"
    by (simp add: v_def run_active_Add[OF assms(1)])
  have "run_state (fetch_on_miss env req) w =
      (case r of Panic \<Rightarrow> Panic | Ret (Inl err) \<Rightarrow> Ret (Inl err) | Ret (Inr entry) \<Rightarrow> Ret (Inr (entry_credentials entry)),
       snd (run_state (activeRequests_Delete env (ServiceAccountToken req)) u))"
    using run
    by (simp add: fetch_on_miss_def run_active_Get[OF assms(1)] v'_def v_def run_active_Add[OF assms(1)]
        run_active_Delete[OF assms(1)])
  then have "\<nexists>e. r = Ret (Inr e)" and "shared w' = shared (snd (run_state (activeRequests_Delete env (ServiceAccountToken req)) u))"
    using assms(2,3) by (auto split: sum.splits)
  then show ?thesis
    using callDelegate_failure[OF assms(1) run] v by (simp add: run_active_Delete[OF assms(1)] v'_def)
qed

text \<open>Trying to serve only removes entries or changes the request of one.\<close>

lemma tryServing_keys:
  assumes "undisturbed env" and "run_state (tryServingFromCache env uid req) w = (r, w')"
  shows "dom (items (internalCache (shared w'))) \<subseteq> dom (items (internalCache (shared w)))"
proof -
  have "dom (items (fst (Modify t c k f))) \<subseteq> dom (items c)"
    for t k and c :: "(string, cacheEntry, callback) cache" and f
    by (auto simp: Modify_items split: if_splits)
  then show ?thesis
    using assms
    by (auto simp: tryServingFromCache_def tryInitTokenValidator_def quiet_runs Let_def Delete_state undisturbed_def
        split: option.splits if_splits) blast+
qed

lemma serve_loop_keys:
  assumes "undisturbed env" and "run_state (serve_loop env uid req left) w = (r, w')"
  shows "dom (items (internalCache (shared w'))) \<subseteq> dom (items (internalCache (shared w)))"
  using assms(2)
proof (induction left arbitrary: w)
  case 0
  then show ?case by simp
next
  case (Suc left)
  obtain r1 w1 where t: "run_state (tryServingFromCache env uid req) w = (r1, w1)" by fastforce
  obtain b w2 where wt: "run_state (waitForActiveRequest env (ServiceAccountToken req)
      (defaultActiveRequestRetries - left)) w1 = (b, w2)" by fastforce
  have w2: "shared w2 = shared w1"
    using wt by (auto simp: waitForActiveRequest_def run_active_Get[OF assms(1)] split: if_splits)
  have "shared w' = shared w1 \<or> run_state (serve_loop env uid req left) w2 = (r, w')"
    using Suc.prems t wt w2 by (auto split: option.splits if_splits)
  then show ?case
    using Suc.IH[of w2] tryServing_keys[OF assms(1) t] w2 by fastforce
qed

lemma failed_request_keys:
  assumes "undisturbed env" and "run_state (GetIamCredentials env request) w = (res, w')" and "\<nexists>creds. res = Ret (Inr creds)"
  shows "dom (items (internalCache (shared w'))) \<subseteq> dom (items (internalCache (shared w)))"
proof (cases "\<exists>req uid. request = Some req \<and> ServiceAccountToken req \<noteq> '''' \<and>
    getPodUIDfromServiceAccountToken (jwt env) (ServiceAccountToken req) = Inr uid")
  case False
  then show ?thesis
    using assms(2) by (auto simp: GetIamCredentials_def split: option.splits sum.splits if_splits)
next
  case True
  then obtain req uid where r: "request = Some req" "ServiceAccountToken req \<noteq> ''''"
    "getPodUIDfromServiceAccountToken (jwt env) (ServiceAccountToken req) = Inr uid" by auto
  obtain served w1 where l: "run_state (serve_loop env uid req (Suc defaultActiveRequestRetries)) w = (served, w1)"
    by fastforce
  have "run_state (fetch_on_miss env req) w1 = (res, w')"
    using assms(2,3) l by (auto simp: GetIamCredentials_def r simp del: serve_loop.simps split: option.splits)
  then show ?thesis
    using failed_miss_keeps_cache[OF assms(1) _ assms(3)] serve_loop_keys[OF assms(1) l] by simp
qed

text \<open>Whatever the others do, a request that went to the delegate ends by lowering the mark of its token.\<close>

lemma miss_lowers_mark:
  assumes "run_state (fetch_on_miss env req) w = (r, w')"
  shows "items (internalActiveRequestCache (shared w')) (ServiceAccountToken req) = None"
  using assms
  by (auto simp: fetch_on_miss_def activeRequests_Delete_def Delete_state case_prod_beta)

lemma failed_request_unmarked:
  assumes "run_state (GetIamCredentials env (Some req)) w = (res, w')" and "\<nexists>creds. res = Ret (Inr creds)"
    and "ServiceAccountToken req \<noteq> ''''" and "getPodUIDfromServiceAccountToken (jwt env) (ServiceAccountToken req) = Inr uid"
  shows "items (internalActiveRequestCache (shared w')) (ServiceAccountToken req) = None"
proof -
  obtain served w1 where l: "run_state (serve_loop env uid req (Suc defaultActiveRequestRetries)) w = (served, w1)"
    by fastforce
  have "run_state (fetch_on_miss env req) w1 = (res, w')"
    using assms l by (auto simp: GetIamCredentials_def simp del: serve_loop.simps split: option.splits)
  then show ?thesis by (rule miss_lowers_mark)
qed

section \<open>Renewal\<close>

text \<open>The state after the old credentials were kept, or given up, at tick \<open>n\<close>.\<close>

definition kept_state ::
  "('reg, 'key, 'tv) renv \<Rightarrow> nat \<Rightarrow> string \<Rightarrow> cacheEntry
   \<Rightarrow> 'tv cachedCredentialRetriever \<Rightarrow> 'tv cachedCredentialRetriever" where
  "kept_state env n k e s =
     (let d = time_Sub (CredsExpiration (entry_credentials e)) (clock env n) in
      if minCredentialTtl s < d
      then s\<lparr>internalCache :=
        fst (SetWithRefreshExpire (clock env (5 + n)) (clock env (6 + n)) (internalCache s) k e
              (minDuration d (int64 (retryInterval s + rnd env (4 + n) mod maxRetryJitter s))) d)\<rparr>
      else s)"

lemma run_keep:
  assumes "undisturbed env"
  shows "shared (snd (run_state (keep_old_credentials env k e) w)) = kept_state env (ticks w) k e (shared w)"
  using assms
  by (simp add: keep_old_credentials_def kept_state_def quiet_runs Let_def Int63n_def numeral_eq_Suc)

lemma run_renewal_limited:
  assumes "undisturbed env" and "\<not> limiter_Allow env (ticks w)"
  shows "shared (snd (run_state (onCredentialRenewal env k e) w)) = kept_state env (1 + ticks w) k e (shared w)"
  using assms run_keep[OF assms(1), of k e "later 1 w"] by (simp add: onCredentialRenewal_def case_prod_beta)

lemma run_renewal_error:
  assumes "undisturbed env" and "limiter_Allow env (ticks w)" and "limiter_Wait env (1 + ticks w) = None"
    and "names_pod env (ServiceAccountToken (originatingRequest e)) uid"
    and "delegate env (2 + ticks w) (originatingRequest e) = Ret (Inl err)"
  shows "shared (snd (run_state (onCredentialRenewal env k e) w)) =
    (if snd (IsIrrecoverableApiError err)
     then (shared w)\<lparr>internalCache := fst (Delete (internalCache (shared w)) uid)\<rparr>
     else kept_state env (3 + ticks w) k e (shared w))"
  using assms
  by (simp add: onCredentialRenewal_def callDelegate_error[OF assms(1,4)] case_prod_beta Let_def run_Delete
      run_keep names_pod_def numeral_eq_Suc)

lemma run_renewal_success:
  assumes "undisturbed env" and "limiter_Allow env (ticks w)" and "limiter_Wait env (1 + ticks w) = None"
    and "names_pod env (ServiceAccountToken (originatingRequest e)) uid"
    and "delegate env (2 + ticks w) (originatingRequest e) = Ret (Inr (creds, a))"
    and "d = time_Sub (CredsExpiration creds) (clock env (3 + ticks w))" and "minCredentialTtl (shared w) < d"
    and "run_state (onCredentialRenewal env k e) w = (r, w')"
  shows "r = Ret ()" and "shared w' = (shared w)\<lparr>internalCache :=
    fst (SetWithRefreshExpire (clock env (6 + ticks w)) (clock env (7 + ticks w)) (internalCache (shared w)) uid
      (fetched_entry (originatingRequest e) creds a) (minDuration d (credentialsRenewalTtl (shared w))) d)\<rparr>"
proof -
  have "delegate env (ticks (later 2 w)) (originatingRequest e) = Ret (Inr (creds, a))"
    "d = time_Sub (CredsExpiration creds) (clock env (1 + ticks (later 2 w)))" "minCredentialTtl (shared (later 2 w)) < d"
    using assms(5-7) by (simp_all add: numeral_eq_Suc)
  from callDelegate_success[OF assms(1,4) this]
  show "r = Ret ()" "shared w' = (shared w)\<lparr>internalCache :=
    fst (SetWithRefreshExpire (clock env (6 + ticks w)) (clock env (7 + ticks w)) (internalCache (shared w)) uid
      (fetched_entry (originatingRequest e) creds a) (minDuration d (credentialsRenewalTtl (shared w))) d)\<rparr>"
    using assms(2,3,8) by (auto simp: onCredentialRenewal_def Let_def eval_nat_numeral)
qed

lemma run_renewal_panic:
  assumes "limiter_Allow env (ticks w)" and "limiter_Wait env (1 + ticks w) = None"
    and "names_pod env (ServiceAccountToken (originatingRequest e)) uid"
    and "delegate env (2 + ticks w) (originatingRequest e) = Panic"
  shows "fst (run_state (onCredentialRenewal env k e) w) = Panic"
  using assms callDelegate_panic[OF assms(3), of "later 2 w"] by (simp add: onCredentialRenewal_def)

lemma sweep_panic:
  assumes "undisturbed env" and "due_refresh ord1 (clock env (ticks w)) (shared w) = Renewal k e # cbs"
    and "limiter_Allow env (2 + ticks w)" and "limiter_Wait env (3 + ticks w) = None"
    and "names_pod env (ServiceAccountToken (originatingRequest e)) uid"
    and "delegate env (4 + ticks w) (originatingRequest e) = Panic"
  shows "fst (run_state (janitor_sweep env ord1 ord2) w) = Panic"
  using assms run_renewal_panic[of env "later 2 w" e uid k]
  by (simp add: janitor_sweep_def run_read_shared case_prod_beta eval_nat_numeral)

section \<open>The sweep is the cache's method with the retriever's callbacks\<close>

text \<open>
  A refresh callback as the cache's method sees it: it works on the cache and on the rest of the program's state.
  Where the delegate does not panic, neither do the callbacks, and the sweep is the method.
\<close>

lemma no_panic_fetch: "\<not> delegate_panics env \<Longrightarrow> map_go f (delegate env n req) \<noteq> Panic"
  by (cases "delegate env n req") (auto simp: delegate_panics_def)

lemma no_panic_renewal:
  assumes "\<not> delegate_panics env" and "run_state (onCredentialRenewal env k e) w = (r, w')"
  shows "r = Ret ()"
  using assms
  by (auto simp: onCredentialRenewal_def callDelegateAndCache_def no_panic_fetch case_prod_beta Let_def
      split: if_splits option.splits sum.splits go.splits)

lemma no_panic_refresh:
  assumes "\<not> delegate_panics env"
  shows "fst (run_state (run_refresh env cbs) w) = Ret ()"
proof (induction cbs arbitrary: w)
  case (Cons cb cbs)
  obtain r w' where r: "run_state (case cb of Renewal k e \<Rightarrow> onCredentialRenewal env k e | Eviction _ _ \<Rightarrow> ret (Ret ())) w = (r, w')"
    by fastforce
  then have "r = Ret ()" using no_panic_renewal[OF assms] by (auto split: callback.splits)
  then show ?case using r Cons by simp
qed simp

definition refresh_callback ::
  "('reg, 'key, 'tv) renv \<Rightarrow> callback
   \<Rightarrow> (string, cacheEntry, callback) cache \<times> ('tv cachedCredentialRetriever, event) world
   \<Rightarrow> (string, cacheEntry, callback) cache \<times> ('tv cachedCredentialRetriever, event) world" where
  "refresh_callback env cb cw =
     (let w = snd (run_state (case cb of Renewal key entry \<Rightarrow> onCredentialRenewal env key entry | Eviction _ _ \<Rightarrow> ret (Ret ()))
                    ((snd cw)\<lparr>shared := (shared (snd cw))\<lparr>internalCache := fst cw\<rparr>\<rparr>))
      in (internalCache (shared w), w))"

lemma run_refresh_fold:
  assumes "\<not> delegate_panics env"
  shows "fold (\<lambda>(k, v). refresh_callback env (f k v)) due (internalCache (shared w), w) =
   (let w' = snd (run_state (run_refresh env (map (\<lambda>(k, v). f k v) due)) w) in (internalCache (shared w'), w'))"
proof (induction due arbitrary: w)
  case (Cons kv due)
  let ?cb = "case kv of (k, v) \<Rightarrow> f k v"
  obtain r w' where r: "run_state (case ?cb of Renewal k e \<Rightarrow> onCredentialRenewal env k e | Eviction _ _ \<Rightarrow> ret (Ret ())) w = (r, w')"
    by fastforce
  have "r = Ret ()" using r no_panic_renewal[OF assms] by (auto split: callback.splits)
  then show ?case using r Cons[of w'] by (simp add: refresh_callback_def Let_def case_prod_beta)
qed simp

lemma sweep_is_RefreshOrEvictExpired:
  assumes "undisturbed env" and "\<not> delegate_panics env"
    and "RefreshOrEvictExpired (refresh_callback env) ord1 ord2 (clock env (ticks w)) (internalCache (shared w), later 2 w) =
      ((c, v), calls)"
  shows "run_state (janitor_sweep env ord1 ord2) w =
    (Ret (), snd (run_state (call_back calls) (v\<lparr>shared := (shared v)\<lparr>internalCache := c\<rparr>, ticks := Suc (ticks v)\<rparr>)))"
proof -
  let ?t = "clock env (ticks w)"
  let ?due = "itemsRequiringRefresh ord1 (UnixNano ?t) (internalCache (shared w))"
  define w2 where "w2 = snd (run_state (run_refresh env (due_refresh ord1 ?t (shared w))) (later 2 w))"
  have refreshed: "(case onRefresh (internalCache (shared w)) of
      None \<Rightarrow> (internalCache (shared w), later 2 w)
    | Some f \<Rightarrow> fold (\<lambda>(k, v). refresh_callback env (f k v)) ?due (internalCache (shared w), later 2 w)) =
    (internalCache (shared w2), w2)"
    using run_refresh_fold[OF assms(2), of _ ?due "later 2 w"]
    by (cases "onRefresh (internalCache (shared w))") (simp_all add: w2_def due_refresh_def Let_def)
  have evicted: "calls = fst (evict_expired ord2 ?t (shared w2))" "v = w2"
    "(shared w2)\<lparr>internalCache := c\<rparr> = snd (evict_expired ord2 ?t (shared w2))"
    using assms(3)[unfolded RefreshOrEvictExpired_def Let_def fst_conv refreshed]
    by (auto simp: evict_expired_def Let_def case_prod_beta cong: option.case_cong)
  have run: "run_state (run_refresh env (due_refresh ord1 ?t (shared w))) (w\<lparr>ticks := Suc (Suc (ticks w))\<rparr>) = (Ret (), w2)"
    by (simp add: w2_def prod_eq_iff no_panic_refresh[OF assms(2)])
  show ?thesis
    using assms(1) by (simp add: janitor_sweep_def undisturbed_def read_shared_def time_Now_def run evicted)
qed

end
