(* ===== verification/Retriever_Properties.thy ===== *)
theory Retriever_Properties
  imports Retriever_Behaviour
begin

text \<open>
  The properties of the credential retriever, each with a run on a small concrete system: a JWT
  library that knows two tokens of one pod, a delegate that answers, fails or panics depending on the cluster, a
  validator that accepts both tokens.
\<close>

section \<open>A concrete system\<close>

definition demo_jwt :: "(unit, unit) jwt_lib" where
  "demo_jwt =
     \<lparr>ParseUnverified = (\<lambda>t.
        if t = ''a'' \<or> t = ''b''
        then Inr \<lparr>jwt_Header = [],
                  jwt_Claims = MapClaims [(''kubernetes.io'', JObject [(''pod'', JObject [(''uid'', JString ''p'')])])]\<rparr>
        else Inl (Plain [])),
      ParseRegistered = (\<lambda>t. Inr ()), ValidateRegistered = (\<lambda>t r. None), jwt_Parse = (\<lambda>t f. Ret None)\<rparr>"

definition demo_creds :: EksCredentialsResponse where
  "demo_creds = \<lparr>AccessKeyId = ''AK'', SecretAccessKey = ''SK'', Token = ''ST'', AccountId = ''7'',
                  CredsExpiration = 5000 * Second\<rparr>"

definition demo_req :: "string \<Rightarrow> EksCredentialsRequest" where
  "demo_req t = \<lparr>ServiceAccountToken = t, ClusterName = ''c'', RequestTargetHost = ''h''\<rparr>"

text \<open>Between any two sections of the goroutine, another one ends its attempt at a new token validator.\<close>

definition demo_env :: "(unit, unit, unit) renv" where
  "demo_env =
     \<lparr>jwt = demo_jwt, clock = (\<lambda>n. 1000 * Second + min (int n) 5000),
      others = (\<lambda>n s. s\<lparr>tvInitInFlight := False\<rparr>),
      delegate = (\<lambda>n req. if ClusterName req = ''down'' then Ret (Inl (Plain []))
        else if ClusterName req = ''partial'' then Panic else Ret (Inr (demo_creds, ''assoc''))),
      validator = (\<lambda>n tv req. None), limiter_Allow = (\<lambda>n. True), limiter_Wait = (\<lambda>n. None),
      rnd = (\<lambda>n. 5)\<rparr>"

definition quiet_env :: "(unit, unit, unit) renv" where
  "quiet_env = demo_env\<lparr>others := (\<lambda>n s. s)\<rparr>"

definition demo_opts :: "(unit, unit) CachedCredentialRetrieverOpts" where
  "demo_opts =
     \<lparr>Delegate = Some (), TokenValidator = Some (), CredentialsRenewalTtl = 600 * Second, MaxCacheSize = 5,
      RefreshQPS = 3, CleanupInterval = Minute\<rparr>"

definition demo_world :: "(unit cachedCredentialRetriever, event) world" where
  "demo_world = \<lparr>shared = newCachedCredentialRetriever demo_opts, ticks = 0, trace = []\<rparr>"

lemma quiet_undisturbed: "undisturbed quiet_env"
  by (simp add: undisturbed_def quiet_env_def)

lemma quiet_clock: "clock quiet_env n = 1000 * Second + min (int n) 5000"
  by (simp add: quiet_env_def demo_env_def)

lemma quiet_pod: "getPodUIDfromServiceAccountToken (jwt quiet_env) ''a'' = Inr ''p''"
  by code_simp

lemma demo_world_misses:
  "cache_Get t (internalCache (shared demo_world)) k = None"
  "cache_Get t (internalActiveRequestCache (shared demo_world)) k = None"
  by (simp_all add: demo_world_def newCachedCredentialRetriever_def OnEvicted_def OnRefresh_def cache_ops)

lemma quiet_run: "fst (run_state (GetIamCredentials quiet_env (Some (demo_req ''a''))) demo_world) = Ret (Inr demo_creds)"
proof -
  obtain r w1 where run: "run_state (fetch_on_miss quiet_env (demo_req ''a'')) (later 4 demo_world) = (r, w1)"
    by fastforce
  have tok: "ServiceAccountToken (demo_req ''a'') = ''a''" by (simp add: demo_req_def)
  have pod: "names_pod quiet_env (ServiceAccountToken (demo_req ''a'')) ''p''"
    by (simp add: names_pod_def tok quiet_pod)
  have "r = Ret (Inr demo_creds)"
    by (rule miss_success(1)[OF quiet_undisturbed pod _ refl _ run, where a = "''assoc''"])
      (simp_all add: quiet_env_def demo_env_def demo_req_def demo_world_def newCachedCredentialRetriever_def
        defaultMinCredentialTtl_def demo_creds_def Second_def time_Sub_def)
  then show ?thesis
    using GetIamCredentials_miss[OF quiet_undisturbed _ pod demo_world_misses] run by (simp add: tok)
qed

section \<open>Safety\<close>

text \<open>
  C2. Whatever the other goroutines do within the protocol, in every reachable state: credentials
  returned to a caller were issued by the delegate for a token that names the same pod as the
  caller's token; the caller's token itself was accepted, by the delegate or by the token
  validator; and at a reading of the clock made during the call the credentials had more than
  the minimum of 15 seconds left.
\<close>

theorem served_credentials_are_genuine:
  assumes "cooperative env"
    and "(retriever_step env)\<^sup>*\<^sup>* (newCachedCredentialRetriever opts) (shared w)"
    and "run_state (GetIamCredentials env (Some req)) w = (Ret (Inr resp), w')"
  shows "\<exists>uid. getPodUIDfromServiceAccountToken (jwt env) (ServiceAccountToken req) = Inr uid \<and>
    issued env uid resp \<and> accepted env (ServiceAccountToken req) \<and>
    (\<exists>k \<ge> ticks w. clock env k + 15 * Second < CredsExpiration resp)"
proof -
  have inv: "retriever_inv env (shared w)"
    using assms(2) retriever_inv_new by (rule rp.inv_steps)
  show ?thesis
    using ensuresD(3)[OF follows_GetIamCredentials[OF assms(1)] assms(3) inv order_refl]
    by (simp add: servable_def names_pod_def fresh_since_def defaultMinCredentialTtl_def)
qed

theorem served_credentials_are_genuine_witness:
  "\<exists>uid. getPodUIDfromServiceAccountToken (jwt quiet_env) (ServiceAccountToken (demo_req ''a'')) = Inr uid \<and>
    issued quiet_env uid demo_creds \<and> accepted quiet_env (ServiceAccountToken (demo_req ''a'')) \<and>
    (\<exists>k \<ge> ticks demo_world. clock quiet_env k + 15 * Second < CredsExpiration demo_creds)"
  by (rule served_credentials_are_genuine[where opts = demo_opts and
        w' = "snd (run_state (GetIamCredentials quiet_env (Some (demo_req ''a''))) demo_world)", OF undisturbed_cooperative[OF quiet_undisturbed]])
    (simp_all add: demo_world_def prod_eq_iff quiet_run[unfolded demo_world_def])

definition stored_entry :: cacheEntry where
  "stored_entry = \<lparr>requestLogCtx = ''assoc'', originatingRequest = demo_req ''a'', entry_credentials = demo_creds\<rparr>"

section \<open>Bounds\<close>

text \<open>
  C12. A request asks the delegate at most once and sleeps at most nine times 200 milliseconds,
  whatever the environment does, whether it succeeds or fails.
\<close>

theorem request_cost_is_bounded:
  "cost delegate_call (snd (run_state (GetIamCredentials env request) w)) \<le> cost delegate_call w + 1 \<and>
   cost time_slept (snd (run_state (GetIamCredentials env request) w)) \<le> cost time_slept w + 1800 * Millisecond"
proof
  have free: "free_of_charge delegate_call" "free_of_charge time_slept"
    by (simp_all add: free_of_charge_def)
  show "cost delegate_call (snd (run_state (GetIamCredentials env request) w)) \<le> cost delegate_call w + 1"
    using costs_GetIamCredentials[OF free(1), of 0 1 env request] by (simp add: costs_def)
  show "cost time_slept (snd (run_state (GetIamCredentials env request) w)) \<le> cost time_slept w + 1800 * Millisecond"
    using costs_GetIamCredentials[OF free(2), of "200 * Millisecond" 0 env request]
    by (simp add: costs_def defaultActiveRequestWaitTime_def defaultActiveRequestRetries_def Millisecond_def)
qed

section \<open>Functional behaviour\<close>

text \<open>A clock that does not run backwards, with readings and credentials far from the end of time.\<close>

definition sane_clock :: "('reg, 'key, 'tv) renv \<Rightarrow> bool" where
  "sane_clock env \<longleftrightarrow> mono (clock env) \<and> (\<forall>n. 0 \<le> clock env n \<and> clock env n < 2 ^ 62)"

lemma new_entry_lives:
  assumes "sane_clock env" and "i \<le> j" and "n \<le> m"
    and "clock env i + defaultMinCredentialTtl < exp" and "exp < 2 ^ 62"
    and "clock env m + defaultMinCredentialTtl < exp"
  shows "\<not> Expired (clock env n)
    (new_item (clock env j) tr c v r (time_Sub exp (clock env i)))"
proof -
  have ij: "clock env i \<le> clock env j" and nm: "clock env n \<le> clock env m"
    using assms(1-3) by (auto simp: sane_clock_def mono_def)
  have range: "0 \<le> clock env k" "clock env k < 2 ^ 62" for k
    using assms(1) by (auto simp: sane_clock_def)
  have pos: "0 \<le> defaultMinCredentialTtl" by (simp add: defaultMinCredentialTtl_def Second_def)
  have d: "time_Sub exp (clock env i) = exp - clock env i"
    using range[of i] assms(4,5) pos by (intro time_Sub_id) (simp add: in_int64_def)
  have "in_int64 (clock env j + (exp - clock env i))" "0 < clock env j + (exp - clock env i)"
    using range[of i] range[of j] assms(4,5) pos ij by (auto simp: in_int64_def)
  moreover have "UnixNano (clock env n) = clock env n"
    using range[of n] by (simp add: UnixNano_def int64_id in_int64_def)
  ultimately show ?thesis
    using assms(4,6) pos ij nm by (simp add: d Expired_new_item)
qed

lemma quiet_sane: "sane_clock quiet_env"
  by (auto simp: sane_clock_def quiet_clock mono_def Second_def)

text \<open>
  C11. Credentials fetched for a request are returned to it and stored, and as long as the cache is not changed
  every later request with the same token gets the same credentials back, without a call to the
  delegate, without an event and without a change of the state, until the credentials have 15
  seconds left to live.
\<close>

theorem fetched_credentials_are_reused:
  assumes "undisturbed env" and "sane_clock env"
    and "(retriever_step env)\<^sup>*\<^sup>* (newCachedCredentialRetriever opts) (shared w)"
    and "ServiceAccountToken req \<noteq> ''''"
    and "getPodUIDfromServiceAccountToken (jwt env) (ServiceAccountToken req) = Inr uid"
    and "cache_Get (clock env (ticks w)) (internalCache (shared w)) uid = None"
    and "cache_Get (clock env (2 + ticks w)) (internalActiveRequestCache (shared w)) (ServiceAccountToken req) = None"
    and "delegate env (10 + ticks w) req = Ret (Inr (creds, a))"
    and "clock env (11 + ticks w) + 15 * Second < CredsExpiration creds" and "CredsExpiration creds < 2 ^ 62"
    and "run_state (GetIamCredentials env (Some req)) w = (r, w1)"
    and "shared v = shared w1" and "clock env (2 + ticks v) + 15 * Second < CredsExpiration creds"
  shows "r = Ret (Inr creds) \<and>
    run_state (GetIamCredentials env (Some req)) v = (Ret (Inr creds), v\<lparr>ticks := 4 + ticks v\<rparr>)"
proof -
  have pod: "names_pod env (ServiceAccountToken req) uid" using assms(5) by (simp add: names_pod_def)
  have inv: "retriever_inv env (shared w)" using assms(3) retriever_inv_new by (rule rp.inv_steps)
  then have m: "minCredentialTtl (shared w) = defaultMinCredentialTtl" by (simp add: retriever_inv_def)
  have pos: "0 \<le> defaultMinCredentialTtl" and m15: "defaultMinCredentialTtl = 15 * Second"
    by (simp_all add: defaultMinCredentialTtl_def Second_def)
  have range: "0 \<le> clock env k" "clock env k < 2 ^ 62" for k
    using assms(2) by (auto simp: sane_clock_def)
  have sub: "time_Sub (CredsExpiration creds) (clock env k) = CredsExpiration creds - clock env k"
    if "clock env k + 15 * Second < CredsExpiration creds" for k
    using range[of k] that assms(10) by (intro time_Sub_id) (simp add: in_int64_def Second_def)
  let ?w = "later 4 w"
  let ?d = "time_Sub (CredsExpiration creds) (clock env (7 + ticks ?w))"
  have run: "run_state (fetch_on_miss env req) ?w = (r, w1)"
    using GetIamCredentials_miss[OF assms(1,4) pod assms(6,7)] assms(11) by simp
  have del: "delegate env (6 + ticks ?w) req = Ret (Inr (creds, a))" using assms(8) by simp
  have min: "minCredentialTtl (shared ?w) < ?d" using assms(9) sub[of "11 + ticks w"] by (simp add: m m15)
  note ms = miss_success[OF assms(1) pod del refl min run]
  have "\<not> Expired (clock env (ticks v)) (new_item (clock env (10 + ticks ?w)) tr c v' r' ?d)" for tr c v' r'
    using assms(9,13) m15
    by (intro new_entry_lives[OF assms(2) _ _ _ assms(10), where m = "2 + ticks v"]) simp_all
  then have hit: "cache_Get (clock env (ticks v)) (internalCache (shared v)) uid = Some (fetched_entry req creds a)"
    by (simp add: assms(12) ms(2) cache_Get_set)
  have "minCredentialTtl (shared v) <
      time_Sub (CredsExpiration (entry_credentials (fetched_entry req creds a))) (clock env (2 + ticks v))"
    using sub[of "2 + ticks v"] assms(13) by (simp add: fetched_entry_def assms(12) ms(3) m m15)
  from GetIamCredentials_hit[OF assms(1,4) pod hit this]
  show ?thesis using ms(1) by (simp add: fetched_entry_def)
qed

theorem fetched_credentials_are_reused_witness:
  "\<exists>w1. run_state (GetIamCredentials quiet_env (Some (demo_req ''a''))) demo_world = (Ret (Inr demo_creds), w1) \<and>
     run_state (GetIamCredentials quiet_env (Some (demo_req ''a''))) w1 = (Ret (Inr demo_creds), w1\<lparr>ticks := 4 + ticks w1\<rparr>)"
proof -
  obtain r w1 where run: "run_state (GetIamCredentials quiet_env (Some (demo_req ''a''))) demo_world = (r, w1)"
    by fastforce
  have "r = Ret (Inr demo_creds) \<and>
      run_state (GetIamCredentials quiet_env (Some (demo_req ''a''))) w1 = (Ret (Inr demo_creds), w1\<lparr>ticks := 4 + ticks w1\<rparr>)"
    by (rule fetched_credentials_are_reused[OF quiet_undisturbed quiet_sane _ _ _ _ _ _ _ _ run refl,
          where opts = demo_opts and uid = "''p''" and a = "''assoc''"])
      (simp_all add: demo_world_misses quiet_pod quiet_clock demo_creds_def Second_def demo_req_def,
       simp_all add: demo_world_def quiet_env_def demo_env_def demo_creds_def Second_def)
  then show ?thesis using run by blast
qed

text \<open>
  C22. A request that gets no credentials, for whatever reason (an empty or malformed token, an error of
  the delegate, credentials too close to their end, a panic of the delegate), adds no entry to the credential cache, and no request that asked
  the delegate leaves its token marked as active: the deferred \<open>Delete\<close> runs on every way out, so that neither a failure nor a panic makes
  later requests wait.
\<close>

theorem failed_request_adds_nothing:
  assumes "undisturbed env" and "run_state (GetIamCredentials env (Some req)) w = (res, w')"
    and "\<nexists>creds. res = Ret (Inr creds)"
  shows "dom (items (internalCache (shared w'))) \<subseteq> dom (items (internalCache (shared w))) \<and>
    (ServiceAccountToken req \<noteq> '''' \<and> getPodUIDfromServiceAccountToken (jwt env) (ServiceAccountToken req) = Inr uid \<longrightarrow>
       items (internalActiveRequestCache (shared w')) (ServiceAccountToken req) = None)"
  using failed_request_keys[OF assms] failed_request_unmarked[OF assms(2,3)] by blast

theorem failed_request_adds_nothing_witness:
  "\<exists>w'. run_state (GetIamCredentials quiet_env (Some ((demo_req ''a'')\<lparr>ClusterName := ''partial''\<rparr>))) demo_world = (Panic, w') \<and>
     dom (items (internalCache (shared w'))) = {} \<and> items (internalActiveRequestCache (shared w')) ''a'' = None"
proof -
  let ?req = "(demo_req ''a'')\<lparr>ClusterName := ''partial''\<rparr>"
  have tok: "ServiceAccountToken ?req = ''a''" by (simp add: demo_req_def)
  have pod: "names_pod quiet_env (ServiceAccountToken ?req) ''p''" by (simp add: names_pod_def tok quiet_pod)
  have "fst (run_state (fetch_on_miss quiet_env ?req) w) = Panic" for w
    using callDelegate_panic[OF pod]
    by (simp add: fetch_on_miss_def quiet_runs[OF quiet_undisturbed] quiet_env_def demo_env_def case_prod_beta)
  then obtain w' where run: "run_state (GetIamCredentials quiet_env (Some ?req)) demo_world = (Panic, w')"
    using GetIamCredentials_miss[OF quiet_undisturbed _ pod demo_world_misses] tok by (simp add: prod_eq_iff)
  have "items (internalCache (shared demo_world)) = Map.empty"
    by (simp add: demo_world_def newCachedCredentialRetriever_def OnEvicted_def OnRefresh_def)
  then show ?thesis
    using failed_request_adds_nothing[OF quiet_undisturbed run, of "''p''"] run tok quiet_pod by auto
qed

text \<open>Storing an entry for \<open>d\<close> with a refresh after \<open>r\<close>, away from the end of time.\<close>

lemma new_item_times:
  assumes "sane_clock env" and "0 < r" and "r < 2 ^ 62" and "0 < d" and "d < 2 ^ 62"
  shows "new_item (clock env i) (clock env j) c v r d = \<lparr>Object = v, Refresh = clock env j + r, Expiration = clock env i + d\<rparr>"
proof -
  have "int64 (clock env k + x) = clock env k + x" if "0 < x" "x < 2 ^ 62" for k x
    using assms(1) that by (intro int64_id) (auto simp: sane_clock_def in_int64_def dest!: spec[of _ k])
  then show ?thesis
    using assms(2-5) by (simp add: new_item_def deadline_def DefaultExpiration_def UnixNano_def time_Add_def)
qed

lemma remaining_life:
  assumes "sane_clock env" and "clock env n + m < exp" and "0 \<le> m" and "exp < 2 ^ 62"
  shows "time_Sub exp (clock env n) = exp - clock env n" and "0 < exp - clock env n" and "exp - clock env n < 2 ^ 62"
proof -
  have "0 \<le> clock env n" using assms(1) by (simp add: sane_clock_def)
  then show "time_Sub exp (clock env n) = exp - clock env n" "0 < exp - clock env n" "exp - clock env n < 2 ^ 62"
    using assms(2-4) by (auto intro!: time_Sub_id simp: in_int64_def)
qed

text \<open>
  C9. What a renewal does that gets past the rate limiter and is refused by the delegate. On an irrecoverable
  API error the pod's credentials leave the cache at once, and nothing else does. On any other error, credentials that are
  still valid for more than the minimum are stored again under the pod: they expire after the rest of their life, as measured when the error
  came back, and are due for the next renewal after the retry interval plus a jitter below the maximum, or after the rest of their life if that is less;
  both are counted from the clock readings the cache makes when it stores them.
\<close>

theorem renewal_after_error:
  assumes "undisturbed env" and "sane_clock env" and "limiter_Allow env (ticks w)" and "limiter_Wait env (1 + ticks w) = None"
    and "getPodUIDfromServiceAccountToken (jwt env) (ServiceAccountToken (originatingRequest e)) = Inr uid"
    and "delegate env (2 + ticks w) (originatingRequest e) = Ret (Inl err)"
    and "s' = shared (snd (run_state (onCredentialRenewal env uid e) w))"
    and "exp = CredsExpiration (entry_credentials e)" and "exp < 2 ^ 62" and "0 \<le> minCredentialTtl (shared w)"
    and "0 < maxRetryJitter (shared w)" and "0 < retryInterval (shared w)"
    and "retryInterval (shared w) + maxRetryJitter (shared w) < 2 ^ 62"
  shows "if snd (IsIrrecoverableApiError err)
    then items (internalCache s') = (items (internalCache (shared w)))(uid := None)
    else clock env (3 + ticks w) + minCredentialTtl (shared w) < exp \<longrightarrow>
      (\<exists>jitter. 0 \<le> jitter \<and> jitter < maxRetryJitter (shared w) \<and>
        items (internalCache s') uid = Some
          \<lparr>Object = e,
           Refresh = clock env (9 + ticks w) + min (exp - clock env (3 + ticks w)) (retryInterval (shared w) + jitter),
           Expiration = clock env (8 + ticks w) + (exp - clock env (3 + ticks w))\<rparr>)"
proof -
  have pod: "names_pod env (ServiceAccountToken (originatingRequest e)) uid"
    using assms(5) by (simp add: names_pod_def)
  have s': "s' = (if snd (IsIrrecoverableApiError err)
      then (shared w)\<lparr>internalCache := fst (Delete (internalCache (shared w)) uid)\<rparr>
      else kept_state env (3 + ticks w) uid e (shared w))"
    unfolding assms(7) by (rule run_renewal_error[OF assms(1,3,4) pod assms(6)])
  define j where "j = rnd env (7 + ticks w) mod maxRetryJitter (shared w)"
  have j: "0 \<le> j" "j < maxRetryJitter (shared w)" using assms(11) by (simp_all add: j_def)
  then have i: "int64 (retryInterval (shared w) + j) = retryInterval (shared w) + j"
    using assms(12,13) by (intro int64_id) (simp add: in_int64_def)
  have "items (internalCache s') uid = Some
      \<lparr>Object = e, Refresh = clock env (9 + ticks w) + min (exp - clock env (3 + ticks w)) (retryInterval (shared w) + j),
       Expiration = clock env (8 + ticks w) + (exp - clock env (3 + ticks w))\<rparr>"
    if "\<not> snd (IsIrrecoverableApiError err)" and valid: "clock env (3 + ticks w) + minCredentialTtl (shared w) < exp"
  proof -
    note life = remaining_life[OF assms(2) valid assms(10,9)]
    have min: "minDuration (exp - clock env (3 + ticks w)) (retryInterval (shared w) + j) =
        min (exp - clock env (3 + ticks w)) (retryInterval (shared w) + j)" (is "_ = ?r") by (simp add: minDuration_def)
    have "0 < ?r" "?r < 2 ^ 62" using life j assms(12,13) by auto
    then show ?thesis
      using that life valid
      by (simp add: s' kept_state_def Let_def assms(8)[symmetric] SetWithRefreshExpire_items i min new_item_times[OF assms(2)] j_def[symmetric])
  qed
  then show ?thesis using j by (auto simp: s' Delete_state)
qed

definition down_entry :: cacheEntry where
  "down_entry = \<lparr>requestLogCtx = ''assoc'', originatingRequest = (demo_req ''a'')\<lparr>ClusterName := ''down''\<rparr>,
                 entry_credentials = demo_creds\<rparr>"

theorem renewal_after_error_witness:
  "\<exists>jitter. 0 \<le> jitter \<and> jitter < Minute \<and>
     items (internalCache (shared (snd (run_state (onCredentialRenewal quiet_env ''p'' down_entry) demo_world)))) ''p'' =
       Some \<lparr>Object = down_entry, Refresh = 1000 * Second + 9 + (Minute + jitter), Expiration = 5000 * Second + 5\<rparr>"
proof -
  have lim: "limiter_Allow quiet_env (ticks demo_world)" "limiter_Wait quiet_env (1 + ticks demo_world) = None"
    by (simp_all add: quiet_env_def demo_env_def)
  have pod: "getPodUIDfromServiceAccountToken (jwt quiet_env) (ServiceAccountToken (originatingRequest down_entry)) = Inr ''p''"
    by (simp add: down_entry_def demo_req_def quiet_pod)
  have del: "delegate quiet_env (2 + ticks demo_world) (originatingRequest down_entry) = Ret (Inl (Plain []))"
    by (simp add: quiet_env_def demo_env_def down_entry_def)
  have cfg: "maxRetryJitter (shared demo_world) = Minute" "retryInterval (shared demo_world) = Minute"
    "minCredentialTtl (shared demo_world) = 15 * Second" "ticks demo_world = 0"
    by (simp_all add: demo_world_def newCachedCredentialRetriever_def defaultMaxRetryJitter_def
        defaultRetryInterval_def defaultMinCredentialTtl_def)
  have exp: "5000 * Second = CredsExpiration (entry_credentials down_entry)" by (simp add: down_entry_def demo_creds_def)
  obtain jitter where "0 \<le> jitter" "jitter < Minute" and
    "items (internalCache (shared (snd (run_state (onCredentialRenewal quiet_env ''p'' down_entry) demo_world)))) ''p'' =
       Some \<lparr>Object = down_entry,
             Refresh = clock quiet_env 9 + min (5000 * Second - clock quiet_env 3) (Minute + jitter),
             Expiration = clock quiet_env 8 + (5000 * Second - clock quiet_env 3)\<rparr>"
    using renewal_after_error[OF quiet_undisturbed quiet_sane lim pod del refl exp]
    by (auto simp: cfg quiet_clock Minute_def Second_def)
  then show ?thesis by (intro exI[of _ jitter]) (simp add: quiet_clock Minute_def Second_def)
qed

text \<open>
  C24. A renewal that succeeds replaces the pod's credentials: the entry holds the new credentials and the request they were
  renewed with, expires after the new credentials' life as measured when they came, and is due for its next renewal after the configured
  time or that life, whichever is less; the entries of all other pods are untouched, even in a full cache.
\<close>

theorem renewal_replaces_the_credentials:
  assumes "undisturbed env" and "sane_clock env" and "limiter_Allow env (ticks w)" and "limiter_Wait env (1 + ticks w) = None"
    and "getPodUIDfromServiceAccountToken (jwt env) (ServiceAccountToken (originatingRequest e)) = Inr uid"
    and "delegate env (2 + ticks w) (originatingRequest e) = Ret (Inr (creds, a))"
    and "run_state (onCredentialRenewal env uid e) w = (r, w')"
    and "CredsExpiration creds < 2 ^ 62" and "0 \<le> minCredentialTtl (shared w)"
    and "0 < credentialsRenewalTtl (shared w)" and "credentialsRenewalTtl (shared w) < 2 ^ 62"
    and "cache_inv (internalCache (shared w))" and "uid \<in> dom (items (internalCache (shared w)))"
    and "clock env (3 + ticks w) + minCredentialTtl (shared w) < CredsExpiration creds"
  shows "r = Ret () \<and> items (internalCache (shared w')) = (items (internalCache (shared w)))(uid \<mapsto>
    \<lparr>Object = \<lparr>requestLogCtx = a, originatingRequest = originatingRequest e, entry_credentials = creds\<rparr>,
     Refresh = clock env (7 + ticks w) + min (CredsExpiration creds - clock env (3 + ticks w)) (credentialsRenewalTtl (shared w)),
     Expiration = clock env (6 + ticks w) + (CredsExpiration creds - clock env (3 + ticks w))\<rparr>)"
proof -
  let ?exp = "CredsExpiration creds" and ?c = "internalCache (shared w)"
  have pod: "names_pod env (ServiceAccountToken (originatingRequest e)) uid" using assms(5) by (simp add: names_pod_def)
  note life = remaining_life[OF assms(2,14,9,8)]
  let ?d = "?exp - clock env (3 + ticks w)"
  have min: "minDuration ?d (credentialsRenewalTtl (shared w)) = min ?d (credentialsRenewalTtl (shared w))" (is "_ = ?r")
    by (simp add: minDuration_def)
  have r: "0 < ?r" "?r < 2 ^ 62" using life assms(10,11) by auto
  have "uid \<in> set (lru_keys (lru ?c))" using assms(12,13) by (auto simp: cache_inv_def)
  then have "victim ?c uid = None" using victim_iff[OF assms(12), of uid "the (victim ?c uid)"] by (cases "victim ?c uid") auto
  moreover have "minCredentialTtl (shared w) < ?d" using assms(14) by simp
  note run = run_renewal_success[OF assms(1,3,4) pod assms(6) life(1)[symmetric] this assms(7)]
  ultimately show ?thesis
    using run life r by (simp add: SetWithRefreshExpire_items drop_key_def min new_item_times[OF assms(2)] fetched_entry_def)
qed

definition stocked_world :: "(unit cachedCredentialRetriever, event) world" where
  "stocked_world = demo_world\<lparr>shared := (shared demo_world)\<lparr>internalCache :=
     fst (SetWithRefreshExpire 0 0 (internalCache (shared demo_world)) ''p'' stored_entry Second (1010 * Second))\<rparr>\<rparr>"

theorem renewal_replaces_the_credentials_witness:
  "\<exists>w'. run_state (onCredentialRenewal quiet_env ''p'' stored_entry) stocked_world = (Ret (), w') \<and>
     items (internalCache (shared w')) ''p'' =
       Some \<lparr>Object = stored_entry, Refresh = 1600 * Second + 7, Expiration = 5000 * Second + 3\<rparr>"
proof -
  obtain r w' where run: "run_state (onCredentialRenewal quiet_env ''p'' stored_entry) stocked_world = (r, w')" by fastforce
  have env: "limiter_Allow quiet_env (ticks stocked_world)" "limiter_Wait quiet_env (1 + ticks stocked_world) = None"
    "getPodUIDfromServiceAccountToken (jwt quiet_env) (ServiceAccountToken (originatingRequest stored_entry)) = Inr ''p''"
    "delegate quiet_env (2 + ticks stocked_world) (originatingRequest stored_entry) = Ret (Inr (demo_creds, ''assoc''))"
    using quiet_pod by (simp_all add: quiet_env_def demo_env_def stored_entry_def demo_req_def)
  have cfg: "ticks stocked_world = 0" "minCredentialTtl (shared stocked_world) = 15 * Second"
    "credentialsRenewalTtl (shared stocked_world) = 600 * Second"
    by (simp_all add: stocked_world_def demo_world_def newCachedCredentialRetriever_def defaultMinCredentialTtl_def demo_opts_def)
  have "cache_inv (internalCache (shared demo_world))"
    by (simp add: demo_world_def newCachedCredentialRetriever_def cache_inv_callbacks cache_inv_NewLru demo_opts_def)
  then have inv: "cache_inv (internalCache (shared stocked_world))" "''p'' \<in> dom (items (internalCache (shared stocked_world)))"
    by (simp_all add: stocked_world_def cache_inv_SetWithRefreshExpire SetWithRefreshExpire_items)
  have "r = Ret () \<and> items (internalCache (shared w')) ''p'' = Some \<lparr>Object = stored_entry,
      Refresh = clock quiet_env 7 + min (5000 * Second - clock quiet_env 3) (600 * Second),
      Expiration = clock quiet_env 6 + (5000 * Second - clock quiet_env 3)\<rparr>"
    using renewal_replaces_the_credentials[OF quiet_undisturbed quiet_sane env run _ _ _ _ inv]
    by (simp add: cfg quiet_clock demo_creds_def Second_def) (simp add: stored_entry_def demo_creds_def Second_def)
  then show ?thesis using run by (simp add: quiet_clock Second_def)
qed

end
