(* ===== verification/Retriever_Waiting.thy ===== *)
theory Retriever_Waiting
  imports Retriever_Properties
begin

text \<open>
  Requests that wait: while the token of a request is marked as active by another one, a request looks into the cache up to
  ten times. What it then does depends on what it sees at its lookups only, and the other goroutines may change the memory
  in any way between them.
\<close>

section \<open>What a waiting request sees\<close>

text \<open>
  A waiting request reads the shared memory twice per attempt, first the cache and then the mark of its token, and writes
  nothing. \<open>seen env w k\<close> is the memory at its reading \<open>k\<close>, after whatever the others did up to then.
\<close>

primrec seen :: "('reg, 'key, 'tv) renv \<Rightarrow> ('tv cachedCredentialRetriever, event) world \<Rightarrow> nat \<Rightarrow> 'tv cachedCredentialRetriever" where
  "seen env w 0 = others env (Suc (ticks w)) (shared w)"
| "seen env w (Suc k) = others env (ticks w + 2 * k + 3) (seen env w k)"

definition looked_up ::
  "('reg, 'key, 'tv) renv \<Rightarrow> ('tv cachedCredentialRetriever, event) world \<Rightarrow> string \<Rightarrow> nat \<Rightarrow> cacheEntry option" where
  "looked_up env w uid i = cache_Get (clock env (ticks w + 4 * i)) (internalCache (seen env w (2 * i))) uid"

definition seen_marked ::
  "('reg, 'key, 'tv) renv \<Rightarrow> ('tv cachedCredentialRetriever, event) world \<Rightarrow> string \<Rightarrow> nat \<Rightarrow> bool" where
  "seen_marked env w tok i \<longleftrightarrow>
     cache_Get (clock env (ticks w + 4 * i + 2)) (internalActiveRequestCache (seen env w (2 * i + 1))) tok \<noteq> None"

text \<open>The world after \<open>i\<close> attempts that missed and waited.\<close>

definition waited ::
  "('reg, 'key, 'tv) renv \<Rightarrow> ('tv cachedCredentialRetriever, event) world \<Rightarrow> nat
   \<Rightarrow> ('tv cachedCredentialRetriever, event) world" where
  "waited env w i =
     (if i = 0 then w
      else \<lparr>shared = seen env w (2 * i - 1), ticks = ticks w + 4 * i,
            trace = trace w @ replicate i (Slept defaultActiveRequestWaitTime)\<rparr>)"

lemma seen_mark: "seen env w (Suc (2 * i)) = others env (ticks w + 4 * i + 3) (seen env w (2 * i))"
  by (simp add: mult.commute)

lemma seen_lookup: "seen env w (2 * Suc j) = others env (Suc (ticks w + 4 * Suc j)) (seen env w (Suc (2 * j)))"
proof -
  have "2 * Suc j = Suc (Suc (2 * j))" "ticks w + 2 * Suc (2 * j) + 3 = Suc (ticks w + 4 * Suc j)" by simp_all
  then show ?thesis using seen.simps(2)[of env w "Suc (2 * j)"] by (simp only:)
qed

lemma others_waited: "others env (Suc (ticks w + 4 * i)) (shared (waited env w i)) = seen env w (2 * i)"
  by (cases i) (simp_all add: waited_def seen_lookup del: seen.simps(2) mult_Suc_right, simp)

lemma ticks_waited [simp]: "ticks (waited env w i) = ticks w + 4 * i"
  by (simp add: waited_def)

lemma waited_then [simp]:
  "(waited env w i)\<lparr>ticks := t, shared := s\<rparr> =
     \<lparr>shared = s, ticks = t, trace = trace w @ replicate i (Slept defaultActiveRequestWaitTime)\<rparr>"
  by (simp add: waited_def)

section \<open>One attempt\<close>

lemma attempt_miss:
  assumes "looked_up env w uid i = None"
  shows "run_state (tryServingFromCache env uid req) (waited env w i) =
    (None, (waited env w i)\<lparr>ticks := ticks w + 4 * i + 2, shared := seen env w (2 * i)\<rparr>)"
  using assms
  by (simp add: tryServingFromCache_def internalCache_Get_def read_shared_def looked_up_def others_waited)

lemma attempt_mark:
  "run_state (waitForActiveRequest env tok i) ((waited env w i)\<lparr>ticks := ticks w + 4 * i + 2, shared := seen env w (2 * i)\<rparr>) =
    (seen_marked env w tok i,
     \<lparr>shared = seen env w (2 * i + 1), ticks = ticks w + 4 * i + 4,
      trace = trace w @ replicate (if seen_marked env w tok i \<and> i < defaultActiveRequestRetries then Suc i else i)
        (Slept defaultActiveRequestWaitTime)\<rparr>)"
proof -
  have t: "Suc (Suc (Suc (ticks w + 4 * i))) = ticks w + 4 * i + 3" by simp
  show ?thesis
    using replicate_append_same[of i "Slept defaultActiveRequestWaitTime"]
    by (simp add: waitForActiveRequest_def activeRequests_Get_def read_shared_def seen_marked_def seen_mark t del: seen.simps(2))
qed

lemma attempt_hit:
  assumes "looked_up env w uid i = Some e"
    and "minCredentialTtl (others env (ticks w + 4 * i + 3) (seen env w (2 * i))) <
      time_Sub (CredsExpiration (entry_credentials e)) (clock env (ticks w + 4 * i + 2))"
    and "ServiceAccountToken (originatingRequest e) = ServiceAccountToken req"
  shows "run_state (tryServingFromCache env uid req) (waited env w i) =
    (Some (entry_credentials e), (waited env w i)\<lparr>ticks := ticks w + 4 * i + 4, shared := others env (ticks w + 4 * i + 3) (seen env w (2 * i))\<rparr>)"
proof -
  have t: "Suc (Suc (Suc (ticks w + 4 * i))) = ticks w + 4 * i + 3" by simp
  show ?thesis
    using assms
    by (simp add: tryServingFromCache_def internalCache_Get_def read_shared_def looked_up_def credentialsInEntryWithinValidTtl_def Let_def
        others_waited t)
qed

section \<open>The loop\<close>

text \<open>While it misses and sees the mark, the request has the rest of its attempts left.\<close>

lemma serve_loop_waits:
  assumes "\<And>i. i < j \<Longrightarrow> looked_up env w uid i = None \<and> seen_marked env w (ServiceAccountToken req) i"
    and "j \<le> defaultActiveRequestRetries"
  shows "run_state (serve_loop env uid req (Suc defaultActiveRequestRetries)) w =
    run_state (serve_loop env uid req (Suc (defaultActiveRequestRetries - j))) (waited env w j)"
  using assms
proof (induction j)
  case 0
  then show ?case by (simp add: waited_def del: serve_loop.simps)
next
  case (Suc j)
  let ?n = defaultActiveRequestRetries
  have left: "Suc (?n - j) = Suc (Suc (?n - Suc j))" "?n - (?n - j) = j" "j < ?n" using Suc.prems(2) by auto
  have "\<lparr>shared = seen env w (2 * j + 1), ticks = ticks w + 4 * j + 4,
      trace = trace w @ replicate (Suc j) (Slept defaultActiveRequestWaitTime)\<rparr> = waited env w (Suc j)"
    by (simp add: waited_def)
  then have "run_state (serve_loop env uid req (Suc (?n - j))) (waited env w j) =
      run_state (serve_loop env uid req (?n - j)) (waited env w (Suc j))"
    using attempt_miss[of env w uid j req] attempt_mark[of env "ServiceAccountToken req" j w] Suc.prems(1)[of j] left
    by (subst serve_loop.simps) (simp del: serve_loop.simps)
  then show ?case using Suc left(1) by (simp del: serve_loop.simps)
qed

text \<open>
  C13. What a request does while its token is marked as active, whatever the other goroutines do to the memory in the meantime. It
  waits, sleeping 200 milliseconds after each attempt, as long as its lookups find no entry for its pod and each is
  followed by a sight of the mark. Let the lookup \<open>j\<close>, counted from 0 and at most 9, be the first where that ends. If it finds valid credentials that were fetched
  with the same token, the request is served these, has slept \<open>j\<close> times and done nothing else: no call of the delegate, no change of the memory. If it finds no entry and the mark is
  down then, or \<open>j\<close> is 9, the request goes on to ask the delegate, after \<open>j\<close> sleeps.
\<close>

theorem waiters_are_served:
  assumes "ServiceAccountToken req = tok" and "tok \<noteq> ''''" and "getPodUIDfromServiceAccountToken (jwt env) tok = Inr uid"
    and "\<And>i. i < j \<Longrightarrow> looked_up env w uid i = None \<and> seen_marked env w tok i" and "j \<le> 9"
  shows "(\<forall>e. looked_up env w uid j = Some e \<and> ServiceAccountToken (originatingRequest e) = tok \<and>
        minCredentialTtl (others env (ticks w + 4 * j + 3) (seen env w (2 * j))) <
          time_Sub (CredsExpiration (entry_credentials e)) (clock env (ticks w + 4 * j + 2)) \<longrightarrow>
      run_state (GetIamCredentials env (Some req)) w =
        (Ret (Inr (entry_credentials e)),
         \<lparr>shared = others env (ticks w + 4 * j + 3) (seen env w (2 * j)), ticks = ticks w + 4 * j + 4,
          trace = trace w @ replicate j (Slept (200 * Millisecond))\<rparr>)) \<and>
    (looked_up env w uid j = None \<and> (\<not> seen_marked env w tok j \<or> j = 9) \<longrightarrow>
      run_state (GetIamCredentials env (Some req)) w =
        run_state (fetch_on_miss env req)
          \<lparr>shared = seen env w (2 * j + 1), ticks = ticks w + 4 * j + 4,
           trace = trace w @ replicate j (Slept (200 * Millisecond))\<rparr>)"
proof -
  let ?n = defaultActiveRequestRetries
  have n: "?n = 9" by (simp add: defaultActiveRequestRetries_def)
  have ms: "200 * Millisecond = defaultActiveRequestWaitTime" by (simp add: defaultActiveRequestWaitTime_def)
  have pod: "getPodUIDfromServiceAccountToken (jwt env) (ServiceAccountToken req) = Inr uid" using assms(1,3) by simp
  have loop: "run_state (serve_loop env uid req (Suc ?n)) w = run_state (serve_loop env uid req (Suc (?n - j))) (waited env w j)"
    using assms(1,4,5) n by (intro serve_loop_waits) simp_all
  have get: "run_state (GetIamCredentials env (Some req)) w =
      (case run_state (serve_loop env uid req (Suc (?n - j))) (waited env w j) of
         (Some resp, w') \<Rightarrow> (Ret (Inr resp), w') | (None, w') \<Rightarrow> run_state (fetch_on_miss env req) w')"
    using assms(1,2) pod loop
    by (simp add: GetIamCredentials_def case_prod_beta del: serve_loop.simps split: option.split)
  have "run_state (GetIamCredentials env (Some req)) w = (Ret (Inr (entry_credentials e)),
      \<lparr>shared = others env (ticks w + 4 * j + 3) (seen env w (2 * j)), ticks = ticks w + 4 * j + 4,
       trace = trace w @ replicate j (Slept defaultActiveRequestWaitTime)\<rparr>)"
    if "looked_up env w uid j = Some e" "ServiceAccountToken (originatingRequest e) = tok"
      "minCredentialTtl (others env (ticks w + 4 * j + 3) (seen env w (2 * j))) <
        time_Sub (CredsExpiration (entry_credentials e)) (clock env (ticks w + 4 * j + 2))" for e
    unfolding get using attempt_hit[OF that(1,3), of req] that(2) assms(1) by simp
  moreover have "run_state (GetIamCredentials env (Some req)) w = run_state (fetch_on_miss env req)
      \<lparr>shared = seen env w (2 * j + 1), ticks = ticks w + 4 * j + 4,
       trace = trace w @ replicate j (Slept defaultActiveRequestWaitTime)\<rparr>"
    if miss: "looked_up env w uid j = None" and "\<not> seen_marked env w tok j \<or> j = 9"
  proof -
    have "?n - (?n - j) = j" using assms(5) n by simp
    then show ?thesis
      unfolding get using attempt_miss[OF miss, of req] attempt_mark[of env tok j w] that(2) assms(1,5) n by auto
  qed
  ultimately show ?thesis unfolding ms by blast
qed

text \<open>Another goroutine is fetching for token \<open>a\<close>, and its credentials are visible from tick 9 on, the third lookup.\<close>

definition fetching :: "unit cachedCredentialRetriever" where
  "fetching = (newCachedCredentialRetriever demo_opts)\<lparr>internalActiveRequestCache :=
     (NewLru 5 0 0)\<lparr>items := [''a'' \<mapsto> \<lparr>Object = None, Refresh = 0, Expiration = 0\<rparr>]\<rparr>\<rparr>"

definition published :: "unit cachedCredentialRetriever" where
  "published = fetching\<lparr>internalCache := (internalCache fetching)\<lparr>items :=
     [''p'' \<mapsto> \<lparr>Object = stored_entry, Refresh = 0, Expiration = 4000 * Second\<rparr>]\<rparr>\<rparr>"

definition publishing_env :: "(unit, unit, unit) renv" where
  "publishing_env = quiet_env\<lparr>others := (\<lambda>k s. if 9 \<le> k then published else s)\<rparr>"

theorem waiters_are_served_witness:
  "run_state (GetIamCredentials publishing_env (Some (demo_req ''a''))) \<lparr>shared = fetching, ticks = 0, trace = []\<rparr> =
     (Ret (Inr demo_creds), \<lparr>shared = published, ticks = 12, trace = replicate 2 (Slept (200 * Millisecond))\<rparr>)"
proof -
  let ?w = "\<lparr>shared = fetching, ticks = 0, trace = []\<rparr> :: (unit cachedCredentialRetriever, event) world"
  have tok: "ServiceAccountToken (demo_req ''a'') = ''a''" "getPodUIDfromServiceAccountToken (jwt publishing_env) ''a'' = Inr ''p''"
    using quiet_pod by (simp_all add: demo_req_def publishing_env_def)
  have clock: "clock publishing_env k = 1000 * Second + min (int k) 5000" for k by (simp add: publishing_env_def quiet_clock)
  have seen: "seen publishing_env ?w k = (if k < 4 then fetching else published)" for k
    by (induction k) (auto simp: publishing_env_def)
  have none: "cache_Get t (internalCache fetching) ''p'' = None" for t
    by (simp add: fetching_def newCachedCredentialRetriever_def OnEvicted_def OnRefresh_def cache_ops)
  have mark: "cache_Get t (internalActiveRequestCache fetching) ''a'' \<noteq> None" for t by (simp add: fetching_def cache_ops)
  have waits: "looked_up publishing_env ?w ''p'' i = None \<and> seen_marked publishing_env ?w ''a'' i" if "i < 2" for i
    using that none mark by (simp add: looked_up_def seen_marked_def seen del: seen.simps)
  have hit: "looked_up publishing_env ?w ''p'' 2 = Some stored_entry"
    by (simp add: looked_up_def seen clock published_def del: seen.simps)
      (simp add: published_def cache_ops UnixNano_def int64_id in_int64_def Second_def)
  have ttl: "minCredentialTtl published < time_Sub (CredsExpiration (entry_credentials stored_entry)) (clock publishing_env 10)"
    by (simp add: clock published_def fetching_def newCachedCredentialRetriever_def defaultMinCredentialTtl_def stored_entry_def
        demo_creds_def Second_def time_Sub_def)
  have out: "others publishing_env 11 s = published" for s by (simp add: publishing_env_def)
  have entry: "ServiceAccountToken (originatingRequest stored_entry) = ''a''" "entry_credentials stored_entry = demo_creds"
    by (simp_all add: stored_entry_def demo_req_def)
  show ?thesis
    using waiters_are_served[OF tok(1) _ tok(2), of 2 ?w] waits hit ttl entry by (simp add: out)
qed

end
