(* ===== verification/Request_Validation.thy ===== *)
theory Request_Validation
  imports Credentials
begin

text \<open>
  Validation of a credential request, \<open>src/internal/validation/request.go\<close>, with the standard
  library's \<open>net.SplitHostPort\<close>.
\<close>

section \<open>Host and port\<close>

definition IndexByte :: "char \<Rightarrow> string \<Rightarrow> nat option" where
  "IndexByte c s = (let i = length (takeWhile (\<lambda>x. x \<noteq> c) s) in if i < length s then Some i else None)"

definition LastIndexByte :: "char \<Rightarrow> string \<Rightarrow> nat option" where
  "LastIndexByte c s = map_option (\<lambda>j. length s - 1 - j) (IndexByte c (rev s))"

text \<open>\<open>None\<close> where \<open>SplitHostPort\<close> returns an error (the code only looks at whether there is one).\<close>

definition SplitHostPort :: "string \<Rightarrow> (string \<times> string) option" where
  "SplitHostPort s =
     (let finish = (\<lambda>host i j k.
            if CHR ''['' \<in> set (drop j s) then None
            else if CHR '']'' \<in> set (drop k s) then None
            else Some (host, drop (i + 1) s))
      in case LastIndexByte (CHR '':'') s of
           None \<Rightarrow> None
         | Some i \<Rightarrow>
             if s ! 0 = CHR ''['' then
               (case IndexByte (CHR '']'') s of
                  None \<Rightarrow> None
                | Some e \<Rightarrow>
                    if e + 1 = length s then None
                    else if e + 1 = i then finish (take (e - 1) (drop 1 s)) i 1 (e + 1)
                    else None)
             else (let host = take i s in
                   if CHR '':'' \<in> set host then None else finish host i 0 0))"

section \<open>The validator\<close>

record DefaultCredentialValidator =
  TargetHosts :: "string list option"

definition defaultValidTargetHosts :: "string list" where
  "defaultValidTargetHosts = [DefaultIpv4TargetHost, DefaultIpv6TargetHost]"

text \<open>The host a request names, without its port and without brackets.\<close>

definition stripHostPort :: "string \<Rightarrow> string" where
  "stripHostPort h = (case SplitHostPort h of Some (host, port) \<Rightarrow> host | None \<Rightarrow> h)"

definition stripBrackets :: "string \<Rightarrow> string" where
  "stripBrackets h =
     (if length h > 1 \<and> h ! 0 = CHR ''['' \<and> h ! (length h - 1) = CHR '']''
      then take (length h - 2) (drop 1 h) else h)"

definition validateRequestTargetHost :: "DefaultCredentialValidator \<Rightarrow> string \<Rightarrow> goerr option" where
  "validateRequestTargetHost cv requestTargetHost =
     (let host = stripBrackets (stripHostPort requestTargetHost);
          desired = (case TargetHosts cv of None \<Rightarrow> defaultValidTargetHosts | Some hs \<Rightarrow> hs)
      in if host \<in> set desired then None
         else Some (NewAccessDeniedError
           [Txt ''Called agent through invalid address, please use either '', Strs desired,
            Txt '' address not '', Txt host]))"

definition validateTokenBasic ::
  "('reg, 'key) jwt_lib \<Rightarrow> time \<Rightarrow> EksCredentialsRequest \<Rightarrow> goerr option" where
  "validateTokenBasic lib now credsRequest =
     (if ServiceAccountToken credsRequest = [] then
        Some (NewRequestValidationError [Txt ''Service account token cannot be empty''])
      else
        (case ParseRegistered lib (ServiceAccountToken credsRequest) of
           Inl err \<Rightarrow>
             Some (NewRequestValidationError
               (Txt ''Service account token cannot be parsed: '' # Error err))
         | Inr claims \<Rightarrow>
             (case ValidateRegistered lib now claims of
                Some err \<Rightarrow>
                  Some (NewRequestValidationError
                    (Txt ''Service account token failed basic claim validations: '' # Error err))
              | None \<Rightarrow> None)))"

definition ValidateEksCredentialRequest ::
  "('reg, 'key) jwt_lib \<Rightarrow> time \<Rightarrow> DefaultCredentialValidator \<Rightarrow> EksCredentialsRequest \<Rightarrow> goerr option"
  where
  "ValidateEksCredentialRequest lib now cv credsRequest =
     (case validateRequestTargetHost cv (RequestTargetHost credsRequest) of
        Some err \<Rightarrow> Some err
      | None \<Rightarrow> validateTokenBasic lib now credsRequest)"

section \<open>Splitting a joined address\<close>

lemma takeWhile_absent: "c \<notin> set xs \<Longrightarrow> takeWhile (\<lambda>x. x \<noteq> c) xs = xs"
  by (induction xs) auto

lemma IndexByte_append: "c \<notin> set xs \<Longrightarrow> IndexByte c (xs @ c # ys) = Some (length xs)"
  by (simp add: IndexByte_def Let_def takeWhile_tail takeWhile_absent)

lemma IndexByte_None: "c \<notin> set xs \<Longrightarrow> IndexByte c xs = None"
  by (simp add: IndexByte_def takeWhile_absent)

lemma LastIndexByte_append: "c \<notin> set ys \<Longrightarrow> LastIndexByte c (xs @ c # ys) = Some (length xs)"
  using IndexByte_append[of c "rev ys" "rev xs"] by (simp add: LastIndexByte_def)

definition plain_host :: "string \<Rightarrow> bool" where
  "plain_host h \<longleftrightarrow> h \<noteq> [] \<and> set h \<inter> {CHR '':'', CHR ''['', CHR '']''} = {}"

definition plain_port :: "string \<Rightarrow> bool" where
  "plain_port p \<longleftrightarrow> set p \<inter> {CHR '':'', CHR ''['', CHR '']''} = {}"

lemma SplitHostPort_plain:
  assumes "plain_host h" and "plain_port p"
  shows "SplitHostPort (h @ CHR '':'' # p) = Some (h, p)"
proof -
  obtain c cs where h: "h = c # cs" using assms(1) by (cases h) (auto simp: plain_host_def)
  have "LastIndexByte (CHR '':'') (h @ CHR '':'' # p) = Some (length h)"
    using assms(2) by (intro LastIndexByte_append) (auto simp: plain_port_def)
  moreover have "(h @ CHR '':'' # p) ! 0 \<noteq> CHR ''[''" using assms(1) h by (auto simp: plain_host_def)
  ultimately show ?thesis
    using assms by (auto simp: SplitHostPort_def Let_def plain_host_def plain_port_def)
qed

lemma SplitHostPort_bracketed:
  assumes "CHR ''['' \<notin> set h" and "CHR '']'' \<notin> set h" and "plain_port p"
  shows "SplitHostPort (CHR ''['' # h @ CHR '']'' # CHR '':'' # p) = Some (h, p)"
proof -
  let ?s = "CHR ''['' # h @ CHR '']'' # CHR '':'' # p"
  have "LastIndexByte (CHR '':'') ?s = Some (length h + 2)"
    using LastIndexByte_append[of "CHR '':''" p "CHR ''['' # h @ [CHR '']'']"] assms(3)
    by (simp add: plain_port_def)
  moreover have "IndexByte (CHR '']'') ?s = Some (length h + 1)"
    using IndexByte_append[of "CHR '']''" "CHR ''['' # h" "CHR '':'' # p"] assms(2) by simp
  ultimately show ?thesis using assms by (simp add: SplitHostPort_def Let_def plain_port_def)
qed

lemma SplitHostPort_no_colon: "CHR '':'' \<notin> set h \<Longrightarrow> SplitHostPort h = None"
  by (simp add: SplitHostPort_def LastIndexByte_def IndexByte_None)

lemma stripBrackets_plain: "h \<noteq> [] \<Longrightarrow> h ! 0 \<noteq> CHR ''['' \<Longrightarrow> stripBrackets h = h"
  by (simp add: stripBrackets_def)

section \<open>What the validator accepts\<close>

lemma ValidateEksCredentialRequest_None:
  "ValidateEksCredentialRequest lib now cv req = None \<longleftrightarrow>
     stripBrackets (stripHostPort (RequestTargetHost req))
       \<in> set (case TargetHosts cv of None \<Rightarrow> defaultValidTargetHosts | Some hs \<Rightarrow> hs) \<and>
     ServiceAccountToken req \<noteq> [] \<and>
     (\<exists>claims. ParseRegistered lib (ServiceAccountToken req) = Inr claims \<and>
        ValidateRegistered lib now claims = None)"
  by (auto simp: ValidateEksCredentialRequest_def validateRequestTargetHost_def validateTokenBasic_def
      Let_def split: option.splits sum.splits)

lemma ValidateEksCredentialRequest_status:
  "ValidateEksCredentialRequest lib now cv req = Some e \<Longrightarrow>
     (if stripBrackets (stripHostPort (RequestTargetHost req))
         \<in> set (case TargetHosts cv of None \<Rightarrow> defaultValidTargetHosts | Some hs \<Rightarrow> hs)
      then HttpStatus e = Some StatusBadRequest else HttpStatus e = Some StatusForbidden)"
  by (auto simp: ValidateEksCredentialRequest_def validateRequestTargetHost_def validateTokenBasic_def
      Let_def NewRequestValidationError_def NewAccessDeniedError_def split: option.splits sum.splits if_splits)

end
