(* ===== verification/Json.thy ===== *)
theory Json
  imports Credentials
begin

text \<open>
  What the agent uses of \<open>encoding/json\<close>: the syntax of values, the decoding and quoting of
  strings. Texts are strings of bytes. An object is the list of its members in the order of the
  text. The decoder checks the syntax of the whole text before it decodes anything, so a syntax error
  anywhere is an error; the text of such an error is not modelled.
\<close>

section \<open>UTF-8\<close>

definition byte :: "char \<Rightarrow> nat" where
  "byte c = of_char c"

definition cont_byte :: "char \<Rightarrow> bool" where
  "cont_byte c \<longleftrightarrow> 128 \<le> byte c \<and> byte c < 192"

text \<open>The length of the encoded rune a string begins with, 0 where it begins with none (\<open>utf8.DecodeRune\<close>).\<close>

fun utf8_len :: "string \<Rightarrow> nat" where
  "utf8_len [] = 0"
| "utf8_len (c # cs) =
     (let b = byte c in
      if b < 128 then 1
      else if 194 \<le> b \<and> b < 224 then
        (case cs of d # _ \<Rightarrow> if cont_byte d then 2 else 0 | [] \<Rightarrow> 0)
      else if 224 \<le> b \<and> b < 240 then
        (case cs of
           d # e # _ \<Rightarrow>
             if cont_byte d \<and> cont_byte e \<and> (b = 224 \<longrightarrow> 160 \<le> byte d) \<and> (b = 237 \<longrightarrow> byte d < 160) then 3 else 0
         | _ \<Rightarrow> 0)
      else if 240 \<le> b \<and> b < 245 then
        (case cs of
           d # e # f # _ \<Rightarrow>
             if cont_byte d \<and> cont_byte e \<and> cont_byte f \<and> (b = 240 \<longrightarrow> 144 \<le> byte d) \<and> (b = 244 \<longrightarrow> byte d < 144)
             then 4 else 0
         | _ \<Rightarrow> 0)
      else 0)"

text \<open>The encoding of U+FFFD, and of any rune (\<open>utf8.EncodeRune\<close>).\<close>

definition chr :: "nat \<Rightarrow> char" where
  "chr n = char_of n"

definition replacement :: string where
  "replacement = [chr 239, chr 191, chr 189]"

definition encode_rune :: "nat \<Rightarrow> string" where
  "encode_rune r =
     (if r < 128 then [chr r]
      else if r < 2048 then [chr (192 + r div 64), chr (128 + r mod 64)]
      else if 55296 \<le> r \<and> r < 57344 \<or> 1114111 < r then replacement
      else if r < 65536 then [chr (224 + r div 4096), chr (128 + r div 64 mod 64), chr (128 + r mod 64)]
      else [chr (240 + r div 262144), chr (128 + r div 4096 mod 64), chr (128 + r div 64 mod 64), chr (128 + r mod 64)])"

section \<open>String literals\<close>

definition hex_digit :: "char \<Rightarrow> nat option" where
  "hex_digit c =
     (let b = byte c in
      if 48 \<le> b \<and> b \<le> 57 then Some (b - 48)
      else if 97 \<le> b \<and> b \<le> 102 then Some (b - 87)
      else if 65 \<le> b \<and> b \<le> 70 then Some (b - 55)
      else None)"

text \<open>\<open>getu4\<close>: four hexadecimal digits at the front.\<close>

fun getu4 :: "string \<Rightarrow> nat option" where
  "getu4 (a # b # c # d # _) =
     (case (hex_digit a, hex_digit b, hex_digit c, hex_digit d) of
        (Some w, Some x, Some y, Some z) \<Rightarrow> Some (w * 4096 + x * 256 + y * 16 + z)
      | _ \<Rightarrow> None)"
| "getu4 _ = None"

definition surrogate :: "nat \<Rightarrow> bool" where
  "surrogate r \<longleftrightarrow> 55296 \<le> r \<and> r < 57344"

text \<open>\<open>utf16.DecodeRune\<close> for the second half that follows, if one does.\<close>

definition surrogate_pair :: "nat \<Rightarrow> string \<Rightarrow> nat option" where
  "surrogate_pair r rest =
     (case rest of
        x # y # ds \<Rightarrow>
          if x = CHR 92 \<and> y = CHR ''u'' then
            (case getu4 ds of
               Some r2 \<Rightarrow>
                 if 55296 \<le> r \<and> r < 56320 \<and> 56320 \<le> r2 \<and> r2 < 57344
                 then Some ((r - 55296) * 1024 + (r2 - 56320) + 65536) else None
             | None \<Rightarrow> None)
          else None
      | _ \<Rightarrow> None)"

definition simple_escape :: "char \<Rightarrow> char option" where
  "simple_escape e =
     (if e = CHR 34 \<or> e = CHR 92 \<or> e = CHR ''/'' then Some e
      else if e = CHR ''b'' then Some (CHR 8)
      else if e = CHR ''f'' then Some (CHR 12)
      else if e = CHR ''n'' then Some (CHR 10)
      else if e = CHR ''r'' then Some (CHR 13)
      else if e = CHR ''t'' then Some (CHR 9)
      else None)"

text \<open>The rest of a literal after its opening quote: the decoded string and what follows the closing one.\<close>

definition emit_str :: "string \<Rightarrow> (string \<times> string) option \<Rightarrow> (string \<times> string) option" where
  "emit_str out = map_option (\<lambda>(s, rest). (out @ s, rest))"

function (sequential) unquote :: "string \<Rightarrow> (string \<times> string) option" where
  "unquote [] = None"
| "unquote (c # cs) =
     (if c = CHR 34 then Some ([], cs)
      else if c = CHR 92 then
        (case cs of
           [] \<Rightarrow> None
         | e # ds \<Rightarrow>
             if e = CHR ''u'' then
               (case getu4 ds of
                  None \<Rightarrow> None
                | Some r \<Rightarrow>
                    if surrogate r then
                      (case surrogate_pair r (drop 4 ds) of
                         Some p \<Rightarrow> emit_str (encode_rune p) (unquote (drop 10 ds))
                       | None \<Rightarrow> emit_str replacement (unquote (drop 4 ds)))
                    else emit_str (encode_rune r) (unquote (drop 4 ds)))
             else
               (case simple_escape e of
                  None \<Rightarrow> None
                | Some x \<Rightarrow> emit_str [x] (unquote ds)))
      else if byte c < 32 then None
      else if utf8_len (c # cs) = 0 then emit_str replacement (unquote cs)
      else emit_str (take (utf8_len (c # cs)) (c # cs)) (unquote (drop (utf8_len (c # cs) - 1) cs)))"
  by pat_completeness auto
termination by (relation "measure length") auto

text \<open>\<open>appendString\<close> with HTML escaping, between the quotes.\<close>

definition hex_char_of :: "nat \<Rightarrow> char" where
  "hex_char_of n = ''0123456789abcdef'' ! n"

definition escape_byte :: "char \<Rightarrow> string" where
  "escape_byte c =
     (if c = CHR 34 \<or> c = CHR 92 then [CHR 92, c]
      else if c = CHR 8 then [CHR 92, CHR ''b'']
      else if c = CHR 12 then [CHR 92, CHR ''f'']
      else if c = CHR 10 then [CHR 92, CHR ''n'']
      else if c = CHR 13 then [CHR 92, CHR ''r'']
      else if c = CHR 9 then [CHR 92, CHR ''t'']
      else if byte c < 32 \<or> c = CHR ''<'' \<or> c = CHR ''>'' \<or> c = CHR ''&''
      then [CHR 92, CHR ''u'', CHR ''0'', CHR ''0'', hex_char_of (byte c div 16), hex_char_of (byte c mod 16)]
      else [c])"

text \<open>U+2028 and U+2029 are escaped too.\<close>

definition line_separator :: "string \<Rightarrow> string option" where
  "line_separator s =
     (if s = [chr 226, chr 128, chr 168] then Some [CHR 92, CHR ''u'', CHR ''2'', CHR ''0'', CHR ''2'', CHR ''8'']
      else if s = [chr 226, chr 128, chr 169] then Some [CHR 92, CHR ''u'', CHR ''2'', CHR ''0'', CHR ''2'', CHR ''9'']
      else None)"

definition quoted_rune :: "string \<Rightarrow> string" where
  "quoted_rune s = (case line_separator s of Some e \<Rightarrow> e | None \<Rightarrow> s)"

function (sequential) quote_body :: "string \<Rightarrow> string" where
  "quote_body [] = []"
| "quote_body (c # cs) =
     (if byte c < 128 then escape_byte c @ quote_body cs
      else if utf8_len (c # cs) = 0
      then [CHR 92, CHR ''u'', CHR ''f'', CHR ''f'', CHR ''f'', CHR ''d''] @ quote_body cs
      else quoted_rune (take (utf8_len (c # cs)) (c # cs)) @ quote_body (drop (utf8_len (c # cs) - 1) cs))"
  by pat_completeness auto
termination by (relation "measure length") auto

definition quote :: "string \<Rightarrow> string" where
  "quote s = CHR 34 # quote_body s @ [CHR 34]"

section \<open>Decoding inverts quoting\<close>

function (sequential) valid_utf8 :: "string \<Rightarrow> bool" where
  "valid_utf8 [] = True"
| "valid_utf8 (c # cs) = (utf8_len (c # cs) \<noteq> 0 \<and> valid_utf8 (drop (utf8_len (c # cs) - 1) cs))"
  by pat_completeness auto
termination by (relation "measure length") auto

declare unquote.simps(2) [simp del] quote_body.simps(2) [simp del] valid_utf8.simps(2) [simp del]
declare utf8_len.simps(2) [simp del]

lemma chr_byte [simp]: "chr (byte c) = c"
  by (simp add: chr_def byte_def)

lemma hex_round: "n < 16 \<Longrightarrow> hex_digit (hex_char_of n) = Some n"
proof -
  have "list_all (\<lambda>n. hex_digit (hex_char_of n) = Some n) [0..<16]" by code_simp
  then show "n < 16 \<Longrightarrow> hex_digit (hex_char_of n) = Some n" by (simp add: list_all_iff)
qed

lemma utf8_len_ascii: "byte c < 128 \<Longrightarrow> utf8_len (c # cs) = 1"
  by (simp add: utf8_len.simps)

lemma unquote_plain:
  assumes "32 \<le> byte c" and "byte c < 128" and "c \<noteq> CHR 34" and "c \<noteq> CHR 92"
  shows "unquote (c # t) = emit_str [c] (unquote t)"
  using assms by (subst unquote.simps) (simp add: utf8_len_ascii)

lemma unquote_simple:
  assumes "simple_escape e = Some x" and "e \<noteq> CHR ''u''"
  shows "unquote (CHR 92 # e # t) = emit_str [x] (unquote t)"
  using assms by (subst unquote.simps) simp

lemma unquote_u:
  assumes "getu4 (a # b # c # d # t) = Some r" and "\<not> surrogate r"
  shows "unquote (CHR 92 # CHR ''u'' # a # b # c # d # t) = emit_str (encode_rune r) (unquote t)"
  using assms by (subst unquote.simps) simp

lemma unquote_escape_byte:
  assumes "byte c < 128"
  shows "unquote (escape_byte c @ t) = emit_str [c] (unquote t)"
proof -
  consider (simple) e where "escape_byte c = [CHR 92, e]" "simple_escape e = Some c" "e \<noteq> CHR ''u''"
    | (hex) "escape_byte c = [CHR 92, CHR ''u'', CHR ''0'', CHR ''0'', hex_char_of (byte c div 16), hex_char_of (byte c mod 16)]"
    | (plain) "escape_byte c = [c]" "32 \<le> byte c" "c \<noteq> CHR 34" "c \<noteq> CHR 92"
  proof (cases "c \<in> {CHR 34, CHR 92, CHR 8, CHR 12, CHR 10, CHR 13, CHR 9}")
    case True
    then show ?thesis using simple by (fastforce simp: escape_byte_def simple_escape_def)
  next
    case False
    then have "escape_byte c = (if byte c < 32 \<or> c = CHR ''<'' \<or> c = CHR ''>'' \<or> c = CHR ''&''
      then [CHR 92, CHR ''u'', CHR ''0'', CHR ''0'', hex_char_of (byte c div 16), hex_char_of (byte c mod 16)]
      else [c])" by (simp add: escape_byte_def)
    then show ?thesis using hex plain False by (cases "byte c < 32") (auto split: if_splits)
  qed
  then show ?thesis
  proof cases
    case simple
    then show ?thesis by (simp add: unquote_simple)
  next
    case hex
    have "byte c div 16 < 16" "byte c mod 16 < 16" using assms by auto
    moreover have "hex_digit (CHR ''0'') = Some 0" by code_simp
    ultimately have "getu4 (CHR ''0'' # CHR ''0'' # hex_char_of (byte c div 16) # hex_char_of (byte c mod 16) # t) =
        Some (byte c div 16 * 16 + byte c mod 16)"
      by (simp add: hex_round)
    then have "getu4 (CHR ''0'' # CHR ''0'' # hex_char_of (byte c div 16) # hex_char_of (byte c mod 16) # t) = Some (byte c)"
      by simp
    then show ?thesis
      using assms by (simp add: hex unquote_u surrogate_def encode_rune_def)
  next
    case plain
    then show ?thesis using assms by (simp add: unquote_plain)
  qed
qed

lemma utf8_len_bound: "utf8_len (c # cs) \<le> length (c # cs)"
  by (auto simp: utf8_len.simps Let_def split: list.split)

lemma utf8_len_prefix:
  assumes "utf8_len s = n" and "n \<noteq> 0"
  shows "utf8_len (take n s @ t) = n"
  using assms
  by (cases s) (auto simp: utf8_len.simps Let_def split: list.splits if_splits)

lemma unquote_rune:
  assumes n: "utf8_len (c # cs) = n" "n \<noteq> 0" and c: "128 \<le> byte c"
  shows "unquote (quoted_rune (take n (c # cs)) @ t) = emit_str (take n (c # cs)) (unquote t)"
proof (cases "line_separator (take n (c # cs))")
  case None
  obtain k where k: "n = Suc k" using n(2) by (cases n) auto
  have len: "utf8_len (c # take k cs @ t) = n" using utf8_len_prefix[OF n, of t] by (simp add: k)
  have lk: "length cs \<ge> k" using utf8_len_bound[of c cs] n k by simp
  have ne: "c \<noteq> CHR 34" "c \<noteq> CHR 92" using c by (auto simp: byte_def)
  have "unquote (c # take k cs @ t) = emit_str (c # take k cs) (unquote t)"
    using c ne len lk by (subst unquote.simps) (simp add: k)
  then show ?thesis using None by (simp add: k quoted_rune_def)
next
  case (Some e)
  have hex: "hex_digit CHR ''2'' = Some 2" "hex_digit CHR ''0'' = Some 0" "hex_digit CHR ''8'' = Some 8"
    "hex_digit CHR ''9'' = Some 9" by code_simp+
  have enc: "encode_rune 8232 = [chr 226, chr 128, chr 168]" "encode_rune 8233 = [chr 226, chr 128, chr 169]"
    by (simp_all add: encode_rune_def)
  show ?thesis
    using Some unfolding quoted_rune_def
    by (auto simp: line_separator_def unquote_u hex surrogate_def enc split: if_splits)
qed

theorem unquote_quote:
  "valid_utf8 s \<Longrightarrow> unquote (quote_body s @ CHR 34 # rest) = Some (s, rest)"
proof (induction s rule: quote_body.induct)
  case 1
  then show ?case by (simp add: unquote.simps)
next
  case (2 c cs)
  show ?case
  proof (cases "byte c < 128")
    case True
    then show ?thesis
      using 2 by (simp add: quote_body.simps unquote_escape_byte utf8_len_ascii valid_utf8.simps emit_str_def)
  next
    case False
    define n where "n = utf8_len (c # cs)"
    have v: "n \<noteq> 0" "valid_utf8 (drop (n - 1) cs)" using 2(4) by (auto simp: n_def valid_utf8.simps)
    have "take n (c # cs) @ drop (n - 1) cs = c # cs" using v(1) by (cases n) simp_all
    then show ?thesis
      using False v 2(3) unquote_rune[of c cs n] n_def
      by (simp add: quote_body.simps emit_str_def)
  qed
qed

section \<open>Values\<close>

definition json_space :: "char \<Rightarrow> bool" where
  "json_space c \<longleftrightarrow> c = CHR 32 \<or> c = CHR 9 \<or> c = CHR 13 \<or> c = CHR 10"

definition skip_space :: "string \<Rightarrow> string" where
  "skip_space s = dropWhile json_space s"

definition digit :: "char \<Rightarrow> bool" where
  "digit c \<longleftrightarrow> 48 \<le> byte c \<and> byte c \<le> 57"

definition scan_digits :: "string \<Rightarrow> (string \<times> string) option" where
  "scan_digits s = (if takeWhile digit s = [] then None else Some (takeWhile digit s, dropWhile digit s))"

definition scan_int :: "string \<Rightarrow> (string \<times> string) option" where
  "scan_int s =
     (case s of
        c # cs \<Rightarrow> if c = CHR ''0'' then Some ([c], cs) else scan_digits s
      | [] \<Rightarrow> None)"

definition scan_fraction :: "string \<Rightarrow> (string \<times> string) option" where
  "scan_fraction s =
     (case s of
        c # cs \<Rightarrow> if c = CHR ''.'' then map_option (\<lambda>(ds, t). (c # ds, t)) (scan_digits cs) else Some ([], s)
      | [] \<Rightarrow> Some ([], []))"

definition scan_exponent :: "string \<Rightarrow> (string \<times> string) option" where
  "scan_exponent s =
     (case s of
        c # cs \<Rightarrow>
          if c = CHR ''e'' \<or> c = CHR ''E'' then
            (case cs of
               x # xs \<Rightarrow>
                 if x = CHR ''+'' \<or> x = CHR ''-'' then map_option (\<lambda>(ds, t). (c # x # ds, t)) (scan_digits xs)
                 else map_option (\<lambda>(ds, t). (c # ds, t)) (scan_digits cs)
             | [] \<Rightarrow> None)
          else Some ([], s)
      | [] \<Rightarrow> Some ([], []))"

definition scan_number :: "string \<Rightarrow> (string \<times> string) option" where
  "scan_number s =
     (let sign = takeWhile (\<lambda>c. c = CHR ''-'') (take 1 s); s1 = drop (length sign) s in
      Option.bind (scan_int s1) (\<lambda>(i, s2).
      Option.bind (scan_fraction s2) (\<lambda>(f, s3).
      Option.bind (scan_exponent s3) (\<lambda>(e, s4). Some (sign @ i @ f @ e, s4)))))"

definition scan_literal :: "string \<Rightarrow> json \<Rightarrow> string \<Rightarrow> (json \<times> string) option" where
  "scan_literal word v s = (if take (length word) s = word then Some (v, drop (length word) s) else None)"

text \<open>
  The first argument is fuel, the second the number of arrays and objects around the value, which the
  scanner limits.
\<close>

definition maxNestingDepth :: nat where
  "maxNestingDepth = 10000"

fun parse_value :: "nat \<Rightarrow> nat \<Rightarrow> string \<Rightarrow> (json \<times> string) option"
  and parse_elements :: "nat \<Rightarrow> nat \<Rightarrow> string \<Rightarrow> (json list \<times> string) option"
  and parse_members :: "nat \<Rightarrow> nat \<Rightarrow> string \<Rightarrow> ((string \<times> json) list \<times> string) option" where
  "parse_value 0 d s = None"
| "parse_value (Suc n) d s =
     (case skip_space s of
        [] \<Rightarrow> None
      | c # cs \<Rightarrow>
          if c = CHR ''{'' then
            (if d < maxNestingDepth then
               (case skip_space cs of
                  x # xs \<Rightarrow> if x = CHR ''}'' then Some (JObject [], xs)
                            else map_option (map_prod JObject id) (parse_members n (Suc d) cs)
                | [] \<Rightarrow> None)
             else None)
          else if c = CHR ''['' then
            (if d < maxNestingDepth then
               (case skip_space cs of
                  x # xs \<Rightarrow> if x = CHR '']'' then Some (JArray [], xs)
                            else map_option (map_prod JArray id) (parse_elements n (Suc d) cs)
                | [] \<Rightarrow> None)
             else None)
          else if c = CHR 34 then map_option (map_prod JString id) (unquote cs)
          else if c = CHR ''t'' then scan_literal ''true'' (JBool True) (c # cs)
          else if c = CHR ''f'' then scan_literal ''false'' (JBool False) (c # cs)
          else if c = CHR ''n'' then scan_literal ''null'' JNull (c # cs)
          else map_option (map_prod JNumber id) (scan_number (c # cs)))"
| "parse_elements 0 d s = None"
| "parse_elements (Suc n) d s =
     (case parse_value n d s of
        None \<Rightarrow> None
      | Some (v, t) \<Rightarrow>
          (case skip_space t of
             x # xs \<Rightarrow> if x = CHR '']'' then Some ([v], xs)
                       else if x = CHR '','' then map_option (map_prod ((#) v) id) (parse_elements n d xs)
                       else None
           | [] \<Rightarrow> None))"
| "parse_members 0 d s = None"
| "parse_members (Suc n) d s =
     (case skip_space s of
        q # qs \<Rightarrow>
          if q = CHR 34 then
            (case unquote qs of
               None \<Rightarrow> None
             | Some (k, t) \<Rightarrow>
                 (case skip_space t of
                    y # ys \<Rightarrow>
                      if y = CHR '':'' then
                        (case parse_value n d ys of
                           None \<Rightarrow> None
                         | Some (v, u) \<Rightarrow>
                             (case skip_space u of
                                x # xs \<Rightarrow> if x = CHR ''}'' then Some ([(k, v)], xs)
                                          else if x = CHR '',''
                                          then map_option (map_prod ((#) (k, v)) id) (parse_members n d xs)
                                          else None
                              | [] \<Rightarrow> None))
                      else None
                  | [] \<Rightarrow> None))
          else None
      | [] \<Rightarrow> None)"

definition json_fuel :: "string \<Rightarrow> nat" where
  "json_fuel s = Suc (2 * length s)"

definition parse_json :: "string \<Rightarrow> json option" where
  "parse_json s =
     (case parse_value (json_fuel s) 0 s of
        None \<Rightarrow> None
      | Some (v, t) \<Rightarrow> if skip_space t = [] then Some v else None)"

section \<open>Printing\<close>

fun commas :: "string list \<Rightarrow> string" where
  "commas [] = []"
| "commas [x] = x"
| "commas (x # xs) = x @ CHR '','' # commas xs"

fun print_json :: "json \<Rightarrow> string" where
  "print_json JNull = ''null''"
| "print_json (JBool b) = (if b then ''true'' else ''false'')"
| "print_json (JNumber l) = l"
| "print_json (JString s) = quote s"
| "print_json (JArray vs) = CHR ''['' # commas (map print_json vs) @ '']''"
| "print_json (JObject ms) = CHR ''{'' # commas (map (\<lambda>(k, v). quote k @ CHR '':'' # print_json v) ms) @ ''}''"

section \<open>Parsing inverts printing\<close>

text \<open>Values whose strings are valid UTF-8 and that contain no number (the agent writes none).\<close>

fun plain_json :: "json \<Rightarrow> bool" where
  "plain_json JNull = True"
| "plain_json (JBool b) = True"
| "plain_json (JNumber l) = False"
| "plain_json (JString s) = valid_utf8 s"
| "plain_json (JArray vs) = list_all plain_json vs"
| "plain_json (JObject ms) = list_all (\<lambda>(k, v). valid_utf8 k \<and> plain_json v) ms"

fun json_depth :: "json \<Rightarrow> nat" where
  "json_depth (JArray vs) = Suc (foldr (\<lambda>v. max (json_depth v)) vs 0)"
| "json_depth (JObject ms) = Suc (foldr (\<lambda>(k, v). max (json_depth v)) ms 0)"
| "json_depth _ = 0"

lemma skip_space_token [simp]: "\<not> json_space c \<Longrightarrow> skip_space (c # cs) = c # cs"
  by (simp add: skip_space_def)

lemma tokens [simp]:
  "\<not> json_space CHR ''['' " "\<not> json_space CHR '']''" "\<not> json_space CHR ''{''" "\<not> json_space CHR ''}''"
  "\<not> json_space CHR '',''" "\<not> json_space CHR '':''" "\<not> json_space CHR 34" "\<not> json_space CHR ''n''"
  "\<not> json_space CHR ''t''" "\<not> json_space CHR ''f''"
  by (simp_all add: json_space_def)

text \<open>The first character of a printed value: no space and no closing bracket.\<close>

lemma print_json_first:
  "plain_json j \<Longrightarrow> \<exists>c cs. print_json j = c # cs \<and> \<not> json_space c \<and> c \<noteq> CHR '']'' \<and> c \<noteq> CHR ''}''"
  by (cases j) (auto simp: quote_def json_space_def)

lemma commas_first: "commas (x # xs) = x @ (case xs of [] \<Rightarrow> [] | _ \<Rightarrow> CHR '','' # commas xs)"
  by (cases xs) simp_all

lemma commas_nonempty:
  assumes "plain_json v"
  obtains c cs where "commas (print_json v # xs) @ rest = c # cs" "\<not> json_space c" "c \<noteq> CHR '']''"
  using print_json_first[OF assms] by (auto simp: commas_first)

lemma parse_elements_print:
  assumes vs: "vs \<noteq> []" "\<And>v. v \<in> set vs \<Longrightarrow> plain_json v"
    and IH: "\<And>v n rest. v \<in> set vs \<Longrightarrow> 2 * length (print_json v) < n \<Longrightarrow>
      parse_value n d (print_json v @ rest) = Some (v, rest)"
    and n: "2 * length (commas (map print_json vs)) + 1 < n"
  shows "parse_elements n d (commas (map print_json vs) @ CHR '']'' # rest) = Some (vs, rest)"
  using vs IH n
proof (induction vs arbitrary: n)
  case Nil
  then show ?case by simp
next
  case (Cons v vs)
  obtain m where m: "n = Suc m" using Cons.prems(4) by (cases n) auto
  have ne: "print_json v \<noteq> []" using print_json_first[of v] Cons.prems(2)[of v] by auto
  show ?case
  proof (cases vs)
    case Nil
    then show ?thesis using Cons.prems(3)[of v m] Cons.prems(4) by (simp add: m)
  next
    case (Cons u us)
    then have "parse_value m d (print_json v @ CHR '','' # commas (map print_json vs) @ CHR '']'' # rest) =
        Some (v, CHR '','' # commas (map print_json vs) @ CHR '']'' # rest)"
      using Cons.prems(3)[of v m] Cons.prems(4) by (simp add: m)
    moreover have "2 * length (commas (map print_json vs)) + 1 < m"
      using Cons.prems(4) Cons ne by (cases "print_json v") (auto simp: m)
    then have "parse_elements m d (commas (map print_json vs) @ CHR '']'' # rest) = Some (vs, rest)"
      using Cons Cons.prems(2,3) by (intro Cons.IH) auto
    ultimately show ?thesis by (simp add: m Cons)
  qed
qed

abbreviation print_member :: "string \<times> json \<Rightarrow> string" where
  "print_member \<equiv> (\<lambda>(k, v). quote k @ CHR '':'' # print_json v)"

lemma parse_members_print:
  assumes ms: "ms \<noteq> []" "\<And>k v. (k, v) \<in> set ms \<Longrightarrow> valid_utf8 k \<and> plain_json v"
    and IH: "\<And>k v n rest. (k, v) \<in> set ms \<Longrightarrow> 2 * length (print_json v) < n \<Longrightarrow>
      parse_value n d (print_json v @ rest) = Some (v, rest)"
    and n: "2 * length (commas (map print_member ms)) + 1 < n"
  shows "parse_members n d (commas (map print_member ms) @ CHR ''}'' # rest) = Some (ms, rest)"
  using ms IH n
proof (induction ms arbitrary: n)
  case Nil
  then show ?case by simp
next
  case (Cons kv ms)
  obtain k v where kv: "kv = (k, v)" by fastforce
  obtain m where m: "n = Suc m" using Cons.prems(4) by (cases n) auto
  have k: "unquote (quote_body k @ CHR 34 # t) = Some (k, t)" for t
    using Cons.prems(2)[of k v] by (simp add: kv unquote_quote)
  show ?case
  proof (cases ms)
    case Nil
    then show ?thesis using Cons.prems(3)[of k v m] Cons.prems(4) by (simp add: m kv quote_def k)
  next
    case (Cons u us)
    then have "parse_value m d (print_json v @ CHR '','' # commas (map print_member ms) @ CHR ''}'' # rest) =
        Some (v, CHR '','' # commas (map print_member ms) @ CHR ''}'' # rest)"
      using Cons.prems(3)[of k v m] Cons.prems(4) by (simp add: m kv)
    moreover have "2 * length (commas (map print_member ms)) + 1 < m"
      using Cons.prems(4) Cons by (simp add: m kv quote_def)
    then have "parse_members m d (commas (map print_member ms) @ CHR ''}'' # rest) = Some (ms, rest)"
    proof (intro Cons.IH)
      show "ms \<noteq> []" using Cons by simp
      show "\<And>k v. (k, v) \<in> set ms \<Longrightarrow> valid_utf8 k \<and> plain_json v" by (rule Cons.prems(2)) simp
      show "\<And>k v n rest. (k, v) \<in> set ms \<Longrightarrow> 2 * length (print_json v) < n \<Longrightarrow>
          parse_value n d (print_json v @ rest) = Some (v, rest)" by (rule Cons.prems(3)) (rule list.set_intros(2))
    qed
    ultimately show ?thesis by (simp add: m kv Cons quote_def k)
  qed
qed

lemma foldr_max_ge: "x \<in> set xs \<Longrightarrow> f x \<le> foldr (\<lambda>v. max (f v)) xs (0::nat)"
  by (induction xs) auto

lemma foldr_max_member: "(k, v) \<in> set ms \<Longrightarrow> json_depth v \<le> foldr (\<lambda>(k, v). max (json_depth v)) ms 0"
  by (induction ms) auto

lemma parse_array_print:
  assumes "list_all plain_json vs" and "Suc d + foldr (\<lambda>v. max (json_depth v)) vs 0 \<le> maxNestingDepth"
    and "2 * length (commas (map print_json vs)) + 1 < m"
    and IH: "\<And>v n rest. v \<in> set vs \<Longrightarrow> plain_json v \<Longrightarrow> Suc d + json_depth v \<le> maxNestingDepth \<Longrightarrow>
      2 * length (print_json v) < n \<Longrightarrow> parse_value n (Suc d) (print_json v @ rest) = Some (v, rest)"
  shows "parse_value (Suc m) d (print_json (JArray vs) @ rest) = Some (JArray vs, rest)"
proof (cases vs)
  case Nil
  then show ?thesis using assms(2) by simp
next
  case (Cons v us)
  have pl: "\<And>v. v \<in> set vs \<Longrightarrow> plain_json v" using assms(1) by (simp add: list_all_iff)
  have dp: "Suc d + json_depth v \<le> maxNestingDepth" if "v \<in> set vs" for v
    using assms(2) foldr_max_ge[OF that, of json_depth] by simp
  obtain c cs where c: "commas (map print_json vs) @ CHR '']'' # rest = c # cs" "\<not> json_space c" "c \<noteq> CHR '']''"
    using commas_nonempty[of v "map print_json us" "CHR '']'' # rest"] pl[of v] Cons by auto
  have "parse_elements m (Suc d) (commas (map print_json vs) @ CHR '']'' # rest) = Some (vs, rest)"
    by (rule parse_elements_print) (use Cons pl dp IH assms(3) in auto)
  then show ?thesis using c assms(2) by simp
qed

lemma parse_object_print:
  assumes "list_all (\<lambda>(k, v). valid_utf8 k \<and> plain_json v) ms"
    and "Suc d + foldr (\<lambda>(k, v). max (json_depth v)) ms 0 \<le> maxNestingDepth"
    and "2 * length (commas (map print_member ms)) + 1 < m"
    and IH: "\<And>k v n rest. (k, v) \<in> set ms \<Longrightarrow> plain_json v \<Longrightarrow> Suc d + json_depth v \<le> maxNestingDepth \<Longrightarrow>
      2 * length (print_json v) < n \<Longrightarrow> parse_value n (Suc d) (print_json v @ rest) = Some (v, rest)"
  shows "parse_value (Suc m) d (print_json (JObject ms) @ rest) = Some (JObject ms, rest)"
proof (cases ms)
  case Nil
  then show ?thesis using assms(2) by simp
next
  case (Cons kv us)
  have pl: "\<And>k v. (k, v) \<in> set ms \<Longrightarrow> valid_utf8 k \<and> plain_json v" using assms(1) by (auto simp: list_all_iff)
  have dp: "Suc d + json_depth v \<le> maxNestingDepth" if "(k, v) \<in> set ms" for k v
    using assms(2) foldr_max_member[OF that] by simp
  obtain cs where c: "commas (map print_member ms) @ CHR ''}'' # rest = CHR 34 # cs"
    using Cons by (cases kv) (auto simp: commas_first quote_def)
  have "parse_members m (Suc d) (commas (map print_member ms) @ CHR ''}'' # rest) = Some (ms, rest)"
  proof (rule parse_members_print)
    show "parse_value n (Suc d) (print_json v @ rest) = Some (v, rest)"
      if "(k, v) \<in> set ms" "2 * length (print_json v) < n" for k v n rest
      using pl[OF that(1)] dp[OF that(1)] that(2) by (intro IH[OF that(1)]) auto
  qed (use Cons pl assms(3) in auto)
  then show ?thesis using c assms(2) by simp
qed

lemma parse_value_print:
  "plain_json j \<Longrightarrow> d + json_depth j \<le> maxNestingDepth \<Longrightarrow> 2 * length (print_json j) < n \<Longrightarrow>
     parse_value n d (print_json j @ rest) = Some (j, rest)"
proof (induction j arbitrary: d n rest)
  case JNull
  then show ?case by (cases n) (simp_all add: scan_literal_def)
next
  case (JBool b)
  then show ?case by (cases n) (auto simp: scan_literal_def)
next
  case (JNumber l)
  then show ?case by simp
next
  case (JString s)
  then show ?case by (cases n) (simp_all add: quote_def unquote_quote)
next
  case (JArray vs)
  obtain m where m: "n = Suc m" using JArray.prems(3) by (cases n) auto
  show ?case unfolding m
    by (rule parse_array_print) (use JArray in \<open>auto simp: m\<close>)
next
  case (JObject ms)
  obtain m where m: "n = Suc m" using JObject.prems(3) by (cases n) auto
  show ?case unfolding m
  proof (rule parse_object_print)
    show "parse_value n (Suc d) (print_json v @ rest) = Some (v, rest)"
      if "(k, v) \<in> set ms" "plain_json v" "Suc d + json_depth v \<le> maxNestingDepth" "2 * length (print_json v) < n"
      for k v n rest using that by (intro JObject.IH[OF that(1)]) auto
  qed (use JObject.prems in \<open>auto simp: m\<close>)
qed

lemma parse_print:
  assumes "plain_json j" and "json_depth j \<le> maxNestingDepth"
  shows "parse_json (print_json j) = Some j"
  using parse_value_print[OF assms(1), of 0 "json_fuel (print_json j)" "[]"] assms(2)
  by (simp add: parse_json_def json_fuel_def skip_space_def)

section \<open>The fuel is enough\<close>

lemma unquote_shrinks: "unquote s = Some (x, t) \<Longrightarrow> length t < length s"
proof (induction s arbitrary: x rule: measure_induct_rule[where f = length])
  case (less s)
  have step: "length t < length s" if "emit_str out (unquote u) = Some (x, t)" "length u < length s" for out u
    using that less.IH[of u] by (force simp: emit_str_def)
  show ?case
  proof (cases s)
    case Nil
    then show ?thesis using less.prems by simp
  next
    case (Cons c cs)
    then show ?thesis
      using less.prems
      by (simp only: unquote.simps) (auto split: if_splits list.splits option.splits dest: step)
  qed
qed

lemma skip_space_length: "length (skip_space s) \<le> length s"
  by (simp add: skip_space_def length_dropWhile_le)

lemma skip_space_Cons: "skip_space s = c # cs \<Longrightarrow> length cs < length s"
  using skip_space_length[of s] by simp

lemma scan_digits_shrinks: "scan_digits s = Some (x, t) \<Longrightarrow> length t < length s"
proof -
  assume a: "scan_digits s = Some (x, t)"
  have "length s = length (takeWhile digit s) + length (dropWhile digit s)"
    by (metis length_append takeWhile_dropWhile_id)
  then show ?thesis using a by (auto simp: scan_digits_def split: if_splits)
qed

lemma scan_number_shrinks: "scan_number s = Some (x, t) \<Longrightarrow> length t < length s"
proof -
  assume a: "scan_number s = Some (x, t)"
  have i: "scan_int u = Some (y, v) \<Longrightarrow> length v < length u" for u y v
    by (auto simp: scan_int_def split: list.splits if_splits dest: scan_digits_shrinks)
  have f: "scan_fraction u = Some (y, v) \<Longrightarrow> length v \<le> length u" for u y v
    by (fastforce simp: scan_fraction_def split: list.splits if_splits dest: scan_digits_shrinks)
  have e: "scan_exponent u = Some (y, v) \<Longrightarrow> length v \<le> length u" for u y v
    by (fastforce simp: scan_exponent_def split: list.splits if_splits dest: scan_digits_shrinks)
  show ?thesis
    using a by (fastforce simp: scan_number_def Let_def bind_eq_Some_conv dest!: i f e)
qed

lemma scan_literal_shrinks: "word \<noteq> [] \<Longrightarrow> scan_literal word v s = Some (x, t) \<Longrightarrow> length t < length s"
  by (cases s; cases word) (auto simp: scan_literal_def split: if_splits)

lemma parse_shrinks:
  "parse_value n d s = Some (v, t) \<Longrightarrow> length t < length s"
  "parse_elements n d s = Some (vs, t) \<Longrightarrow> length t < length s"
  "parse_members n d s = Some (ms, t) \<Longrightarrow> length t < length s"
proof (induction n d s and n d s and n d s arbitrary: v t and vs t and ms t
    rule: parse_value_parse_elements_parse_members.induct)
  case (2 n d s)
  obtain c cs where s: "skip_space s = c # cs" using 2(3) by (cases "skip_space s") auto
  note len = skip_space_Cons[OF s]
  have "length t < length (c # cs)"
    using 2(3) 2(1,2)[OF s] s
    by (auto split: if_splits list.splits
        dest: skip_space_Cons unquote_shrinks scan_number_shrinks scan_literal_shrinks[rotated])
       (meson less_SucI)+
  then show ?case using len by simp
next
  case (4 n d s)
  then show ?case
    by (fastforce split: option.splits list.splits if_splits dest: skip_space_Cons)
next
  case (6 n d s)
  then show ?case
    by (fastforce split: option.splits list.splits if_splits dest: skip_space_Cons unquote_shrinks)
qed simp_all

text \<open>Above the bound of \<open>json_fuel\<close> the amount of fuel makes no difference: parsing never runs out of it.\<close>

lemma value_fuel:
  assumes "\<And>c cs. skip_space s = c # cs \<Longrightarrow>
    parse_elements (Suc n) (Suc d) cs = parse_elements n (Suc d) cs \<and>
    parse_members (Suc n) (Suc d) cs = parse_members n (Suc d) cs"
  shows "parse_value (Suc (Suc n)) d s = parse_value (Suc n) d s"
proof (cases "skip_space s")
  case (Cons c cs)
  note same = assms[OF Cons, THEN conjunct1] assms[OF Cons, THEN conjunct2]
  show ?thesis by (simp only: parse_value.simps Cons list.case same)
qed simp

lemma elements_fuel:
  assumes v: "parse_value (Suc n) d s = parse_value n d s"
    and "\<And>x t u us. parse_value n d s = Some (x, t) \<Longrightarrow> skip_space t = u # us \<Longrightarrow>
      parse_elements (Suc n) d us = parse_elements n d us"
  shows "parse_elements (Suc (Suc n)) d s = parse_elements (Suc n) d s"
proof (cases "parse_value n d s")
  case None
  then show ?thesis by (simp only: parse_elements.simps v option.case)
next
  case (Some vt)
  obtain x t where vt: "vt = (x, t)" by fastforce
  show ?thesis
    using assms(2)[OF Some[unfolded vt]]
    by (simp only: parse_elements.simps(2) v Some vt option.case prod.case) (auto split: list.split)
qed

lemma members_fuel:
  assumes v: "\<And>q qs k t y ys. skip_space s = q # qs \<Longrightarrow> unquote qs = Some (k, t) \<Longrightarrow> skip_space t = y # ys \<Longrightarrow>
      parse_value (Suc n) d ys = parse_value n d ys"
    and m: "\<And>q qs k t y ys w x u us. skip_space s = q # qs \<Longrightarrow> unquote qs = Some (k, t) \<Longrightarrow> skip_space t = y # ys \<Longrightarrow>
      parse_value n d ys = Some (w, x) \<Longrightarrow> skip_space x = u # us \<Longrightarrow> parse_members (Suc n) d us = parse_members n d us"
  shows "parse_members (Suc (Suc n)) d s = parse_members (Suc n) d s"
proof (cases "skip_space s")
  case s: (Cons q qs)
  show ?thesis
  proof (cases "unquote qs")
    case None
    then show ?thesis by (simp only: parse_members.simps s list.case) simp
  next
    case (Some kt)
    obtain k t where kt: "kt = (k, t)" by fastforce
    show ?thesis
    proof (cases "skip_space t")
      case Nil
      then show ?thesis by (simp only: parse_members.simps s list.case Some kt option.case prod.case)
    next
      case y: (Cons y ys)
      note at = s Some[unfolded kt] y
      show ?thesis
        using m[OF at] by (simp only: parse_members.simps(2) v[OF at] at list.case option.case prod.case)
          (auto split: option.split list.split)
    qed
  qed
qed simp

lemma parse_fuel_step:
  "2 * length s < n \<Longrightarrow> parse_value (Suc n) d s = parse_value n d s"
  "Suc (2 * length s) < n \<Longrightarrow> parse_elements (Suc n) d s = parse_elements n d s"
  "Suc (2 * length s) < n \<Longrightarrow> parse_members (Suc n) d s = parse_members n d s"
proof (induction n arbitrary: d s)
  case (Suc n)
  {
    case 1
    show ?case using 1 by (intro value_fuel conjI Suc.IH) (auto dest: skip_space_Cons)
  next
    case 2
    show ?case using 2 by (intro elements_fuel Suc.IH) (auto dest!: parse_shrinks skip_space_Cons)
  next
    case 3
    have len: "length ys < length s"
      if "skip_space s = q # qs" "unquote qs = Some (k, t)" "skip_space t = y # ys" for q qs k t y ys
      using skip_space_Cons[OF that(1)] unquote_shrinks[OF that(2)] skip_space_Cons[OF that(3)] by simp
    show ?case
    proof (rule members_fuel, goal_cases)
      case (1 q qs k t y ys)
      then show ?case using len[OF 1] 3 by (intro Suc.IH) simp
    next
      case (2 q qs k t y ys w x u us)
      then show ?case
        using len[OF 2(1-3)] parse_shrinks(1)[OF 2(4)] skip_space_Cons[OF 2(5)] 3 by (intro Suc.IH) simp
    qed
  }
qed simp_all

lemma parse_fuel: "2 * length s < n \<Longrightarrow> parse_value n 0 s = parse_value (json_fuel s) 0 s"
proof (induction n)
  case (Suc n)
  then show ?case
    using parse_fuel_step(1)[of s n 0] by (cases "2 * length s < n") (auto simp: json_fuel_def less_Suc_eq)
qed simp

end
