(* ===== verification/Claims.thy ===== *)
theory Claims
  imports Credentials
begin

text \<open>
  Claim validation, \<open>src/internal/validation/claims_validation.go\<close>: the key id of the header, the
  \<open>kubernetes.io\<close> claims and the audience. A validator returns \<open>None\<close> for a nil error.
\<close>

section \<open>Strings\<close>

text \<open>
  \<open>strings.TrimSpace(s) == ""\<close>: every rune of \<open>s\<close> is white space in the sense of
  \<open>unicode.IsSpace\<close>. The clauses for the bytes from 194 on are the UTF-8 encodings of U+0085,
  U+00A0, U+1680, U+2000 to U+200A, U+2028, U+2029, U+202F, U+205F and U+3000.
\<close>

fun all_space :: "nat list \<Rightarrow> bool" where
  "all_space [] = True"
| "all_space (b # bs) =
     (if 9 \<le> b \<and> b \<le> 13 \<or> b = 32 then all_space bs
      else if b = 194 then
        (case bs of c # cs \<Rightarrow> (c = 133 \<or> c = 160) \<and> all_space cs | [] \<Rightarrow> False)
      else
        (case bs of
           c # d # ds \<Rightarrow>
             (b = 225 \<and> c = 154 \<and> d = 128 \<or>
              b = 226 \<and> c = 128 \<and> (128 \<le> d \<and> d \<le> 138 \<or> d = 168 \<or> d = 169 \<or> d = 175) \<or>
              b = 226 \<and> c = 129 \<and> d = 159 \<or>
              b = 227 \<and> c = 128 \<and> d = 128) \<and> all_space ds
         | _ \<Rightarrow> False))"

definition TrimSpace_is_empty :: "string \<Rightarrow> bool" where
  "TrimSpace_is_empty s = all_space (map of_char s)"

text \<open>\<open>keyIDPattern\<close>, the regular expression \<open>^[0-9a-f]{40}$\<close>.\<close>

definition hex_char :: "char \<Rightarrow> bool" where
  "hex_char c \<longleftrightarrow> c \<in> set ''0123456789abcdef''"

definition keyIDPattern :: "string \<Rightarrow> bool" where
  "keyIDPattern s \<longleftrightarrow> length s = 40 \<and> list_all hex_char s"

definition expectedAudience :: string where
  "expectedAudience = ''pods.eks.amazonaws.com''"

section \<open>Validators\<close>

definition validateKid :: "jobject \<Rightarrow> goerr option" where
  "validateKid header =
     (let kid = get_string_or_empty header ''kid'' in
      if TrimSpace_is_empty kid then Some (Plain [Txt ''missing header: kid''])
      else if \<not> keyIDPattern kid then Some (Plain [Txt ''invalid header: kid '', Txt kid])
      else None)"

definition requireNestedString :: "jobject \<Rightarrow> string \<Rightarrow> string \<Rightarrow> goerr option" where
  "requireNestedString m key claimPath =
     (if TrimSpace_is_empty (get_string_or_empty m key)
      then Some (Plain [Txt ''missing or empty claim: '', Txt claimPath]) else None)"

text \<open>\<open>if err := v; err != nil { return fmt.Errorf(msg, err) }\<close>, then the rest.\<close>

definition or_else :: "goerr option \<Rightarrow> (goerr \<Rightarrow> goerr) \<Rightarrow> goerr option \<Rightarrow> goerr option" where
  "or_else v wrap rest = (case v of Some e \<Rightarrow> Some (wrap e) | None \<Rightarrow> rest)"

lemma or_else_None [simp]: "or_else v wrap rest = None \<longleftrightarrow> v = None \<and> rest = None"
  by (simp add: or_else_def split: option.split)

definition claim_wrap :: "string \<Rightarrow> goerr \<Rightarrow> goerr" where
  "claim_wrap path e = Wrapped [Txt ''error finding claim '', Txt path, Txt '' ''] e []"

definition validateKubernetesClaims :: "jobject \<Rightarrow> goerr option" where
  "validateKubernetesClaims claims =
     (case map_of claims ''kubernetes.io'' of
        None \<Rightarrow> Some (Plain [Txt ''missing claim: kubernetes.io''])
      | Some JNull \<Rightarrow> Some (Plain [Txt ''missing claim: kubernetes.io''])
      | Some (JObject k8s) \<Rightarrow>
          or_else (requireNestedString k8s ''namespace'' ''kubernetes.io/namespace'') id
          (case get_object k8s ''serviceaccount'' of
             None \<Rightarrow> Some (Plain [Txt ''missing claim: kubernetes.io/serviceaccount''])
           | Some sa \<Rightarrow>
               or_else (requireNestedString sa ''name'' ''kubernetes.io/serviceaccount/name'')
                 (claim_wrap ''kubernetes.io/serviceaccount/name'')
               (or_else (requireNestedString sa ''uid'' ''kubernetes.io/serviceaccount/uid'')
                  (claim_wrap ''kubernetes.io/serviceaccount/uid'')
                (case get_object k8s ''pod'' of
                   None \<Rightarrow> Some (Plain [Txt ''missing claim: kubernetes.io/pod''])
                 | Some pod \<Rightarrow>
                     or_else (requireNestedString pod ''name'' ''kubernetes.io/pod/name'')
                       (claim_wrap ''kubernetes.io/pod/name'')
                     (or_else (requireNestedString pod ''uid'' ''kubernetes.io/pod/uid'')
                        (claim_wrap ''kubernetes.io/pod/uid'') None))))
      | Some _ \<Rightarrow> Some (Plain [Txt ''invalid claim: kubernetes.io'']))"

definition toStringSlice :: "json option \<Rightarrow> string list" where
  "toStringSlice raw =
     (case raw of
        Some (JString v) \<Rightarrow> [v]
      | Some (JArray vs) \<Rightarrow>
          List.map_filter (\<lambda>e. case e of JString s \<Rightarrow> Some s | _ \<Rightarrow> None) vs
      | _ \<Rightarrow> [])"

definition validateAudience :: "jobject \<Rightarrow> goerr option" where
  "validateAudience claims =
     (let audiences = toStringSlice (map_of claims ''aud'') in
      case audiences of
        [a] \<Rightarrow> if a \<noteq> expectedAudience
                then Some (Plain [Txt ''invalid audience: expected '', Txt expectedAudience]) else None
      | _ \<Rightarrow> Some (Plain [Txt ''invalid audience: expected '', Txt expectedAudience]))"

definition ValidateClaims :: "bool \<Rightarrow> jwt_token \<Rightarrow> goerr option" where
  "ValidateClaims EndpointOverridden token =
     (case jwt_Claims token of
        OtherClaims \<Rightarrow> Some (Plain [Txt ''failed to extract claims''])
      | MapClaims claims \<Rightarrow>
          or_else (validateKid (jwt_Header token)) id
          (or_else (validateKubernetesClaims claims) id
           (if \<not> EndpointOverridden then or_else (validateAudience claims) id None else None)))"

section \<open>What the validators accept\<close>

lemma hex_not_space:
  assumes "hex_char c"
  shows "\<not> ((9::nat) \<le> of_char c \<and> of_char c \<le> (13::nat) \<or> of_char c = (32::nat)) \<and> of_char c < (194::nat)"
  using assms by (auto simp: hex_char_def)

declare all_space.simps(2) [simp del]

lemma visible_not_all_space:
  "\<not> (9 \<le> b \<and> b \<le> 13 \<or> b = 32) \<Longrightarrow> b < 194 \<Longrightarrow> \<not> all_space (b # bs)"
  by (subst all_space.simps) (auto split: list.split)

lemma keyIDPattern_not_blank: "keyIDPattern s \<Longrightarrow> \<not> TrimSpace_is_empty s"
proof -
  assume k: "keyIDPattern s"
  then obtain c cs where s: "s = c # cs" by (cases s) (auto simp: keyIDPattern_def)
  then have "hex_char c" using k by (simp add: keyIDPattern_def)
  then show ?thesis
    using hex_not_space[of c] visible_not_all_space[of "of_char c"] by (simp add: TrimSpace_is_empty_def s)
qed

lemma validateKid_None:
  "validateKid h = None \<longleftrightarrow> (\<exists>kid. get_string h ''kid'' = Some kid \<and> keyIDPattern kid)"
proof -
  have "\<not> keyIDPattern []" by (simp add: keyIDPattern_def)
  then show ?thesis
    using keyIDPattern_not_blank
    by (auto simp: validateKid_def Let_def get_string_or_empty_def split: option.splits if_splits)
qed

text \<open>A member that is a string with a visible character.\<close>

definition has_text :: "jobject \<Rightarrow> string \<Rightarrow> bool" where
  "has_text m k \<longleftrightarrow> (\<exists>s. get_string m k = Some s \<and> \<not> TrimSpace_is_empty s)"

lemma requireNestedString_None: "requireNestedString m k path = None \<longleftrightarrow> has_text m k"
  by (auto simp: requireNestedString_def get_string_or_empty_def has_text_def TrimSpace_is_empty_def
      split: option.splits)

lemma get_object_map_of: "get_object m k = Some o' \<longleftrightarrow> map_of m k = Some (JObject o')"
  by (auto simp: get_object_def split: option.splits json.splits)

lemma validateKubernetesClaims_None:
  "validateKubernetesClaims claims = None \<longleftrightarrow>
     (\<exists>k8s sa pod. get_object claims ''kubernetes.io'' = Some k8s \<and> has_text k8s ''namespace'' \<and>
        get_object k8s ''serviceaccount'' = Some sa \<and> has_text sa ''name'' \<and> has_text sa ''uid'' \<and>
        get_object k8s ''pod'' = Some pod \<and> has_text pod ''name'' \<and> has_text pod ''uid'')"
proof (cases "get_object claims ''kubernetes.io''")
  case None
  then have "validateKubernetesClaims claims \<noteq> None"
    by (auto simp: validateKubernetesClaims_def get_object_def split: option.splits json.splits)
  then show ?thesis using None by simp
next
  case (Some k8s)
  then have "map_of claims ''kubernetes.io'' = Some (JObject k8s)" by (simp add: get_object_map_of)
  then show ?thesis
    using Some
    by (cases "get_object k8s ''serviceaccount''"; cases "get_object k8s ''pod''")
      (simp_all add: validateKubernetesClaims_def requireNestedString_None)
qed

lemma validateAudience_None:
  "validateAudience claims = None \<longleftrightarrow> toStringSlice (map_of claims ''aud'') = [expectedAudience]"
  by (auto simp: validateAudience_def Let_def split: list.splits)

lemma ValidateClaims_None:
  "ValidateClaims ov t = None \<longleftrightarrow>
     (\<exists>claims. jwt_Claims t = MapClaims claims \<and>
        (\<exists>kid. get_string (jwt_Header t) ''kid'' = Some kid \<and> keyIDPattern kid) \<and>
        validateKubernetesClaims claims = None \<and>
        (ov \<or> toStringSlice (map_of claims ''aud'') = [expectedAudience]))"
  by (cases "jwt_Claims t") (auto simp: ValidateClaims_def validateKid_None validateAudience_None)

end
