(* ===== verification/Jwk.thy ===== *)
theory Jwk
  imports Credentials
begin

text \<open>
  JSON Web Keys, \<open>src/internal/validation/jwk.go\<close>: decoding of unpadded URL base64
  (\<open>base64.RawURLEncoding\<close>), big-endian integers (\<open>big.Int.SetBytes\<close>) and the parsing of RSA and EC
  public keys. A byte is a natural number below 256.
\<close>

section \<open>Unpadded URL base64\<close>

definition base64url_alphabet :: string where
  "base64url_alphabet =
     ''ABCDEFGHIJKLMNOPQRSTUVWXYZabcdefghijklmnopqrstuvwxyz0123456789-_''"

definition sextet_of_char :: "char \<Rightarrow> nat option" where
  "sextet_of_char c =
     (let i = length (takeWhile (\<lambda>x. x \<noteq> c) base64url_alphabet) in if i < 64 then Some i else None)"

text \<open>The decoder skips carriage returns and line feeds and fails on any other foreign character.\<close>

fun sextets :: "string \<Rightarrow> nat list option" where
  "sextets [] = Some []"
| "sextets (c # cs) =
     (if c = CHR 10 \<or> c = CHR 13 then sextets cs
      else case sextet_of_char c of
             None \<Rightarrow> None
           | Some x \<Rightarrow> map_option ((#) x) (sextets cs))"

text \<open>Four characters make three bytes; at the end, three make two, two make one, one is an error.\<close>

fun bytes_of_sextets :: "nat list \<Rightarrow> nat list option" where
  "bytes_of_sextets (a # b # c # d # xs) =
     map_option (\<lambda>ys. (a * 4 + b div 16) # (b mod 16 * 16 + c div 4) # (c mod 4 * 64 + d) # ys)
       (bytes_of_sextets xs)"
| "bytes_of_sextets [a, b, c] = Some [a * 4 + b div 16, b mod 16 * 16 + c div 4]"
| "bytes_of_sextets [a, b] = Some [a * 4 + b div 16]"
| "bytes_of_sextets [a] = None"
| "bytes_of_sextets [] = Some []"

definition RawURLEncoding_DecodeString :: "string \<Rightarrow> nat list option" where
  "RawURLEncoding_DecodeString s = Option.bind (sextets s) bytes_of_sextets"

text \<open>\<open>base64.RawURLEncoding.EncodeToString\<close>, which the issuer of a key set applies.\<close>

fun sextets_of_bytes :: "nat list \<Rightarrow> nat list" where
  "sextets_of_bytes (x # y # z # xs) =
     (x div 4) # (x mod 4 * 16 + y div 16) # (y mod 16 * 4 + z div 64) # (z mod 64) # sextets_of_bytes xs"
| "sextets_of_bytes [x, y] = [x div 4, x mod 4 * 16 + y div 16, y mod 16 * 4]"
| "sextets_of_bytes [x] = [x div 4, x mod 4 * 16]"
| "sextets_of_bytes [] = []"

definition RawURLEncoding_EncodeToString :: "nat list \<Rightarrow> string" where
  "RawURLEncoding_EncodeToString bs = map (\<lambda>i. base64url_alphabet ! i) (sextets_of_bytes bs)"

section \<open>Keys\<close>

definition SetBytes :: "nat list \<Rightarrow> int" where
  "SetBytes bs = foldl (\<lambda>acc b. acc * 256 + int b) 0 bs"

datatype curve = P256 | P384 | P521

text \<open>\<open>*rsa.PublicKey\<close> with modulus and exponent, \<open>*ecdsa.PublicKey\<close> with curve and point.\<close>

datatype public_key = RSAPublicKey int int | ECDSAPublicKey curve int int

record cachedKey =
  ck_key :: public_key
  ck_alg :: string

record JWK =
  jwk_Kty :: string
  jwk_Kid :: string
  jwk_Use :: string
  jwk_Alg :: string
  jwk_N :: string
  jwk_E :: string
  jwk_Crv :: string
  jwk_X :: string
  jwk_Y :: string

text \<open>A nil slice is \<open>None\<close>.\<close>

record JWKSet =
  jwk_Keys :: "JWK list option"

text \<open>A decoding failure wraps the decoder's error, which is opaque here.\<close>

definition CorruptInputError :: goerr where
  "CorruptInputError = Plain [Txt ''illegal base64 data'']"

definition decode_field :: "string \<Rightarrow> string \<Rightarrow> goerr + nat list" where
  "decode_field name s =
     (case RawURLEncoding_DecodeString s of
        None \<Rightarrow> Inl (Wrapped [Txt ''failed to decode '', Txt name, Txt '': ''] CorruptInputError [])
      | Some bs \<Rightarrow> Inr bs)"

definition parseRSAKey :: "JWK \<Rightarrow> goerr + public_key" where
  "parseRSAKey k =
     bindE (decode_field ''N'' (jwk_N k)) (\<lambda>nBytes.
     bindE (decode_field ''E'' (jwk_E k)) (\<lambda>eBytes.
     Inr (RSAPublicKey (SetBytes nBytes) (int64 (SetBytes eBytes)))))"

definition parseECKey :: "JWK \<Rightarrow> goerr + public_key" where
  "parseECKey k =
     bindE
       (if jwk_Crv k = ''P-256'' then Inr P256
        else if jwk_Crv k = ''P-384'' then Inr P384
        else if jwk_Crv k = ''P-521'' then Inr P521
        else Inl (Plain [Txt ''unsupported EC curve '', Quo (jwk_Crv k)])) (\<lambda>curve.
     bindE (decode_field ''X'' (jwk_X k)) (\<lambda>xBytes.
     bindE (decode_field ''Y'' (jwk_Y k)) (\<lambda>yBytes.
     Inr (ECDSAPublicKey curve (SetBytes xBytes) (SetBytes yBytes)))))"

definition parseJWK :: "JWK \<Rightarrow> goerr + public_key" where
  "parseJWK k =
     (if jwk_Kty k = ''RSA'' then parseRSAKey k
      else if jwk_Kty k = ''EC'' then parseECKey k
      else Inl (Plain [Txt ''unsupported key type '', Quo (jwk_Kty k)]))"

section \<open>Decoding inverts encoding\<close>

lemma alphabet_distinct: "distinct base64url_alphabet" and alphabet_length: "length base64url_alphabet = 64"
  and alphabet_no_newline: "CHR 10 \<notin> set base64url_alphabet" "CHR 13 \<notin> set base64url_alphabet"
  by code_simp+

lemma takeWhile_nth_distinct:
  assumes "distinct xs" and "i < length xs"
  shows "length (takeWhile (\<lambda>x. x \<noteq> xs ! i) xs) = i"
  using assms
proof (induction xs arbitrary: i)
  case Nil
  then show ?case by simp
next
  case (Cons x xs)
  then show ?case by (cases i) auto
qed

lemma sextet_of_alphabet: "i < 64 \<Longrightarrow> sextet_of_char (base64url_alphabet ! i) = Some i"
  using takeWhile_nth_distinct[OF alphabet_distinct, of i]
  by (simp add: sextet_of_char_def Let_def alphabet_length)

lemma sextets_map:
  "list_all (\<lambda>i. i < 64) is \<Longrightarrow> sextets (map (\<lambda>i. base64url_alphabet ! i) is) = Some is"
proof (induction "is")
  case Nil
  then show ?case by simp
next
  case (Cons i js)
  have "base64url_alphabet ! i \<in> set base64url_alphabet" using Cons.prems by (simp add: alphabet_length)
  then have "base64url_alphabet ! i \<noteq> CHR 10 \<and> base64url_alphabet ! i \<noteq> CHR 13"
    using alphabet_no_newline by metis
  then show ?case using Cons by (simp add: sextet_of_alphabet)
qed

lemma sextets_of_bytes_range:
  "list_all (\<lambda>b. b < 256) bs \<Longrightarrow> list_all (\<lambda>i. i < 64) (sextets_of_bytes bs)"
  by (induction bs rule: sextets_of_bytes.induct) auto

lemma join_split:
  fixes x y m :: nat
  assumes "y < m"
  shows "(x * m + y) div m = x" and "(x * m + y) mod m = y"
  using assms by (simp_all add: add.commute)

lemma first_byte: "y < 256 \<Longrightarrow> x div 4 * 4 + (x mod 4 * 16 + y div 16) div 16 = (x::nat)"
  using join_split(1)[of "y div 16" 16 "x mod 4"] by simp

lemma second_byte:
  assumes "y < 256" and "z < 256"
  shows "(x mod 4 * 16 + y div 16) mod 16 * 16 + (y mod 16 * 4 + z div 64) div 4 = (y::nat)"
  using join_split(2)[of "y div 16" 16 "x mod 4"] join_split(1)[of "z div 64" 4 "y mod 16"] assms by simp

lemma third_byte: "z < 256 \<Longrightarrow> (y mod 16 * 4 + z div 64) mod 4 * 64 + z mod 64 = (z::nat)"
  using join_split(2)[of "z div 64" 4 "y mod 16"] by simp

lemma bytes_of_sextets_of_bytes:
  "list_all (\<lambda>b. b < 256) bs \<Longrightarrow> bytes_of_sextets (sextets_of_bytes bs) = Some bs"
proof (induction bs rule: sextets_of_bytes.induct)
  case (1 x y z xs)
  then have "y < 256" "z < 256" by simp_all
  note bs = first_byte[OF this(1), of x] second_byte[OF this, of x] third_byte[OF this(2), of y]
  have "bytes_of_sextets (sextets_of_bytes xs) = Some xs" using 1 by simp
  then show ?case by (simp only: sextets_of_bytes.simps bytes_of_sextets.simps bs option.map)
next
  case (2 x y)
  then have "y < 256" by simp
  then show ?case using first_byte[of y x] second_byte[of y 0 x] by simp
next
  case (3 x)
  then show ?case using first_byte[of 0 x] by simp
qed simp

lemma RawURLEncoding_roundtrip:
  "list_all (\<lambda>b. b < 256) bs \<Longrightarrow>
     RawURLEncoding_DecodeString (RawURLEncoding_EncodeToString bs) = Some bs"
  by (simp add: RawURLEncoding_DecodeString_def RawURLEncoding_EncodeToString_def
      sextets_map[OF sextets_of_bytes_range] bytes_of_sextets_of_bytes)

end
