(* ===== verification/Jwk_Store.thy ===== *)
theory Jwk_Store
  imports Jwk Json
begin

text \<open>
  The key set on disk, \<open>src/internal/validation/jwk_store.go\<close>, and its JSON form as
  \<open>encoding/json\<close> derives it from the struct tags of \<open>src/internal/validation/jwk.go\<close>.

  A file system is a map from paths to contents. Writing returns every state the file system goes
  through, in order, so that a crash of the process is any prefix of that list; what the operating system
  answers is an argument.
\<close>

section \<open>The JSON form of a key set\<close>

definition zero_JWK :: JWK where
  "zero_JWK = \<lparr>jwk_Kty = '''', jwk_Kid = '''', jwk_Use = '''', jwk_Alg = '''', jwk_N = '''', jwk_E = '''',
               jwk_Crv = '''', jwk_X = '''', jwk_Y = ''''\<rparr>"

text \<open>\<open>omitempty\<close>.\<close>

definition optional_member :: "string \<Rightarrow> string \<Rightarrow> jobject" where
  "optional_member name v = (if v = '''' then [] else [(name, JString v)])"

definition json_of_JWK :: "JWK \<Rightarrow> json" where
  "json_of_JWK k =
     JObject
       ([(''kty'', JString (jwk_Kty k)), (''kid'', JString (jwk_Kid k)), (''use'', JString (jwk_Use k)),
         (''alg'', JString (jwk_Alg k))] @
        optional_member ''n'' (jwk_N k) @ optional_member ''e'' (jwk_E k) @
        optional_member ''crv'' (jwk_Crv k) @ optional_member ''x'' (jwk_X k) @
        optional_member ''y'' (jwk_Y k))"

definition json_of_JWKSet :: "JWKSet \<Rightarrow> json" where
  "json_of_JWKSet s =
     JObject [(''keys'', case jwk_Keys s of None \<Rightarrow> JNull | Some ks \<Rightarrow> JArray (map json_of_JWK ks))]"

definition json_Marshal :: "JWKSet \<Rightarrow> string" where
  "json_Marshal s = print_json (json_of_JWKSet s)"

text \<open>
  A member belongs to the field whose name it equals up to case: \<open>foldName\<close>, which also folds the
  long s (U+017F) and the Kelvin sign (U+212A).
\<close>

definition upper :: "char \<Rightarrow> char" where
  "upper c = (if 97 \<le> byte c \<and> byte c \<le> 122 then chr (byte c - 32) else c)"

fun foldName :: "string \<Rightarrow> string" where
  "foldName (a # b # c # cs) =
     (if a = chr 226 \<and> b = chr 132 \<and> c = chr 170 then CHR ''K'' # foldName cs
      else if a = chr 197 \<and> b = chr 191 then CHR ''S'' # foldName (c # cs)
      else upper a # foldName (b # c # cs))"
| "foldName [a, b] = (if a = chr 197 \<and> b = chr 191 then [CHR ''S''] else [upper a, upper b])"
| "foldName [a] = [upper a]"
| "foldName [] = []"

text \<open>
  Decoding a value into a field, slice or struct: a null leaves a string or a struct alone and
  makes a slice nil; a value of another kind is remembered as an error while decoding goes on. The boolean is that error.
\<close>

definition decode_string :: "(string \<Rightarrow> JWK) \<Rightarrow> JWK \<Rightarrow> json \<Rightarrow> JWK \<times> bool" where
  "decode_string upd k v = (case v of JString s \<Rightarrow> (upd s, False) | JNull \<Rightarrow> (k, False) | _ \<Rightarrow> (k, True))"

definition decode_member :: "JWK \<Rightarrow> string \<Rightarrow> json \<Rightarrow> JWK \<times> bool" where
  "decode_member k name v =
     (let f = foldName name in
      if f = ''KTY'' then decode_string (\<lambda>s. k\<lparr>jwk_Kty := s\<rparr>) k v
      else if f = ''KID'' then decode_string (\<lambda>s. k\<lparr>jwk_Kid := s\<rparr>) k v
      else if f = ''USE'' then decode_string (\<lambda>s. k\<lparr>jwk_Use := s\<rparr>) k v
      else if f = ''ALG'' then decode_string (\<lambda>s. k\<lparr>jwk_Alg := s\<rparr>) k v
      else if f = ''N'' then decode_string (\<lambda>s. k\<lparr>jwk_N := s\<rparr>) k v
      else if f = ''E'' then decode_string (\<lambda>s. k\<lparr>jwk_E := s\<rparr>) k v
      else if f = ''CRV'' then decode_string (\<lambda>s. k\<lparr>jwk_Crv := s\<rparr>) k v
      else if f = ''X'' then decode_string (\<lambda>s. k\<lparr>jwk_X := s\<rparr>) k v
      else if f = ''Y'' then decode_string (\<lambda>s. k\<lparr>jwk_Y := s\<rparr>) k v
      else (k, False))"

fun decode_members :: "jobject \<Rightarrow> JWK \<times> bool \<Rightarrow> JWK \<times> bool" where
  "decode_members [] (k, bad) = (k, bad)"
| "decode_members ((name, v) # ms) (k, bad) =
     (let (k', bad') = decode_member k name v in decode_members ms (k', bad \<or> bad'))"

definition decode_JWK :: "JWK \<Rightarrow> json \<Rightarrow> JWK \<times> bool" where
  "decode_JWK k v =
     (case v of JObject ms \<Rightarrow> decode_members ms (k, False) | JNull \<Rightarrow> (k, False) | _ \<Rightarrow> (k, True))"

text \<open>
  A slice during decoding: its backing array and its length. Elements are decoded into what the backing array
  holds, which matters when the member occurs more than once.
\<close>

type_synonym slice = "(JWK list \<times> nat) option"

fun decode_elements :: "JWK list \<Rightarrow> json list \<Rightarrow> JWK list \<times> bool" where
  "decode_elements backing [] = (backing, False)"
| "decode_elements [] (v # vs) =
     (let (k, bad) = decode_JWK zero_JWK v; (ks, bad') = decode_elements [] vs in (k # ks, bad \<or> bad'))"
| "decode_elements (b # bs) (v # vs) =
     (let (k, bad) = decode_JWK b v; (ks, bad') = decode_elements bs vs in (k # ks, bad \<or> bad'))"

definition decode_slice :: "slice \<Rightarrow> json \<Rightarrow> slice \<times> bool" where
  "decode_slice sl v =
     (case v of
        JNull \<Rightarrow> (None, False)
      | JArray vs \<Rightarrow>
          if vs = [] then (Some ([], 0), False)
          else (let (ks, bad) = decode_elements (case sl of None \<Rightarrow> [] | Some (b, n) \<Rightarrow> b) vs
                in (Some (ks, length vs), bad))
      | _ \<Rightarrow> (sl, True))"

fun decode_set_members :: "jobject \<Rightarrow> slice \<times> bool \<Rightarrow> slice \<times> bool" where
  "decode_set_members [] (sl, bad) = (sl, bad)"
| "decode_set_members ((name, v) # ms) (sl, bad) =
     (if foldName name = ''KEYS''
      then let (sl', bad') = decode_slice sl v in decode_set_members ms (sl', bad \<or> bad')
      else decode_set_members ms (sl, bad))"

definition SyntaxError :: goerr where
  "SyntaxError = Plain [Txt ''invalid JSON'']"

definition UnmarshalTypeError :: goerr where
  "UnmarshalTypeError = Plain [Txt ''json: cannot unmarshal into Go value'']"

definition json_Unmarshal :: "string \<Rightarrow> goerr + JWKSet" where
  "json_Unmarshal text =
     (case parse_json text of
        None \<Rightarrow> Inl SyntaxError
      | Some JNull \<Rightarrow> Inr \<lparr>jwk_Keys = None\<rparr>
      | Some (JObject ms) \<Rightarrow>
          (let (sl, bad) = decode_set_members ms (None, False) in
           if bad then Inl UnmarshalTypeError
           else Inr \<lparr>jwk_Keys = map_option (\<lambda>(b, n). take n b) sl\<rparr>)
      | Some _ \<Rightarrow> Inl UnmarshalTypeError)"

section \<open>Files\<close>

type_synonym path = string
type_synonym fs = "path \<rightharpoonup> string"

definition defaultJWKCachePath :: path where
  "defaultJWKCachePath = ''/var/lib/eks-pod-identity-agent/jwks-cache.json''"

text \<open>
  What the operating system answers to one write: whether the directory can be made, the name of the temporary file
  or an error, the error of the write and how much of the data reached the file before it,
  the error of the rename, and whether a removal works. \<open>os.CreateTemp\<close> creates a file
  that did not exist.
\<close>

record os_answers =
  MkdirAll_err :: "goerr option"
  CreateTemp :: "goerr + path"
  Write_err :: "(nat \<times> goerr) option"
  Rename_err :: "goerr option"
  Remove_works :: bool

definition os_Remove :: "os_answers \<Rightarrow> path \<Rightarrow> fs \<Rightarrow> fs" where
  "os_Remove os p f = (if Remove_works os then f(p := None) else f)"

text \<open>The states while a file is written: every prefix of the data, up to \<open>n\<close> bytes.\<close>

definition write_states :: "path \<Rightarrow> string \<Rightarrow> nat \<Rightarrow> fs \<Rightarrow> fs list" where
  "write_states p data n f = map (\<lambda>i. f(p \<mapsto> take i data)) [0..<Suc n]"

text \<open>
  The result with the states after the first one; the file system ends in the last of them. Marshalling a struct of
  strings cannot fail.
\<close>

definition writeJWKCache :: "os_answers \<Rightarrow> path \<Rightarrow> JWKSet \<Rightarrow> fs \<Rightarrow> goerr option \<times> fs list" where
  "writeJWKCache os path jwks f =
     (case MkdirAll_err os of
        Some err \<Rightarrow> (Some (Wrapped [Txt ''failed to create cache directory: ''] err []), [])
      | None \<Rightarrow>
          (let data = json_Marshal jwks in
           case CreateTemp os of
             Inl err \<Rightarrow> (Some (Wrapped [Txt ''failed to create temp file: ''] err []), [])
           | Inr tmp \<Rightarrow>
               (case Write_err os of
                  Some (n, err) \<Rightarrow>
                    (let ws = write_states tmp data (min n (length data)) f in
                     (Some (Wrapped [Txt ''failed to write temp file: ''] err []),
                      ws @ [os_Remove os tmp (last ws)]))
                | None \<Rightarrow>
                    (let ws = write_states tmp data (length data) f; f1 = last ws in
                     case Rename_err os of
                       Some err \<Rightarrow>
                         (Some (Wrapped [Txt ''failed to rename temp file: ''] err []),
                          ws @ [os_Remove os tmp f1])
                     | None \<Rightarrow> (None, ws @ [f1(tmp := None, path := f1 tmp)])))))"

definition final_fs :: "fs \<Rightarrow> fs list \<Rightarrow> fs" where
  "final_fs f states = last (f # states)"

definition readJWKCache :: "goerr option \<Rightarrow> path \<Rightarrow> fs \<Rightarrow> goerr + JWKSet" where
  "readJWKCache read_err path f =
     (case (case read_err of
              Some err \<Rightarrow> Inl err
            | None \<Rightarrow> (case f path of None \<Rightarrow> Inl (Plain [Txt ''no such file'']) | Some data \<Rightarrow> Inr data)) of
        Inl err \<Rightarrow> Inl (Wrapped [Txt ''failed to read cache file: ''] err [])
      | Inr data \<Rightarrow>
          (case json_Unmarshal data of
             Inl err \<Rightarrow> Inl (Wrapped [Txt ''failed to unmarshal cache file: ''] err [])
           | Inr jwks \<Rightarrow> Inr jwks))"

section \<open>The JSON form round-trips\<close>

definition valid_JWK :: "JWK \<Rightarrow> bool" where
  "valid_JWK k \<longleftrightarrow>
     list_all valid_utf8
       [jwk_Kty k, jwk_Kid k, jwk_Use k, jwk_Alg k, jwk_N k, jwk_E k, jwk_Crv k, jwk_X k, jwk_Y k]"

definition valid_JWKSet :: "JWKSet \<Rightarrow> bool" where
  "valid_JWKSet s \<longleftrightarrow> (case jwk_Keys s of None \<Rightarrow> True | Some ks \<Rightarrow> list_all valid_JWK ks)"

lemma fold_names:
  "foldName ''kty'' = ''KTY''" "foldName ''kid'' = ''KID''" "foldName ''use'' = ''USE''" "foldName ''alg'' = ''ALG''"
  "foldName ''n'' = ''N''" "foldName ''e'' = ''E''" "foldName ''crv'' = ''CRV''" "foldName ''x'' = ''X''"
  "foldName ''y'' = ''Y''" "foldName ''keys'' = ''KEYS''"
  by code_simp+

lemma valid_names:
  "valid_utf8 ''kty''" "valid_utf8 ''kid''" "valid_utf8 ''use''" "valid_utf8 ''alg''"
  "valid_utf8 ''n''" "valid_utf8 ''e''" "valid_utf8 ''crv''" "valid_utf8 ''x''"
  "valid_utf8 ''y''" "valid_utf8 ''keys''"
  by (simp_all add: valid_utf8.simps utf8_len.simps byte_def)

lemma decode_required:
  "decode_members ((''kty'', JString s) # ms) (k, b) = decode_members ms (k\<lparr>jwk_Kty := s\<rparr>, b)"
  "decode_members ((''kid'', JString s) # ms) (k, b) = decode_members ms (k\<lparr>jwk_Kid := s\<rparr>, b)"
  "decode_members ((''use'', JString s) # ms) (k, b) = decode_members ms (k\<lparr>jwk_Use := s\<rparr>, b)"
  "decode_members ((''alg'', JString s) # ms) (k, b) = decode_members ms (k\<lparr>jwk_Alg := s\<rparr>, b)"
  by (simp_all add: decode_member_def fold_names decode_string_def Let_def del: foldName.simps)

lemma decode_optional:
  "jwk_N k = '''' \<Longrightarrow> decode_members (optional_member ''n'' s @ ms) (k, b) = decode_members ms (k\<lparr>jwk_N := s\<rparr>, b)"
  "jwk_E k = '''' \<Longrightarrow> decode_members (optional_member ''e'' s @ ms) (k, b) = decode_members ms (k\<lparr>jwk_E := s\<rparr>, b)"
  "jwk_Crv k = '''' \<Longrightarrow> decode_members (optional_member ''crv'' s @ ms) (k, b) = decode_members ms (k\<lparr>jwk_Crv := s\<rparr>, b)"
  "jwk_X k = '''' \<Longrightarrow> decode_members (optional_member ''x'' s @ ms) (k, b) = decode_members ms (k\<lparr>jwk_X := s\<rparr>, b)"
  "jwk_Y k = '''' \<Longrightarrow> decode_members (optional_member ''y'' s @ ms) (k, b) = decode_members ms (k\<lparr>jwk_Y := s\<rparr>, b)"
  by (cases k; simp add: optional_member_def decode_member_def fold_names decode_string_def Let_def del: foldName.simps)+

lemma decode_optional_last:
  "jwk_Y k = '''' \<Longrightarrow> decode_members (optional_member ''y'' s) (k, b) = (k\<lparr>jwk_Y := s\<rparr>, b)"
  using decode_optional(5)[of k s "[]" b] by simp

lemma decode_json_of_JWK: "decode_JWK zero_JWK (json_of_JWK k) = (k, False)"
  by (simp add: decode_JWK_def json_of_JWK_def decode_required decode_optional decode_optional_last zero_JWK_def
      del: decode_members.simps)

lemma decode_elements_json: "decode_elements [] (map json_of_JWK ks) = (ks, False)"
  by (induction ks) (simp_all add: decode_json_of_JWK)

lemma plain_json_of_JWK: "valid_JWK k \<Longrightarrow> plain_json (json_of_JWK k)"
  by (auto simp: json_of_JWK_def valid_JWK_def valid_names optional_member_def)

lemma depth_json_of_JWK: "json_depth (json_of_JWK k) = 1"
  by (simp add: json_of_JWK_def optional_member_def)

lemma depth_keys: "foldr (\<lambda>v. max (json_depth v)) (map json_of_JWK ks) 0 \<le> 1"
  by (induction ks) (simp_all add: depth_json_of_JWK)

lemma Unmarshal_Marshal:
  assumes "valid_JWKSet s"
  shows "json_Unmarshal (json_Marshal s) = Inr s"
proof -
  have "plain_json (json_of_JWKSet s)"
    using assms by (auto simp: json_of_JWKSet_def valid_JWKSet_def valid_names list_all_iff plain_json_of_JWK
        split: option.splits)
  moreover have "json_depth (json_of_JWKSet s) \<le> 3"
    using depth_keys by (auto simp: json_of_JWKSet_def split: option.split)
  ultimately have "parse_json (json_Marshal s) = Some (json_of_JWKSet s)"
    by (simp add: json_Marshal_def parse_print maxNestingDepth_def)
  then show ?thesis
    by (cases s; cases "jwk_Keys s")
      (auto simp: json_Unmarshal_def json_of_JWKSet_def fold_names decode_slice_def decode_elements_json
        simp del: foldName.simps)
qed

section \<open>Crash safety\<close>

lemma last_write_states: "last (write_states p data n f) = f(p \<mapsto> take n data)"
  by (simp add: write_states_def)

lemma write_states_other: "g \<in> set (write_states p data n f) \<Longrightarrow> p \<noteq> q \<Longrightarrow> g q = f q"
  by (auto simp: write_states_def)

lemma write_state_cases:
  assumes "writeJWKCache os path jwks f = (err, states)" and "g \<in> set states"
    and "\<And>tmp. CreateTemp os = Inr tmp \<Longrightarrow> tmp \<noteq> path"
  shows "g path = f path \<or> (err = None \<and> g path = Some (json_Marshal jwks))"
  using assms
  by (auto simp: writeJWKCache_def Let_def last_write_states os_Remove_def
      split: option.splits sum.splits if_splits dest: write_states_other)

lemma write_success:
  assumes "writeJWKCache os path jwks f = (None, states)"
  shows "final_fs f states path = Some (json_Marshal jwks)"
  using assms
  by (auto simp: writeJWKCache_def Let_def last_write_states final_fs_def split: option.splits sum.splits)

lemma write_failure:
  assumes "writeJWKCache os path jwks f = (Some err, states)"
    and "\<And>tmp. CreateTemp os = Inr tmp \<Longrightarrow> f tmp = None" and "Remove_works os"
  shows "final_fs f states = f"
  using assms
  by (auto simp: writeJWKCache_def Let_def last_write_states final_fs_def os_Remove_def
      split: option.splits sum.splits)

end
