(* ===== verification/Token_Validator.thy ===== *)
theory Token_Validator
  imports Claims Jwk_Store Effects
begin

text \<open>
  The API server client, \<open>src/internal/validation/apiserver_client.go\<close>, and the token validator,
  \<open>src/internal/validation/token_validator.go\<close>, as programs over the memory the validator's callers
  share: the key cache, the flag of a refresh in flight and the disk.

  The environment holds the code that is not in the repository: the JWT library, the REST client
  (the answer to a GET, which may differ from call to call), the decoding of \<open>version.Info\<close> and
  the version library, and the operating system. Writing the key set to the disk is one step here: the
  states in between leave the file under the cache path alone.
\<close>

section \<open>State and environment\<close>

type_synonym keyCache = "string \<rightharpoonup> cachedKey"

text \<open>\<open>jwksSource\<close> is whether the field is set.\<close>

record TokenValidator =
  tv_keys :: keyCache
  jwksSource :: bool
  refreshInFlight :: bool
  jwkCachePath :: path
  EndpointOverridden :: bool
  disk :: fs

datatype request_event = Requested string

type_synonym 'a vprog = "(TokenValidator, request_event, 'a) prog"

record 'ver version_lib =
  ParseGeneric :: "string \<Rightarrow> goerr + 'ver"
  MajorMinor :: "nat \<Rightarrow> nat \<Rightarrow> 'ver"
  AtLeast :: "'ver \<Rightarrow> 'ver \<Rightarrow> bool"
  ver_Major :: "'ver \<Rightarrow> int"
  ver_Minor :: "'ver \<Rightarrow> int"

record ('reg, 'ver) venv =
  vjwt :: "('reg, public_key) jwt_lib"
  vothers :: "nat \<Rightarrow> TokenValidator \<Rightarrow> TokenValidator"
  DoRaw :: "nat \<Rightarrow> string \<Rightarrow> goerr + string"
  Unmarshal_Info :: "string \<Rightarrow> goerr + string \<times> string"
  version :: "'ver version_lib"
  os_write :: "nat \<Rightarrow> os_answers"
  os_read :: "nat \<Rightarrow> goerr option"

section \<open>The API server client\<close>

definition apiserverQPS :: int where
  "apiserverQPS = 5"

definition jwksEndpoint :: string where
  "jwksEndpoint = ''/openid/v1/jwks''"

definition versionEndpoint :: string where
  "versionEndpoint = ''/version''"

definition minK8sVersion :: "('reg, 'ver) venv \<Rightarrow> 'ver" where
  "minK8sVersion env = MajorMinor (version env) 1 34"

text \<open>The in-cluster configuration, as far as the client sets it.\<close>

record rest_config =
  QPS :: int
  Burst :: int

definition newApiserverClient ::
  "goerr + rest_config \<Rightarrow> (rest_config \<Rightarrow> goerr + 'client) \<Rightarrow> goerr + 'client" where
  "newApiserverClient InClusterConfig NewForConfig =
     (case InClusterConfig of
        Inl err \<Rightarrow> Inl (Wrapped [Txt ''failed to build in-cluster config: ''] err [])
      | Inr config \<Rightarrow>
          (case NewForConfig (config\<lparr>QPS := apiserverQPS, Burst := apiserverQPS\<rparr>) of
             Inl err \<Rightarrow> Inl (Wrapped [Txt ''failed to create kubernetes client: ''] err [])
           | Inr clientset \<Rightarrow> Inr clientset))"

definition get_raw :: "('reg, 'ver) venv \<Rightarrow> string \<Rightarrow> (goerr + string) vprog" where
  "get_raw env endpoint = do { emit (Requested endpoint); ask (\<lambda>n. DoRaw env n endpoint) }"

definition unsupported_version :: "('reg, 'ver) venv \<Rightarrow> 'ver \<Rightarrow> goerr" where
  "unsupported_version env v =
     Wrapped [] ErrUnsupportedK8sVersion
       [Txt '': apiserver is on version '', Num (ver_Major (version env) v), Txt ''.'', Num (ver_Minor (version env) v)]"

definition version_error :: "('reg, 'ver) venv \<Rightarrow> goerr + string \<Rightarrow> goerr option" where
  "version_error env raw =
     (case raw of
        Inl err \<Rightarrow> Some (Wrapped [Txt ''failed to fetch Kubernetes version: ''] err [])
      | Inr text \<Rightarrow>
          (case Unmarshal_Info env text of
             Inl err \<Rightarrow> Some (Wrapped [Txt ''failed to decode Kubernetes version response: ''] err [])
           | Inr (major, minor) \<Rightarrow>
               (case ParseGeneric (version env) (major @ ''.'' @ minor) of
                  Inl err \<Rightarrow> Some (Wrapped [Txt ''unable to parse Kubernetes version: ''] err [])
                | Inr v \<Rightarrow>
                    if \<not> AtLeast (version env) v (minK8sVersion env)
                    then Some (unsupported_version env v) else None)))"

definition checkK8sVersion :: "('reg, 'ver) venv \<Rightarrow> goerr option vprog" where
  "checkK8sVersion env = do { raw \<leftarrow> get_raw env versionEndpoint; ret (version_error env raw) }"

definition decode_jwks :: "goerr + string \<Rightarrow> goerr + JWKSet" where
  "decode_jwks raw =
     (case raw of
        Inl err \<Rightarrow> Inl (Wrapped [Txt ''failed to fetch JWKS: ''] err [])
      | Inr text \<Rightarrow>
          (case json_Unmarshal text of
             Inl err \<Rightarrow> Inl (Wrapped [Txt ''failed to decode JWKS response: ''] err [])
           | Inr jwkSet \<Rightarrow> Inr jwkSet))"

definition fetchPublicKeys :: "('reg, 'ver) venv \<Rightarrow> (goerr + JWKSet) vprog" where
  "fetchPublicKeys env =
     do { verr \<leftarrow> checkK8sVersion env;
          case verr of
            Some err \<Rightarrow> ret (Inl err)
          | None \<Rightarrow> do { raw \<leftarrow> get_raw env jwksEndpoint; ret (decode_jwks raw) } }"

definition loadJWKCacheFromDisk :: "('reg, 'ver) venv \<Rightarrow> path \<Rightarrow> (goerr + JWKSet) vprog" where
  "loadJWKCacheFromDisk env cachePath =
     (if cachePath = '''' then ret (Inl (Plain [Txt ''no cache path configured'']))
      else
        do { err \<leftarrow> ask (os_read env);
             atomically (vothers env) (\<lambda>s. (readJWKCache err cachePath (disk s), s)) })"

definition persistJWKCacheToDisk :: "('reg, 'ver) venv \<Rightarrow> path \<Rightarrow> JWKSet \<Rightarrow> unit vprog" where
  "persistJWKCacheToDisk env cachePath jwks =
     (if cachePath = '''' then ret ()
      else
        do { os \<leftarrow> ask (os_write env);
             atomically (vothers env)
               (\<lambda>s. ((), s\<lparr>disk := final_fs (disk s) (snd (writeJWKCache os cachePath jwks (disk s)))\<rparr>)) })"

definition fetchPublicKeysWithFallback :: "('reg, 'ver) venv \<Rightarrow> path \<Rightarrow> (goerr + JWKSet) vprog" where
  "fetchPublicKeysWithFallback env cachePath =
     do { fetched \<leftarrow> fetchPublicKeys env;
          case fetched of
            Inl err \<Rightarrow>
              if errors_Is err ErrUnsupportedK8sVersion then ret (Inl err)
              else
                do { cached \<leftarrow> loadJWKCacheFromDisk env cachePath;
                     ret (case cached of Inl diskErr \<Rightarrow> Inl err | Inr jwks \<Rightarrow> Inr jwks) }
          | Inr jwks \<Rightarrow> do { persistJWKCacheToDisk env cachePath jwks; ret (Inr jwks) } }"

section \<open>The key cache\<close>

text \<open>The loop of \<open>loadJWKSet\<close>: the first key of an id that parses wins.\<close>

fun load_keys :: "JWK list \<Rightarrow> keyCache \<Rightarrow> keyCache" where
  "load_keys [] newKeys = newKeys"
| "load_keys (k # ks) newKeys =
     (if newKeys (jwk_Kid k) \<noteq> None then load_keys ks newKeys
      else case parseJWK k of
             Inl err \<Rightarrow> load_keys ks newKeys
           | Inr pubKey \<Rightarrow> load_keys ks (newKeys(jwk_Kid k \<mapsto> \<lparr>ck_key = pubKey, ck_alg = jwk_Alg k\<rparr>)))"

definition keys_of :: "JWKSet \<Rightarrow> keyCache" where
  "keys_of jwks = load_keys (case jwk_Keys jwks of None \<Rightarrow> [] | Some ks \<Rightarrow> ks) Map.empty"

definition loadJWKSet :: "('reg, 'ver) venv \<Rightarrow> JWKSet \<Rightarrow> unit vprog" where
  "loadJWKSet env jwks = atomically (vothers env) (\<lambda>s. ((), s\<lparr>tv_keys := keys_of jwks\<rparr>))"

definition cached_key :: "('reg, 'ver) venv \<Rightarrow> string \<Rightarrow> cachedKey option vprog" where
  "cached_key env kid = atomically (vothers env) (\<lambda>s. (tv_keys s kid, s))"

definition refreshKeys :: "('reg, 'ver) venv \<Rightarrow> goerr option vprog" where
  "refreshKeys env =
     do { swapped \<leftarrow> atomically (vothers env)
            (\<lambda>s. if refreshInFlight s then (False, s) else (True, s\<lparr>refreshInFlight := True\<rparr>));
          if \<not> swapped then ret (Some (Plain [Txt ''key refresh already in progress'']))
          else
            do { cachePath \<leftarrow> atomically (vothers env) (\<lambda>s. (jwkCachePath s, s));
                 fetched \<leftarrow> fetchPublicKeysWithFallback env cachePath;
                 result \<leftarrow>
                   (case fetched of
                      Inl err \<Rightarrow>
                        do { (if errors_Is err ErrUnsupportedK8sVersion
                              then atomically (vothers env) (\<lambda>s. ((), s\<lparr>tv_keys := Map.empty\<rparr>))
                              else ret ());
                             ret (Some err) }
                    | Inr jwks \<Rightarrow> do { loadJWKSet env jwks; ret None });
                 atomically (vothers env) (\<lambda>s. ((), s\<lparr>refreshInFlight := False\<rparr>));
                 ret result } }"

section \<open>Validation\<close>

text \<open>The validator before its goroutine has filled the key cache, which is \<open>refreshKeys\<close>.\<close>

definition NewTokenValidator :: "fs \<Rightarrow> goerr + 'client \<Rightarrow> goerr + TokenValidator" where
  "NewTokenValidator f client =
     (case client of
        Inl err \<Rightarrow> Inl (Wrapped [Txt ''failed to initialize apiserver client: ''] err [])
      | Inr ac \<Rightarrow>
          Inr \<lparr>tv_keys = Map.empty, jwksSource = True, refreshInFlight = False,
               jwkCachePath = defaultJWKCachePath, EndpointOverridden = False, disk = f\<rparr>)"

definition RefreshKeys :: "('reg, 'ver) venv \<Rightarrow> string \<Rightarrow> goerr option vprog" where
  "RefreshKeys env token =
     (case ParseUnverified (vjwt env) token of
        Inl err \<Rightarrow> ret (Some (Wrapped [Txt ''failed to parse token: ''] err []))
      | Inr parsed \<Rightarrow>
          (case get_string (jwt_Header parsed) ''kid'' of
             None \<Rightarrow> ret (Some (Plain [Txt ''kid not found in JWT header'']))
           | Some kid \<Rightarrow>
               do { found \<leftarrow> cached_key env kid;
                    if found = None then refreshKeys env else ret None }))"

definition key_function :: "cachedKey \<Rightarrow> jwt_token \<Rightarrow> goerr + public_key" where
  "key_function cached t =
     (let tokenAlg = get_string_or_empty (jwt_Header t) ''alg'' in
      if tokenAlg \<noteq> ck_alg cached
      then Inl (Plain [Txt ''algorithm mismatch: token uses '', Quo tokenAlg, Txt '' but key declares '', Quo (ck_alg cached)])
      else Inr (ck_key cached))"

definition crypto_error :: "msg \<Rightarrow> goerr" where
  "crypto_error m = Plain (Txt ''cryptographic validation failed: '' # m)"

definition check_signature ::
  "('reg, 'ver) venv \<Rightarrow> string \<Rightarrow> cachedKey \<Rightarrow> goerr option go" where
  "check_signature env tokenString cached =
     (case jwt_Parse (vjwt env) tokenString (key_function cached) of
        Panic \<Rightarrow> Panic
      | Ret None \<Rightarrow> Ret None
      | Ret (Some err) \<Rightarrow> Ret (Some (Wrapped [Txt ''cryptographic validation failed: ''] err [])))"

definition validateSignature ::
  "('reg, 'ver) venv \<Rightarrow> string \<Rightarrow> jwt_token \<Rightarrow> goerr option go vprog" where
  "validateSignature env tokenString parsed =
     (case get_string (jwt_Header parsed) ''kid'' of
        None \<Rightarrow> ret (Ret (Some (crypto_error [Txt ''kid not found in JWT header''])))
      | Some kid \<Rightarrow>
          do { found \<leftarrow> cached_key env kid;
               case found of
                 Some cached \<Rightarrow> ret (check_signature env tokenString cached)
               | None \<Rightarrow>
                   do { refreshed \<leftarrow> refreshKeys env;
                        case refreshed of
                          Some err \<Rightarrow>
                            ret (Ret (Some (Wrapped
                              [Txt ''cryptographic validation failed: key refresh failed: ''] err [])))
                        | None \<Rightarrow>
                            do { again \<leftarrow> cached_key env kid;
                                 case again of
                                   None \<Rightarrow>
                                     ret (Ret (Some (crypto_error
                                       [Txt ''no matching key found for kid: '', Txt kid])))
                                 | Some cached \<Rightarrow> ret (check_signature env tokenString cached) } } })"

text \<open>The deferred \<open>recover\<close> turns a panic into an error.\<close>

definition signature_result :: "goerr option go \<Rightarrow> goerr option" where
  "signature_result r =
     (case r of
        Panic \<Rightarrow> Some (Plain [Txt ''local validation panicked: ''])
      | Ret None \<Rightarrow> None
      | Ret (Some err) \<Rightarrow>
          Some (NewRequestValidationError (Txt ''JWT signature validation failed: '' # Error err)))"

definition ValidateToken ::
  "('reg, 'ver) venv \<Rightarrow> EksCredentialsRequest \<Rightarrow> goerr option vprog" where
  "ValidateToken env req =
     (if ServiceAccountToken req = ''''
      then ret (Some (NewRequestValidationError [Txt ''Service account token cannot be empty'']))
      else
        do { source \<leftarrow> atomically (vothers env) (\<lambda>s. (jwksSource s, s));
             if \<not> source
             then ret (Some (Plain [Txt ''jwksSource is nil, skipping local validation'']))
             else
               do { verr \<leftarrow> checkK8sVersion env;
                    case verr of
                      Some err \<Rightarrow>
                        ret (Some (Wrapped [Txt ''version check failed, skipping local validation: ''] err []))
                    | None \<Rightarrow>
                        (case ParseUnverified (vjwt env) (ServiceAccountToken req) of
                           Inl err \<Rightarrow>
                             ret (Some (NewRequestValidationError
                               (Txt ''Service account token cannot be parsed: '' # Error err)))
                         | Inr parsedToken \<Rightarrow>
                             do { overridden \<leftarrow> atomically (vothers env) (\<lambda>s. (EndpointOverridden s, s));
                                  case ValidateClaims overridden parsedToken of
                                    Some err \<Rightarrow>
                                      ret (Some (NewRequestValidationError
                                        (Txt ''Service account token failed claim validations: '' # Error err)))
                                  | None \<Rightarrow>
                                      do { r \<leftarrow> validateSignature env (ServiceAccountToken req) parsedToken;
                                           ret (signature_result r) } }) } })"

end
