(* ===== verification/Logging.thy ===== *)
theory Logging
  imports Agent_Errors
begin

text \<open>
  The logger a context carries, \<open>src/internal/middleware/logger/logger.go\<close>. A context is what the package reads
  and writes of it, the value under \<open>contextKey\<close>. An entry of \<open>logrus\<close> is known by the calls of that
  library that made it, and nothing is said about what the calls do; the global logger is a variable of the package that is nil until \<open>Initialize\<close>
  has run. What is printed is not modelled.
\<close>

section \<open>Entries and contexts\<close>

text \<open>The dynamic values that occur as keys and values of fields.\<close>

datatype any_value = AnyString string | AnyNet "int list"

datatype log_entry =
  LoggerWithContext
| LoggerWithFields "(string \<times> any_value) list"
| WithField log_entry string any_value

record ctx =
  ctx_logger :: "log_entry option"

definition Background :: ctx where
  "Background = \<lparr>ctx_logger = None\<rparr>"

record 'level global_logger =
  Level :: 'level

text \<open>How a function ends: it returns, it panics, or the process exits (\<open>log.Fatalf\<close>).\<close>

datatype 'a outcome = Returns 'a | Panics | Exits

section \<open>Operations\<close>

text \<open>\<open>logrus.ParseLevel\<close> is an argument. The result is the new value of the package's variable.\<close>

definition logger_Initialize ::
  "(string \<Rightarrow> goerr + 'level) \<Rightarrow> string \<Rightarrow> 'level global_logger option outcome" where
  "logger_Initialize ParseLevel loggingVerbosity =
     (case ParseLevel loggingVerbosity of
        Inl err \<Rightarrow> Exits
      | Inr level \<Rightarrow> Returns (Some \<lparr>Level = level\<rparr>))"

definition InjectLogger_ctx :: "string \<Rightarrow> ctx \<Rightarrow> ctx" where
  "InjectLogger_ctx remoteAddr c =
     c\<lparr>ctx_logger := Some (LoggerWithFields [(''client-addr'', AnyString remoteAddr)])\<rparr>"

text \<open>Without a logger in the context, the global one makes a new entry, which panics when it is nil.\<close>

definition FromContext :: "'level global_logger option \<Rightarrow> ctx \<Rightarrow> log_entry outcome" where
  "FromContext logger c =
     (case ctx_logger c of
        Some e \<Rightarrow> Returns e
      | None \<Rightarrow> (if logger = None then Panics else Returns LoggerWithContext))"

definition CloneToNewIfPresent :: "ctx \<Rightarrow> ctx \<Rightarrow> ctx" where
  "CloneToNewIfPresent originCtx newCtx =
     (case ctx_logger originCtx of
        Some e \<Rightarrow> newCtx\<lparr>ctx_logger := Some e\<rparr>
      | None \<Rightarrow> newCtx)"

text \<open>The loop over the pairs; the type assertion on a key panics when it is not a string.\<close>

fun add_fields :: "log_entry \<Rightarrow> any_value list \<Rightarrow> log_entry outcome" where
  "add_fields e (AnyString k # v # kvs) = add_fields (WithField e k v) kvs"
| "add_fields e (AnyNet n # v # kvs) = Panics"
| "add_fields e kvs = Returns e"

definition ContextWithField ::
  "'level global_logger option \<Rightarrow> ctx \<Rightarrow> any_value list \<Rightarrow> ctx outcome" where
  "ContextWithField logger c keyValues =
     (case FromContext logger c of
        Panics \<Rightarrow> Panics
      | Exits \<Rightarrow> Exits
      | Returns e \<Rightarrow>
          if length keyValues mod 2 \<noteq> 0 then Exits
          else (case add_fields e keyValues of
                  Returns e' \<Rightarrow> Returns (c\<lparr>ctx_logger := Some e'\<rparr>)
                | Panics \<Rightarrow> Panics
                | Exits \<Rightarrow> Exits))"

section \<open>Laws\<close>

lemma add_fields_exits: "add_fields e kvs \<noteq> Exits"
  by (induction e kvs rule: add_fields.induct) simp_all

text \<open>Once the logger is initialized, deriving a context panics for a key that is not a string only.\<close>

lemma FromContext_initialized: "logger \<noteq> None \<Longrightarrow> \<exists>e. FromContext logger c = Returns e"
  by (simp add: FromContext_def split: option.split)

lemma ContextWithField_pair:
  "logger \<noteq> None \<Longrightarrow> \<exists>e. FromContext logger c = Returns e \<and>
     ContextWithField logger c [AnyString k, v] = Returns (c\<lparr>ctx_logger := Some (WithField e k v)\<rparr>)"
  using FromContext_initialized[of logger c] by (auto simp: ContextWithField_def)

end
