(* ===== verification/Handlers.thy ===== *)
theory Handlers
  imports Retriever Request_Validation Json Token_Validator Logging
begin

text \<open>
  The HTTP handlers, \<open>src/pkg/handlers\<close>, with the JSON form of a response
  (\<open>src/pkg/credentials/model.go\<close>) and the rate limiting middleware and servers of
  \<open>src/internal/middleware/rate_limiter\<close> and \<open>src/pkg/server\<close>.

  A handler is a program that returns the response it writes, or that a panic of the delegate unwinds. The retriever it
  calls is the caching one or, with caching disabled, the delegate itself.
\<close>

section \<open>Printing numbers and times\<close>

fun digits :: "nat \<Rightarrow> string" where
  "digits n = (if n < 10 then [chr (48 + n)] else digits (n div 10) @ [chr (48 + n mod 10)])"

declare digits.simps [simp del]

text \<open>\<open>strconv.Itoa\<close>, and a number padded with zeros to a width.\<close>

definition Itoa :: "int \<Rightarrow> string" where
  "Itoa i = (if i < 0 then CHR ''-'' # digits (nat (- i)) else digits (nat i))"

definition pad :: "nat \<Rightarrow> nat \<Rightarrow> string" where
  "pad w n = (let s = digits n in replicate (w - length s) (CHR ''0'') @ s)"

text \<open>The date of a day counted from the epoch.\<close>

definition civil_date :: "int \<Rightarrow> int \<times> int \<times> int" where
  "civil_date days =
     (let z = days + 719468; era = z div 146097; doe = z mod 146097;
          yoe = (doe - doe div 1460 + doe div 36524 - doe div 146096) div 365;
          doy = doe - (365 * yoe + yoe div 4 - yoe div 100);
          mp = (5 * doy + 2) div 153;
          d = doy - (153 * mp + 2) div 5 + 1;
          m = (if mp < 10 then mp + 3 else mp - 9)
      in (yoe + era * 400 + (if m \<le> 2 then 1 else 0), m, d))"

text \<open>
  The text of a UTC time in the layout \<open>time.RFC3339Nano\<close>, as \<open>time.Time.MarshalJSON\<close> writes it; it
  fails outside the years 0 to 9999. (The type of the field embeds \<open>time.Time\<close>, so this method comes before
  the type's own \<open>MarshalText\<close>, which gives the same text.)
\<close>

definition nano_fraction :: "nat \<Rightarrow> string" where
  "nano_fraction n =
     (let ds = rev (dropWhile (\<lambda>c. c = CHR ''0'') (rev (pad 9 n))) in if ds = [] then [] else CHR ''.'' # ds)"

definition rfc3339nano :: "time \<Rightarrow> string option" where
  "rfc3339nano t =
     (let days = t div (86400 * Second); nanos = t mod (86400 * Second);
          secs = nat (nanos div Second); (y, m, d) = civil_date days
      in if y < 0 \<or> 9999 < y then None
         else Some (pad 4 (nat y) @ ''-'' @ pad 2 (nat m) @ ''-'' @ pad 2 (nat d) @ ''T'' @
                    pad 2 (secs div 3600) @ '':'' @ pad 2 (secs div 60 mod 60) @ '':'' @ pad 2 (secs mod 60) @
                    nano_fraction (nat (nanos mod Second)) @ ''Z''))"

section \<open>The JSON form of a response\<close>

definition omitempty :: "string \<Rightarrow> string \<Rightarrow> jobject" where
  "omitempty name v = (if v = '''' then [] else [(name, JString v)])"

definition json_of_response :: "EksCredentialsResponse \<Rightarrow> json option" where
  "json_of_response r =
     map_option (\<lambda>ex. JObject
       (omitempty ''AccessKeyId'' (AccessKeyId r) @ omitempty ''SecretAccessKey'' (SecretAccessKey r) @
        omitempty ''Token'' (Token r) @ omitempty ''AccountId'' (AccountId r) @ [(''Expiration'', JString ex)]))
       (rfc3339nano (CredsExpiration r))"

definition response_Marshal :: "EksCredentialsResponse \<Rightarrow> string option" where
  "response_Marshal r = map_option print_json (json_of_response r)"

section \<open>The credential handler\<close>

record http_request =
  Authorization :: string
  Host :: string
  RemoteAddr :: string
  ReqContext :: ctx

text \<open>The body is JSON text or the message of an error, which \<open>http.Error\<close> ends with a newline.\<close>

datatype body = JSON string | Message msg | NoBody

record http_response =
  StatusCode :: int
  ContentType :: string
  Body :: body

definition http_Error :: "msg \<Rightarrow> int \<Rightarrow> http_response" where
  "http_Error m code =
     \<lparr>StatusCode = code, ContentType = ''text/plain; charset=utf-8'', Body = Message (m @ [Txt [CHR 10]])\<rparr>"

record EksCredentialHandlerOpts =
  opt_ClusterName :: string
  opt_CredentialRenewal :: duration
  opt_MaxCacheSize :: int
  opt_RefreshQPS :: int
  opt_EndpointOverridden :: bool

text \<open>\<open>CredentialRetriever\<close> is \<open>None\<close> for the EKS Auth service itself.\<close>

record EksCredentialHandler =
  h_ClusterName :: string
  RequestValidator :: DefaultCredentialValidator
  CredentialRetriever :: "TokenValidator cachedCredentialRetriever option"

definition NewEksCredentialHandler ::
  "goerr + TokenValidator \<Rightarrow> EksCredentialHandlerOpts \<Rightarrow> EksCredentialHandler go" where
  "NewEksCredentialHandler new_tv opts =
     (let tv = (case new_tv of
                  Inl err \<Rightarrow> None
                | Inr v \<Rightarrow> Some (v\<lparr>EndpointOverridden := opt_EndpointOverridden opts\<rparr>));
          handler = (\<lambda>r. \<lparr>h_ClusterName = opt_ClusterName opts,
                          RequestValidator = \<lparr>TargetHosts = None\<rparr>, CredentialRetriever = r\<rparr>)
      in if opt_CredentialRenewal opts \<noteq> 0 \<and> opt_MaxCacheSize opts \<noteq> 0
         then (case NewCachedCredentialRetriever
                     \<lparr>Delegate = Some (), TokenValidator = tv, CredentialsRenewalTtl = opt_CredentialRenewal opts,
                      MaxCacheSize = opt_MaxCacheSize opts, RefreshQPS = opt_RefreshQPS opts,
                      CleanupInterval = 0\<rparr> of
                 Panic \<Rightarrow> Panic
               | Ret r \<Rightarrow> Ret (handler (Some r)))
         else Ret (handler None))"

text \<open>The pattern each handler registers.\<close>

definition credential_patterns :: "string list" where
  "credential_patterns = [''/v1/credentials'']"

definition call_retriever ::
  "('reg, 'key, 'tv) renv \<Rightarrow> bool \<Rightarrow> EksCredentialsRequest \<Rightarrow> ('tv, (goerr + EksCredentialsResponse) go) rprog" where
  "call_retriever env cached request =
     (if cached then GetIamCredentials env (Some request)
      else
        do { emit (CallDelegate request);
             answer \<leftarrow> ask (\<lambda>n. delegate env n request);
             ret (map_go (map_sum id fst) answer) })"

definition GetEksCredentials ::
  "('reg, 'key, 'tv) renv \<Rightarrow> EksCredentialHandler \<Rightarrow> EksCredentialsRequest
   \<Rightarrow> ('tv, (goerr + EksCredentialsResponse) go) rprog" where
  "GetEksCredentials env h request =
     do { now \<leftarrow> time_Now env;
          case ValidateEksCredentialRequest (jwt env) now (RequestValidator h) request of
            Some err \<Rightarrow> ret (Ret (Inl err))
          | None \<Rightarrow> call_retriever env (CredentialRetriever h \<noteq> None) request }"

definition count_status :: "int \<Rightarrow> ('tv, unit) rprog" where
  "count_status code = emit (Inc ''pod_identity_http_response'' [Itoa code])"

definition HandleRequest ::
  "('reg, 'key, 'tv) renv \<Rightarrow> EksCredentialHandler \<Rightarrow> http_request \<Rightarrow> ('tv, http_response go) rprog" where
  "HandleRequest env h req =
     do { got \<leftarrow> GetEksCredentials env h
            \<lparr>ServiceAccountToken = Authorization req, ClusterName = h_ClusterName h, RequestTargetHost = Host req\<rparr>;
          case got of
            Panic \<Rightarrow> ret Panic
          | Ret (Inl err) \<Rightarrow>
              let (m, code) = HandleCredentialFetchingError err in
              do { count_status code; ret (Ret (http_Error m code)) }
          | Ret (Inr creds) \<Rightarrow>
              (case response_Marshal creds of
                 None \<Rightarrow>
                   do { count_status StatusInternalServerError;
                        ret (Ret (http_Error [Txt ''Unable to serialize credentials''] StatusInternalServerError)) }
               | Some text \<Rightarrow>
                   do { count_status StatusOK;
                        ret (Ret \<lparr>StatusCode = StatusOK, ContentType = ''application/json'', Body = JSON text\<rparr>) }) }"

section \<open>The probe handler\<close>

record probeHandler =
  addrs :: "string list"
  probeTimeout :: duration

definition defaultProbeTimeout :: duration where
  "defaultProbeTimeout = 10 * Second"

definition NewProbeHandler :: "string list \<Rightarrow> nat \<Rightarrow> probeHandler" where
  "NewProbeHandler hosts port =
     \<lparr>addrs = map (\<lambda>host. host @ '':'' @ digits port) hosts, probeTimeout = defaultProbeTimeout\<rparr>"

definition probe_patterns :: "string list" where
  "probe_patterns = [''/readyz'', ''/healthz'']"

text \<open>
  \<open>NewRequest\<close> and \<open>Do\<close> are the standard library's, the latter an answer of the network: an
  error or a status code.
\<close>

fun probeAddrs :: "(string \<Rightarrow> goerr option) \<Rightarrow> (string \<Rightarrow> goerr + int) \<Rightarrow> string list \<Rightarrow> goerr option" where
  "probeAddrs NewRequest Do [] = None"
| "probeAddrs NewRequest Do (addr # as) =
     (case NewRequest (''http://'' @ addr) of
        Some err \<Rightarrow> Some err
      | None \<Rightarrow>
          (case Do (''http://'' @ addr) of
             Inl err \<Rightarrow> Some err
           | Inr code \<Rightarrow>
               if code \<noteq> StatusNotFound
               then Some (Plain [Txt ''unexpected status code recieved, expected '', Num StatusNotFound,
                                 Txt '', got '', Num code])
               else probeAddrs NewRequest Do as))"

definition HandleProbe ::
  "(string \<Rightarrow> goerr option) \<Rightarrow> (string \<Rightarrow> goerr + int) \<Rightarrow> probeHandler \<Rightarrow> http_response" where
  "HandleProbe NewRequest Do p =
     (case probeAddrs NewRequest Do (addrs p) of
        None \<Rightarrow> \<lparr>StatusCode = StatusOK, ContentType = [], Body = NoBody\<rparr>
      | Some err \<Rightarrow>
          if errors_Is err DeadlineExceeded
          then \<lparr>StatusCode = StatusRequestTimeout, ContentType = [], Body = NoBody\<rparr>
          else \<lparr>StatusCode = StatusInternalServerError, ContentType = [],
                Body = Message [Txt ''Internal Server Error occurred'']\<rparr>)"

end
