(* ===== verification/Server.thy ===== *)
theory Server
  imports Handlers
begin

text \<open>
  The rate limiting middleware (\<open>src/internal/middleware/rate_limiter/rate_limiter.go\<close>), the servers
  (\<open>src/pkg/server/server.go\<close>) and what the \<open>server\<close> command makes of its flags
  (\<open>src/cmd/server.go\<close>). The limiter itself is a library; whether it allows a request is an answer of the
  environment.
\<close>

section \<open>Middleware\<close>

record limiter =
  lim_rate :: int
  lim_burst :: int

definition NewRateLimiter :: "int \<Rightarrow> limiter" where
  "NewRateLimiter requestsPerSecond =
     \<lparr>lim_rate = requestsPerSecond, lim_burst = go_quot requestsPerSecond 2\<rparr>"

type_synonym 'tv handler_func = "http_request \<Rightarrow> ('tv, http_response go) rprog"

definition RateLimitMiddleware :: "(limiter \<Rightarrow> nat \<Rightarrow> bool) \<Rightarrow> limiter \<Rightarrow> 'tv handler_func \<Rightarrow> 'tv handler_func" where
  "RateLimitMiddleware Allow lim next_handler r =
     do { ok \<leftarrow> ask (Allow lim);
          if ok then next_handler r
          else ret (Ret (http_Error [Txt ''Too Many Requests''] StatusTooManyRequests)) }"

definition InjectLogger :: "'tv handler_func \<Rightarrow> 'tv handler_func" where
  "InjectLogger next_handler r =
     next_handler (r\<lparr>ReqContext := InjectLogger_ctx (RemoteAddr r) (ReqContext r)\<rparr>)"

section \<open>Servers\<close>

datatype configurer = Credential EksCredentialHandler | Probe probeHandler

datatype route = Limited limiter configurer | MetricsRoute

definition defaultRequestTimeout :: duration where
  "defaultRequestTimeout = 30 * Second"

definition maxTerminationWait :: duration where
  "maxTerminationWait = defaultRequestTimeout + 5 * Second"

record Server =
  srv_configurer :: "configurer option"
  srv_Addr :: string
  srv_ReadTimeout :: duration
  srv_WriteTimeout :: duration
  srv_mux :: "(string \<times> route) list"

definition newBaseServer :: "string \<Rightarrow> Server" where
  "newBaseServer addr =
     \<lparr>srv_configurer = None, srv_Addr = addr, srv_ReadTimeout = defaultRequestTimeout,
      srv_WriteTimeout = defaultRequestTimeout, srv_mux = []\<rparr>"

definition NewProbeServer :: "string \<Rightarrow> string list \<Rightarrow> nat \<Rightarrow> Server" where
  "NewProbeServer addr hosts port = (newBaseServer addr)\<lparr>srv_configurer := Some (Probe (NewProbeHandler hosts port))\<rparr>"

definition NewEksCredentialServer ::
  "goerr + TokenValidator \<Rightarrow> string \<Rightarrow> EksCredentialHandlerOpts \<Rightarrow> Server go" where
  "NewEksCredentialServer new_tv addr opts =
     (case NewEksCredentialHandler new_tv opts of
        Panic \<Rightarrow> Panic
      | Ret h \<Rightarrow> Ret ((newBaseServer addr)\<lparr>srv_configurer := Some (Credential h)\<rparr>))"

definition NewMetricsServer :: "string \<Rightarrow> string list \<Rightarrow> nat \<Rightarrow> Server" where
  "NewMetricsServer addr hosts port =
     (newBaseServer addr)\<lparr>srv_configurer := Some (Probe (NewProbeHandler hosts port)),
                          srv_mux := [(''/metrics'', MetricsRoute)]\<rparr>"

definition patterns :: "configurer \<Rightarrow> string list" where
  "patterns c = (case c of Credential h \<Rightarrow> credential_patterns | Probe p \<Rightarrow> probe_patterns)"

text \<open>Every pattern gets a limiter of its own.\<close>

definition configureHandler :: "Server \<Rightarrow> Server" where
  "configureHandler p =
     (case srv_configurer p of
        None \<Rightarrow> p
      | Some c \<Rightarrow>
          p\<lparr>srv_mux := srv_mux p @ map (\<lambda>pattern. (pattern, Limited (NewRateLimiter RequestRate) c)) (patterns c)\<rparr>)"

text \<open>
  What a server answers to a request for a path in its clean form (others are redirected there): the multiplexer's own 404 where no pattern matches,
  else the handler behind the interceptors, the last of which is the outermost one. When the handler panics, \<open>net/http\<close>
  recovers and closes the connection: there is no answer, and the server goes on.
\<close>

definition run_configurer ::
  "('reg, 'key, 'tv) renv \<Rightarrow> (string \<Rightarrow> goerr option) \<Rightarrow> (string \<Rightarrow> goerr + int) \<Rightarrow> configurer
   \<Rightarrow> 'tv handler_func" where
  "run_configurer env NewRequest Do c r =
     (case c of Credential h \<Rightarrow> HandleRequest env h r | Probe p \<Rightarrow> ret (Ret (HandleProbe NewRequest Do p)))"

definition not_found :: http_response where
  "not_found = http_Error [Txt ''404 page not found''] StatusNotFound"

definition serve ::
  "('reg, 'key, 'tv) renv \<Rightarrow> (limiter \<Rightarrow> nat \<Rightarrow> bool) \<Rightarrow> (string \<Rightarrow> goerr option) \<Rightarrow> (string \<Rightarrow> goerr + int)
   \<Rightarrow> http_response \<Rightarrow> Server \<Rightarrow> string \<Rightarrow> 'tv handler_func" where
  "serve env Allow NewRequest Do metrics srv path r =
     (case map_of (srv_mux srv) path of
        None \<Rightarrow> ret (Ret not_found)
      | Some MetricsRoute \<Rightarrow> ret (Ret metrics)
      | Some (Limited lim c) \<Rightarrow>
          RateLimitMiddleware Allow lim (InjectLogger (run_configurer env NewRequest Do c)) r)"

section \<open>The server command\<close>

record server_flags =
  serverPort :: nat
  probePort :: nat
  metricsAddress :: string
  metricsPort :: nat
  bindHosts :: "string list"
  fl_clusterName :: string
  overrideEksAuthEndpoint :: string
  maxCredentialRenewal :: duration
  maxCacheSize :: int
  refreshQps :: int
  rotateCredentials :: bool

definition default_flags :: "string \<Rightarrow> server_flags" where
  "default_flags cluster =
     \<lparr>serverPort = 80, probePort = 2703, metricsAddress = ''0.0.0.0'', metricsPort = 2705,
      bindHosts = [DefaultIpv4TargetHost, ''['' @ DefaultIpv6TargetHost @ '']''], fl_clusterName = cluster,
      overrideEksAuthEndpoint = '''', maxCredentialRenewal = 3 * 60 * Minute, maxCacheSize = 2000, refreshQps = 3,
      rotateCredentials = False\<rparr>"

fun traverse_go :: "('a \<Rightarrow> 'b go) \<Rightarrow> 'a list \<Rightarrow> 'b list go" where
  "traverse_go f [] = Ret []"
| "traverse_go f (x # xs) =
     (case f x of
        Panic \<Rightarrow> Panic
      | Ret y \<Rightarrow> (case traverse_go f xs of Panic \<Rightarrow> Panic | Ret ys \<Rightarrow> Ret (y # ys)))"

definition handler_opts :: "server_flags \<Rightarrow> EksCredentialHandlerOpts" where
  "handler_opts fl =
     \<lparr>opt_ClusterName = fl_clusterName fl, opt_CredentialRenewal = maxCredentialRenewal fl,
      opt_MaxCacheSize = maxCacheSize fl, opt_RefreshQPS = refreshQps fl,
      opt_EndpointOverridden = (overrideEksAuthEndpoint fl \<noteq> '''')\<rparr>"

definition createServers :: "(string \<Rightarrow> goerr + TokenValidator) \<Rightarrow> server_flags \<Rightarrow> Server list go" where
  "createServers new_tv fl =
     (case traverse_go (\<lambda>ip. NewEksCredentialServer (new_tv ip) (ip @ '':'' @ digits (serverPort fl)) (handler_opts fl))
             (bindHosts fl) of
        Panic \<Rightarrow> Panic
      | Ret servers \<Rightarrow>
          Ret (servers @
            [NewProbeServer (''localhost:'' @ digits (probePort fl)) (bindHosts fl) (serverPort fl),
             NewMetricsServer (metricsAddress fl @ '':'' @ digits (metricsPort fl)) (bindHosts fl) (serverPort fl)]))"

end
