(* ===== verification/Eks_Auth.thy ===== *)
theory Eks_Auth
  imports Credentials
begin

text \<open>
  The call to EKS Auth, \<open>src/internal/cloud/eksauth/service.go\<close>. The SDK's operation
  \<open>AssumeRoleForPodIdentity\<close> and its ARN parser are arguments. The SDK's output is a struct of pointers, so
  each field is an option and dereferencing a nil one panics. The response printed into the text
  of an error is left out of that text.
\<close>

section \<open>The SDK's data\<close>

record AssumeRoleForPodIdentityInput =
  in_ClusterName :: string
  in_Token :: string

record sdk_Credentials =
  sdk_AccessKeyId :: "string option"
  sdk_SecretAccessKey :: "string option"
  sdk_SessionToken :: "string option"
  sdk_Expiration :: "time option"

record sdk_AssumedRoleUser =
  sdk_Arn :: "string option"
  sdk_AssumeRoleId :: "string option"

record AssumeRoleForPodIdentityOutput =
  out_Credentials :: "sdk_Credentials option"
  out_AssumedRoleUser :: "sdk_AssumedRoleUser option"
  out_AssociationId :: "string option option"

section \<open>The client's configuration\<close>

record http_client =
  dial_timeout :: duration
  client_timeout :: duration

record aws_config =
  HTTPClient :: "http_client option"

definition NewService :: "aws_config \<Rightarrow> aws_config" where
  "NewService cfg =
     cfg\<lparr>HTTPClient := Some \<lparr>dial_timeout = 500 * Millisecond, client_timeout = 1000 * Millisecond\<rparr>\<rparr>"

section \<open>The call\<close>

text \<open>\<open>*p\<close>.\<close>

definition deref :: "'a option \<Rightarrow> ('a \<Rightarrow> 'b go) \<Rightarrow> 'b go" where
  "deref p f = (case p of None \<Rightarrow> Panic | Some x \<Rightarrow> f x)"

definition service_GetIamCredentials ::
  "(AssumeRoleForPodIdentityInput \<Rightarrow> goerr + AssumeRoleForPodIdentityOutput)
   \<Rightarrow> (string \<Rightarrow> goerr + string)
   \<Rightarrow> EksCredentialsRequest \<Rightarrow> (goerr + EksCredentialsResponse \<times> string) go" where
  "service_GetIamCredentials AssumeRoleForPodIdentity arn_AccountID request =
     (case AssumeRoleForPodIdentity
             \<lparr>in_ClusterName = ClusterName request, in_Token = ServiceAccountToken request\<rparr> of
        Inl err \<Rightarrow> Ret (Inl (Wrapped [Txt ''unable to fetch credentials from EKS Auth: ''] err []))
      | Inr creds \<Rightarrow>
          (case (out_Credentials creds, out_AssumedRoleUser creds) of
             (Some c, Some user) \<Rightarrow>
               deref (sdk_Arn user) (\<lambda>arn.
               deref (sdk_AssumeRoleId user) (\<lambda>roleId.
               (case arn_AccountID arn of
                 Inl err \<Rightarrow> Ret (Inl (Plain (Txt ''unable to parse arn from assumed role: '' # Error err)))
               | Inr accountId \<Rightarrow>
                   deref (sdk_AccessKeyId c) (\<lambda>ak.
                   deref (sdk_SecretAccessKey c) (\<lambda>sk.
                   deref (sdk_SessionToken c) (\<lambda>st.
                   deref (sdk_Expiration c) (\<lambda>ex.
                   deref (out_AssociationId creds) (\<lambda>assoc.
                   deref assoc (\<lambda>associationId.
                   Ret (Inr (\<lparr>AccessKeyId = ak, SecretAccessKey = sk, Token = st, AccountId = accountId,
                              CredsExpiration = ex\<rparr>, associationId)))))))))))
           | _ \<Rightarrow>
               Ret (Inl (Plain [Txt ''invalid response from server: credentials or assumed role empty: '']))))"

section \<open>What it returns\<close>

definition complete :: "AssumeRoleForPodIdentityOutput \<Rightarrow> bool" where
  "complete o' \<longleftrightarrow>
     (\<forall>c user. out_Credentials o' = Some c \<longrightarrow> out_AssumedRoleUser o' = Some user \<longrightarrow>
        sdk_Arn user \<noteq> None \<and> sdk_AssumeRoleId user \<noteq> None \<and> sdk_AccessKeyId c \<noteq> None \<and>
        sdk_SecretAccessKey c \<noteq> None \<and> sdk_SessionToken c \<noteq> None \<and> sdk_Expiration c \<noteq> None \<and>
        (\<exists>a. out_AssociationId o' = Some (Some a)))"

lemma service_no_panic:
  assumes "\<And>inp o'. call inp = Inr o' \<Longrightarrow> complete o'"
  shows "service_GetIamCredentials call arn req \<noteq> Panic"
  using assms
  by (auto simp: service_GetIamCredentials_def deref_def complete_def
      split: sum.splits option.splits) fastforce+

lemma service_error_transparent:
  assumes "call \<lparr>in_ClusterName = ClusterName req, in_Token = ServiceAccountToken req\<rparr> = Inl err"
  shows "service_GetIamCredentials call arn req =
    Ret (Inl (Wrapped [Txt ''unable to fetch credentials from EKS Auth: ''] err []))"
  using assms by (simp add: service_GetIamCredentials_def)

lemma service_success:
  assumes "service_GetIamCredentials call arn req = Ret (Inr (resp, a))"
  shows "\<exists>o' c user. call \<lparr>in_ClusterName = ClusterName req, in_Token = ServiceAccountToken req\<rparr> = Inr o' \<and>
    out_Credentials o' = Some c \<and> out_AssumedRoleUser o' = Some user \<and>
    sdk_AccessKeyId c = Some (AccessKeyId resp) \<and> sdk_SecretAccessKey c = Some (SecretAccessKey resp) \<and>
    sdk_SessionToken c = Some (Token resp) \<and> sdk_Expiration c = Some (CredsExpiration resp) \<and>
    (\<exists>r. sdk_Arn user = Some r \<and> arn r = Inr (AccountId resp)) \<and> out_AssociationId o' = Some (Some a)"
  using assms
  by (auto simp: service_GetIamCredentials_def deref_def split: sum.splits option.splits)

end
