(* ===== verification/Handler_Laws.thy ===== *)
theory Handler_Laws
  imports Server Retriever_Laws Eks_Auth
begin

text \<open>
  What the handlers and servers do with requests, and the composition of the credential handler with the
  retriever.
\<close>

section \<open>The credential handler\<close>

text \<open>The request the handler makes of an HTTP request.\<close>

definition creds_request :: "EksCredentialHandler \<Rightarrow> http_request \<Rightarrow> EksCredentialsRequest" where
  "creds_request h req =
     \<lparr>ServiceAccountToken = Authorization req, ClusterName = h_ClusterName h, RequestTargetHost = Host req\<rparr>"

lemma HandleRequest_unfold:
  "run_state (HandleRequest env h req) w =
     (let (got, w') = run_state (GetEksCredentials env h (creds_request h req)) w in
      case got of
        Panic \<Rightarrow> (Panic, w')
      | Ret (Inl err) \<Rightarrow>
          (Ret (http_Error (fst (HandleCredentialFetchingError err)) (snd (HandleCredentialFetchingError err))),
           w'\<lparr>trace := trace w' @ [Inc ''pod_identity_http_response'' [Itoa (snd (HandleCredentialFetchingError err))]]\<rparr>)
      | Ret (Inr creds) \<Rightarrow>
          (case response_Marshal creds of
             None \<Rightarrow> (Ret (http_Error [Txt ''Unable to serialize credentials''] StatusInternalServerError),
                      w'\<lparr>trace := trace w' @ [Inc ''pod_identity_http_response'' [Itoa StatusInternalServerError]]\<rparr>)
           | Some text \<Rightarrow> (Ret \<lparr>StatusCode = StatusOK, ContentType = ''application/json'', Body = JSON text\<rparr>,
                      w'\<lparr>trace := trace w' @ [Inc ''pod_identity_http_response'' [Itoa StatusOK]]\<rparr>)))"
  by (simp add: HandleRequest_def creds_request_def count_status_def Let_def case_prod_beta split: sum.split option.split go.split)

lemma GetEksCredentials_rejected:
  assumes "ValidateEksCredentialRequest (jwt env) (clock env (ticks w)) (RequestValidator h) r = Some err"
  shows "run_state (GetEksCredentials env h r) w = (Ret (Inl err), w\<lparr>ticks := Suc (ticks w)\<rparr>)"
  using assms by (simp add: GetEksCredentials_def time_Now_def)

section \<open>Status codes\<close>

lemma HandleCredentialFetchingError_Wrapped:
  "snd (HandleCredentialFetchingError (Wrapped pre e post)) = snd (HandleCredentialFetchingError e)"
  by (simp add: HandleCredentialFetchingError_def errors_As_Wrapped Let_def case_prod_beta split: option.split)

lemma HandleCredentialFetchingError_leaf:
  "HandleCredentialFetchingError (RequestValidationError c m) = (m, c)"
  "snd (HandleCredentialFetchingError (AccessDeniedError c m)) = c"
  "HandleCredentialFetchingError (Plain m) = (m, StatusInternalServerError)"
  by (simp_all add: HandleCredentialFetchingError_def errors_As_leaf)

lemma HandleCredentialFetchingError_HttpStatus:
  assumes "HttpStatus e = Some c"
  shows "snd (HandleCredentialFetchingError e) = c"
  using assms by (cases e) (simp_all add: HandleCredentialFetchingError_leaf)

section \<open>Digits\<close>

lemma digits_chars: "c \<in> set (digits n) \<Longrightarrow> 48 \<le> byte c \<and> byte c \<le> 57"
proof (induction n rule: digits.induct)
  case (1 n)
  have "byte (chr (48 + m)) = 48 + m" if "m < 10" for m
    using that by (simp add: byte_def chr_def)
  then show ?case using 1 by (subst (asm) digits.simps) (auto split: if_splits)
qed

lemma plain_port_digits: "plain_port (digits n)"
  using digits_chars[of _ n] by (force simp: plain_port_def byte_def)

section \<open>Probes\<close>

lemma probeAddrs_None:
  "probeAddrs NewRequest Do as = None \<longleftrightarrow>
     (\<forall>a \<in> set as. NewRequest (''http://'' @ a) = None \<and> Do (''http://'' @ a) = Inr StatusNotFound)"
  by (induction as) (auto split: option.split sum.split)

section \<open>The JSON form of a response\<close>

lemma utf8_ascii: "(\<And>c. c \<in> set s \<Longrightarrow> byte c < 128) \<Longrightarrow> valid_utf8 s"
  by (induction s) (simp_all add: valid_utf8.simps utf8_len_ascii)

lemma pad_ascii: "c \<in> set (pad w n) \<Longrightarrow> byte c < 128"
  using digits_chars[of c n] by (auto simp: pad_def Let_def byte_def)

lemma nano_fraction_ascii: "c \<in> set (nano_fraction n) \<Longrightarrow> byte c < 128"
  using pad_ascii[of c 9 n]
  by (auto simp: nano_fraction_def Let_def byte_def split: if_splits dest: set_dropWhileD)

lemma rfc3339nano_valid: "rfc3339nano t = Some s \<Longrightarrow> valid_utf8 s"
proof (rule utf8_ascii)
  fix c
  assume "rfc3339nano t = Some s" and "c \<in> set s"
  then have "(\<exists>w n. c \<in> set (pad w n)) \<or> (\<exists>n. c \<in> set (nano_fraction n)) \<or> c \<in> {CHR ''-'', CHR ''T'', CHR '':'', CHR ''Z''}"
    by (auto simp: rfc3339nano_def Let_def split: prod.splits if_splits)
  then show "byte c < 128" using pad_ascii nano_fraction_ascii by (auto simp: byte_def)
qed

definition valid_response :: "EksCredentialsResponse \<Rightarrow> bool" where
  "valid_response r \<longleftrightarrow>
     valid_utf8 (AccessKeyId r) \<and> valid_utf8 (SecretAccessKey r) \<and> valid_utf8 (Token r) \<and> valid_utf8 (AccountId r)"

lemma response_names_valid:
  "valid_utf8 ''AccessKeyId''" "valid_utf8 ''SecretAccessKey''" "valid_utf8 ''Token''" "valid_utf8 ''AccountId''"
  "valid_utf8 ''Expiration''"
  by (rule utf8_ascii, auto simp: byte_def)+

lemma response_roundtrip:
  assumes "response_Marshal r = Some text" and "valid_response r"
  shows "\<exists>j. json_of_response r = Some j \<and> parse_json text = Some j"
proof -
  obtain j where j: "json_of_response r = Some j" "text = print_json j"
    using assms(1) by (auto simp: response_Marshal_def)
  then obtain ex where ex: "rfc3339nano (CredsExpiration r) = Some ex"
    and obj: "j = JObject
      (omitempty ''AccessKeyId'' (AccessKeyId r) @ omitempty ''SecretAccessKey'' (SecretAccessKey r) @
       omitempty ''Token'' (Token r) @ omitempty ''AccountId'' (AccountId r) @ [(''Expiration'', JString ex)])"
    by (auto simp: json_of_response_def)
  have "plain_json j"
    using assms(2) rfc3339nano_valid[OF ex] by (auto simp: obj omitempty_def valid_response_def response_names_valid)
  moreover have "json_depth j \<le> maxNestingDepth" by (auto simp: obj omitempty_def maxNestingDepth_def)
  ultimately show ?thesis using j by (simp add: parse_print)
qed

end
