(* ===== verification/Agent_System.thy ===== *)
theory Agent_System
  imports Handler_Laws
begin

text \<open>
  The goroutines of one credential server together: HTTP requests, sweeps of the janitor and the goroutine that
  makes a token validator, in any number and any interleaving, over one retriever. A request or a sweep
  may begin at any time (there is one janitor, whose sweeps follow one another; the system allows
  more); the initialization is started by the \<open>go\<close> statement of \<open>tryInitTokenValidator\<close>. A panic that unwinds a request is
  recovered by \<open>net/http\<close>, which closes the connection; one that unwinds a sweep reaches the top of the janitor's goroutine and
  ends the process, so nothing steps in a system with a crashed sweep.
\<close>

section \<open>The handler as a thread\<close>

definition t_call_retriever ::
  "('reg, 'key, 'tv) renv \<Rightarrow> bool \<Rightarrow> EksCredentialsRequest \<Rightarrow> ('tv, (goerr + EksCredentialsResponse) go) rthread" where
  "t_call_retriever env cached request =
     (if cached then t_GetIamCredentials env (Some request)
      else
        tbind (t_emit (CallDelegate request)) (\<lambda>_. tbind (t_ask (\<lambda>n. delegate env n request)) (\<lambda>answer.
        Done (map_go (map_sum id fst) answer))))"

definition t_GetEksCredentials ::
  "('reg, 'key, 'tv) renv \<Rightarrow> EksCredentialHandler \<Rightarrow> EksCredentialsRequest
   \<Rightarrow> ('tv, (goerr + EksCredentialsResponse) go) rthread" where
  "t_GetEksCredentials env h request =
     tbind (t_Now env) (\<lambda>now.
     case ValidateEksCredentialRequest (jwt env) now (RequestValidator h) request of
       Some err \<Rightarrow> Done (Ret (Inl err))
     | None \<Rightarrow> t_call_retriever env (CredentialRetriever h \<noteq> None) request)"

definition t_count_status :: "int \<Rightarrow> ('tv, unit) rthread" where
  "t_count_status code = t_emit (Inc ''pod_identity_http_response'' [Itoa code])"

definition t_HandleRequest ::
  "('reg, 'key, 'tv) renv \<Rightarrow> EksCredentialHandler \<Rightarrow> http_request \<Rightarrow> ('tv, http_response go) rthread" where
  "t_HandleRequest env h req =
     tbind (t_GetEksCredentials env h (creds_request h req)) (\<lambda>got.
     case got of
       Panic \<Rightarrow> Done Panic
     | Ret (Inl err) \<Rightarrow>
         let (m, code) = HandleCredentialFetchingError err in
         tbind (t_count_status code) (\<lambda>_. Done (Ret (http_Error m code)))
     | Ret (Inr creds) \<Rightarrow>
         (case response_Marshal creds of
            None \<Rightarrow>
              tbind (t_count_status StatusInternalServerError) (\<lambda>_.
              Done (Ret (http_Error [Txt ''Unable to serialize credentials''] StatusInternalServerError)))
          | Some text \<Rightarrow>
              tbind (t_count_status StatusOK) (\<lambda>_.
              Done (Ret \<lparr>StatusCode = StatusOK, ContentType = ''application/json'', Body = JSON text\<rparr>))))"

lemma denotes_call_retriever [denotes]:
  "interp (others env) (t_call_retriever env cached req) = call_retriever env cached req"
  by (simp add: denotes t_call_retriever_def call_retriever_def)

lemma denotes_GetEksCredentials [denotes]:
  "interp (others env) (t_GetEksCredentials env h req) = GetEksCredentials env h req"
  by (simp add: denotes interp_splits t_GetEksCredentials_def GetEksCredentials_def cong: option.case_cong)

lemma denotes_HandleRequest [denotes]:
  "interp (others env) (t_HandleRequest env h req) = HandleRequest env h req"
  by (simp add: denotes interp_splits t_HandleRequest_def HandleRequest_def creds_request_def t_count_status_def
      count_status_def Let_def cong: option.case_cong sum.case_cong go.case_cong)

section \<open>Jobs\<close>

datatype agent_job =
  HttpRequest http_request
| JanitorSweep "(string \<rightharpoonup> cacheEntry Item) \<Rightarrow> string list" "(string \<rightharpoonup> cacheEntry Item) \<Rightarrow> string list"
| InitTokenValidator

datatype agent_result = Answered http_response | Aborted | Ended | Crashed

primrec agent_code ::
  "('reg, 'key, 'tv) renv \<Rightarrow> EksCredentialHandler \<Rightarrow> (nat \<Rightarrow> goerr + 'tv) \<Rightarrow> agent_job
   \<Rightarrow> ('tv, agent_result) rthread" where
  "agent_code env h new (HttpRequest req) = tbind (t_HandleRequest env h req) (\<lambda>r. Done (case r of Panic \<Rightarrow> Aborted | Ret a \<Rightarrow> Answered a))"
| "agent_code env h new (JanitorSweep ord1 ord2) =
     tbind (t_sweep env ord1 ord2) (\<lambda>r. Done (case r of Panic \<Rightarrow> Crashed | Ret _ \<Rightarrow> Ended))"
| "agent_code env h new InitTokenValidator = tbind (t_tvInit new) (\<lambda>_. Done Ended)"

definition agent_arrives :: "agent_job \<Rightarrow> bool" where
  "agent_arrives j \<longleftrightarrow> j \<noteq> InitTokenValidator"

definition agent_starts :: "event \<Rightarrow> agent_job option" where
  "agent_starts ev = (case ev of StartTokenValidatorInit \<Rightarrow> Some InitTokenValidator | _ \<Rightarrow> None)"

type_synonym 'tv agent_system = "(agent_job, 'tv cachedCredentialRetriever, event, agent_result) system"

definition crashed :: "'tv agent_system \<Rightarrow> bool" where
  "crashed S \<longleftrightarrow> (\<exists>i g. goroutines S i = Some g \<and> rest g = Done Crashed)"

abbreviation some_goroutine_steps ::
  "('reg, 'key, 'tv) renv \<Rightarrow> EksCredentialHandler \<Rightarrow> (nat \<Rightarrow> goerr + 'tv) \<Rightarrow> 'tv agent_system \<Rightarrow> 'tv agent_system \<Rightarrow> bool" where
  "some_goroutine_steps env h new \<equiv> system_step (agent_code env h new) agent_arrives agent_starts"

definition goroutine_step ::
  "('reg, 'key, 'tv) renv \<Rightarrow> EksCredentialHandler \<Rightarrow> (nat \<Rightarrow> goerr + 'tv) \<Rightarrow> 'tv agent_system \<Rightarrow> 'tv agent_system \<Rightarrow> bool" where
  "goroutine_step env h new S T \<longleftrightarrow> \<not> crashed S \<and> some_goroutine_steps env h new S T"

lemma goroutine_steps: "(goroutine_step env h new)\<^sup>*\<^sup>* S T \<Longrightarrow> (some_goroutine_steps env h new)\<^sup>*\<^sup>* S T"
  by (induction rule: rtranclp_induct) (auto simp: goroutine_step_def intro: rtranclp.rtrancl_into_rtrancl)

text \<open>A crash is for good, so a state that is not crashed has been reached without one.\<close>

lemma crashed_stays: "some_goroutine_steps env h new S T \<Longrightarrow> crashed S \<Longrightarrow> crashed T"
  unfolding crashed_def by (blast dest: ended_stays)

lemma uncrashed_steps:
  assumes "(some_goroutine_steps env h new)\<^sup>*\<^sup>* S T" and "\<not> crashed T"
  shows "(goroutine_step env h new)\<^sup>*\<^sup>* S T"
  using assms
proof (induction rule: rtranclp_induct)
  case (step T U)
  then have "\<not> crashed T" using crashed_stays by blast
  then show ?case using step by (auto simp: goroutine_step_def intro: rtranclp.rtrancl_into_rtrancl)
qed simp

lemma first_crash:
  assumes "(some_goroutine_steps env h new)\<^sup>*\<^sup>* S T" and "crashed T" and "\<not> crashed S"
  shows "\<exists>U. (goroutine_step env h new)\<^sup>*\<^sup>* S U \<and> crashed U"
  using assms
proof (induction rule: rtranclp_induct)
  case (step T U)
  show ?case
  proof (cases "crashed T")
    case False
    then have "(goroutine_step env h new)\<^sup>*\<^sup>* S U"
      using uncrashed_steps[OF step.hyps(1)] step.hyps(2) by (auto simp: goroutine_step_def intro: rtranclp.rtrancl_into_rtrancl)
    then show ?thesis using step.prems(1) by blast
  qed (use step in blast)
qed simp

lemma agent_starts_iff [simp]:
  "agent_starts ev = None \<longleftrightarrow> ev \<noteq> StartTokenValidatorInit"
  "agent_starts ev = Some j \<longleftrightarrow> ev = StartTokenValidatorInit \<and> j = InitTokenValidator"
  by (auto simp: agent_starts_def split: event.split)

section \<open>What the jobs guarantee\<close>

text \<open>
  What an answer with credentials says: the request passed validation at a reading of the clock made during the
  request, and the credentials are servable; without a cache, the delegate returned them for this very request.
\<close>

definition supplied ::
  "('reg, 'key, 'tv) renv \<Rightarrow> EksCredentialHandler \<Rightarrow> http_request \<Rightarrow> nat \<Rightarrow> EksCredentialsResponse \<Rightarrow> bool" where
  "supplied env h req n creds \<longleftrightarrow>
     (if CredentialRetriever h = None then \<exists>k a. delegate env k (creds_request h req) = Ret (Inr (creds, a))
      else \<exists>uid. names_pod env (Authorization req) uid \<and> servable env n uid (creds_request h req) creds)"

definition authorised ::
  "('reg, 'key, 'tv) renv \<Rightarrow> EksCredentialHandler \<Rightarrow> http_request \<Rightarrow> nat \<Rightarrow> EksCredentialsResponse \<Rightarrow> bool" where
  "authorised env h req n creds \<longleftrightarrow>
     (\<exists>k \<ge> n. ValidateEksCredentialRequest (jwt env) (clock env k) (RequestValidator h) (creds_request h req) = None) \<and>
     supplied env h req n creds"

lemma creds_request_fields [simp]:
  "ServiceAccountToken (creds_request h req) = Authorization req"
  "RequestTargetHost (creds_request h req) = Host req"
  by (simp_all add: creds_request_def)

lemma keeps_call_retriever:
  "keeps env n (t_call_retriever env (CredentialRetriever h \<noteq> None) (creds_request h req))
    (\<lambda>r. (r = Panic \<longrightarrow> panics_on env n (creds_request h req)) \<and>
       (\<forall>creds. r = Ret (Inr creds) \<longrightarrow> supplied env h req n creds))"
proof (cases "CredentialRetriever h")
  case None
  let ?answer = "\<lambda>k. map_go (map_sum id fst) (delegate env k (creds_request h req))"
  have "supplied env h req n creds" if "?answer k = Ret (Inr creds)" for k creds
  proof (cases "delegate env k (creds_request h req)")
    case (Ret r)
    then show ?thesis using that None by (cases r) (force simp: supplied_def)+
  qed (use that in simp)
  moreover have "panics_on env n (creds_request h req)" if "n \<le> k" "?answer k = Panic" for k
    using that by (cases "delegate env k (creds_request h req)") (auto simp: panics_on_def)
  ultimately show ?thesis
    unfolding None t_call_retriever_def
    by (simp, intro g_bind[OF keeps_emit] g_bind[OF g_ask[where Q = "\<lambda>r. \<exists>k \<ge> n. r = delegate env k (creds_request h req)"]])
      auto
next
  case (Some r)
  then show ?thesis
    by (auto simp: t_call_retriever_def supplied_def intro: g_weaken[OF keeps_GetIamCredentials])
qed

lemma keeps_HandleRequest:
  "keeps env n (t_HandleRequest env h req)
    (\<lambda>r. (r = Panic \<longrightarrow> panics_on env n (creds_request h req)) \<and>
       (\<forall>a text. r = Ret a \<longrightarrow> Body a = JSON text \<longrightarrow>
          StatusCode a = StatusOK \<and> (\<exists>creds. response_Marshal creds = Some text \<and> authorised env h req n creds)))"
proof -
  have "keeps env n (t_GetEksCredentials env h (creds_request h req))
      (\<lambda>r. (r = Panic \<longrightarrow> panics_on env n (creds_request h req)) \<and>
        (\<forall>creds. r = Ret (Inr creds) \<longrightarrow> authorised env h req n creds))"
    unfolding t_GetEksCredentials_def
    by (rule g_bind[OF keeps_now])
      (auto intro!: g_weaken[OF keeps_call_retriever[unfolded not_None_eq]] simp: authorised_def split: option.split)
  then show ?thesis
    unfolding t_HandleRequest_def t_count_status_def
    by (rule g_bind)
      (auto intro!: g_bind[OF keeps_emit] simp: http_Error_def case_prod_beta Let_def split: sum.split option.split go.split)
qed

definition agent_promise ::
  "('reg, 'key, 'tv) renv \<Rightarrow> EksCredentialHandler \<Rightarrow> agent_job \<Rightarrow> nat \<Rightarrow> agent_result \<Rightarrow> bool" where
  "agent_promise env h j n x \<longleftrightarrow>
     (\<forall>req r text. j = HttpRequest req \<longrightarrow> x = Answered r \<longrightarrow> Body r = JSON text \<longrightarrow>
        StatusCode r = StatusOK \<and> (\<exists>creds. response_Marshal creds = Some text \<and> authorised env h req n creds)) \<and>
     (case j of
        HttpRequest req \<Rightarrow> (\<exists>r. x = Answered r) \<or> x = Aborted \<and> panics_on env n (creds_request h req)
      | JanitorSweep _ _ \<Rightarrow> x = Ended \<or> x = Crashed \<and> renewal_panics env n
      | InitTokenValidator \<Rightarrow> x = Ended)"

lemma agent_code_keeps: "keeps env n (agent_code env h new j) (agent_promise env h j n)"
proof (cases j)
  case (HttpRequest req)
  then show ?thesis by (auto simp: agent_promise_def intro!: g_bind[OF keeps_HandleRequest] split: go.split)
next
  case (JanitorSweep ord1 ord2)
  then show ?thesis by (auto simp: agent_promise_def intro!: g_bind[OF keeps_sweep] split: go.split)
next
  case InitTokenValidator
  then show ?thesis by (auto simp: agent_promise_def intro!: g_bind[OF keeps_tvInit])
qed

lemma agent_results:
  assumes "(some_goroutine_steps env h new)\<^sup>*\<^sup>* (idle_system (newCachedCredentialRetriever opts)) S"
  shows "(retriever_step env)\<^sup>*\<^sup>* (newCachedCredentialRetriever opts) (mem S)" and "retriever_inv env (mem S)"
    and "goroutines S i = Some g \<Longrightarrow> rest g = Done x \<Longrightarrow> agent_promise env h (job g) (started g) x"
  using rp.system_results[OF agent_code_keeps assms retriever_inv_new] by blast+

lemma no_crash:
  assumes "(some_goroutine_steps env h new)\<^sup>*\<^sup>* (idle_system (newCachedCredentialRetriever opts)) S" and "\<not> delegate_panics env"
  shows "\<not> crashed S"
proof
  assume "crashed S"
  then obtain i g where g: "goroutines S i = Some g" "rest g = Done Crashed" unfolding crashed_def by blast
  from agent_results(3)[OF assms(1) g] have "renewal_panics env (started g)"
    by (cases "job g") (simp_all add: agent_promise_def)
  then show False using assms(2) panics_delegate(2) by blast
qed

section \<open>One initialization at a time\<close>

abbreviation quiet :: "('tv, 'a) rthread \<Rightarrow> bool" where
  "quiet \<equiv> released tvInitInFlight (\<lambda>_. False) agent_starts False"

lemma quiet_bind: "quiet t \<Longrightarrow> (\<And>x. quiet (k x)) \<Longrightarrow> quiet (tbind t k)"
  by (rule h_bind)

lemma quiet_primitives:
  "quiet (t_Now env)" "quiet (t_read f)" "quiet (t_ask g)" "quiet (t_call_back cbs)" "quiet (t_inc r)"
  "ev \<noteq> StartTokenValidatorInit \<Longrightarrow> quiet (t_emit ev)"
  by (auto simp: t_Now_def t_read_def t_inc_def intro!: h_ask h_section h_emit)
    (induction cbs; auto simp: t_eviction_def intro!: quiet_bind h_emit split: callback.split)

lemma quiet_section: "(\<And>s. tvInitInFlight (snd (f s)) = tvInitInFlight s) \<Longrightarrow> quiet (t_section f)"
  by (rule h_section) simp_all

lemma quiet_tryInit: "quiet t_tryInit"
  unfolding t_tryInit_def
  by (rule h_bind[where c = "\<lambda>swapped. swapped"])
    (auto simp: t_section_def t_emit_def)

lemma quiet_programs:
  "quiet (t_cache_Get env k)" "quiet (t_cache_Delete k)" "quiet (t_cache_Set env k v r x)"
  "quiet (t_cache_Modify env k f)" "quiet (t_active_Get env tok)" "quiet (t_active_Add env tok)"
  "quiet (t_active_Delete tok)" "quiet (t_ttl env e)" "quiet (t_validator env tv req)" "quiet (t_fetch env req)"
  unfolding t_cache_Get_def t_cache_Delete_def t_cache_Set_def t_cache_Modify_def t_active_Get_def t_active_Add_def
    t_active_Delete_def t_ttl_def t_validator_def t_fetch_def Let_def
  by (auto intro!: quiet_bind quiet_primitives quiet_section simp: case_prod_beta)

lemma quiet_tryServing: "quiet (t_tryServing env podUID req)"
  unfolding t_tryServing_def
  by (auto intro!: quiet_bind quiet_programs quiet_primitives quiet_tryInit split: option.split)

lemma quiet_callDelegate: "quiet (t_callDelegate env req)"
  unfolding t_callDelegate_def
  by (auto intro!: quiet_bind quiet_programs quiet_primitives split: sum.split go.split)

lemma quiet_loop: "quiet (t_loop env podUID req left)"
  by (induction left)
    (auto intro!: quiet_bind quiet_tryServing quiet_programs quiet_primitives simp: t_wait_def split: option.split)

lemma quiet_GetIamCredentials: "quiet (t_GetIamCredentials env request)"
  unfolding t_GetIamCredentials_def t_miss_def
  by (auto intro!: quiet_bind quiet_loop quiet_callDelegate quiet_programs quiet_primitives
      simp del: t_loop.simps split: option.split sum.split)

lemma quiet_renewal: "quiet (t_renewal env k e)"
  unfolding t_renewal_def t_keep_def Let_def
  by (auto intro!: quiet_bind quiet_callDelegate quiet_programs quiet_primitives
      simp: case_prod_beta split: option.split sum.split go.split)

lemma quiet_refresh: "quiet (t_refresh env cbs)"
  by (induction cbs) (auto intro!: quiet_bind quiet_renewal split: callback.split go.split)

lemma quiet_jobs: "agent_arrives j \<Longrightarrow> quiet (agent_code env h new j)"
  by (cases j)
    (auto simp: agent_arrives_def t_HandleRequest_def t_GetEksCredentials_def t_call_retriever_def t_count_status_def
      t_sweep_def evict_expired_def Let_def case_prod_beta
      intro!: quiet_bind quiet_GetIamCredentials quiet_refresh quiet_section quiet_primitives
      split: option.split sum.split go.split)

lemma flag_can_be_up: "Ex tvInitInFlight"
  by (rule exI[of _ "undefined\<lparr>tvInitInFlight := True\<rparr>"]) simp

lemma init_holds:
  "released tvInitInFlight (\<lambda>_. False) agent_starts True (agent_code env h new InitTokenValidator)"
  "always (needs_flag tvInitInFlight (\<lambda>_. False) agent_starts) (agent_code env h new InitTokenValidator)"
proof -
  show "released tvInitInFlight (\<lambda>_. False) agent_starts True (agent_code env h new InitTokenValidator)"
    by (auto simp: t_tvInit_def t_ask_def t_section_def split: sum.split)
  show "always (needs_flag tvInitInFlight (\<lambda>_. False) agent_starts) (agent_code env h new InitTokenValidator)"
    by (auto simp: t_tvInit_def t_ask_def t_section_def needs_flag_def flag_can_be_up split: sum.split)
qed

lemma agent_disciplined: "disciplined (agent_code env h new) agent_arrives tvInitInFlight (\<lambda>_. False) agent_starts"
  unfolding disciplined_def using quiet_jobs init_holds(1) by fastforce

lemma agent_initializations:
  assumes "(goroutine_step env h new)\<^sup>*\<^sup>* (idle_system s) S" and "\<not> tvInitInFlight s"
  shows "\<exists>own. (tvInitInFlight (mem S) \<longleftrightarrow> own \<noteq> None) \<and>
    (\<forall>i g. goroutines S i = Some g \<longrightarrow> job g = InitTokenValidator \<longrightarrow> (\<nexists>x. rest g = Done x) \<longrightarrow> own = Some i)"
  using goroutine_steps[OF assms(1)] assms(2)
  by (intro one_at_a_time[OF agent_disciplined, where B = "\<lambda>j. j = InitTokenValidator"])
    (auto simp: init_holds(2) simp del: agent_code.simps)

section \<open>A request on its own\<close>

lemma request_alone:
  assumes "goroutines S i = None" and "finite (dom (goroutines S))" and "others env = alone"
    and "run_state (HandleRequest env h req) \<lparr>shared = mem S, ticks = time S, trace = []\<rparr> = (Ret r, w')"
  shows "\<exists>S'. (some_goroutine_steps env h new)\<^sup>*\<^sup>* S S' \<and>
    goroutines S' i = Some \<lparr>job = HttpRequest req, started = time S, rest = Done (Answered r)\<rparr> \<and>
    mem S' = shared w' \<and> time S' = ticks w' \<and> finite (dom (goroutines S'))"
  using assms denotes_HandleRequest[of env h req]
  by (intro arrives_alone) (simp_all add: agent_arrives_def)

lemma sweep_alone:
  assumes "goroutines S i = None" and "finite (dom (goroutines S))" and "others env = alone"
    and "run_state (janitor_sweep env ord1 ord2) \<lparr>shared = mem S, ticks = time S, trace = []\<rparr> = (Panic, w')"
  shows "\<exists>S'. (some_goroutine_steps env h new)\<^sup>*\<^sup>* S S' \<and> crashed S'"
proof -
  have "\<exists>S'. (some_goroutine_steps env h new)\<^sup>*\<^sup>* S S' \<and>
    goroutines S' i = Some \<lparr>job = JanitorSweep ord1 ord2, started = time S, rest = Done Crashed\<rparr> \<and>
    mem S' = shared w' \<and> time S' = ticks w' \<and> finite (dom (goroutines S'))"
    using assms denotes_sweep[of env ord1 ord2]
    by (intro arrives_alone) (simp_all add: agent_arrives_def)
  then show ?thesis unfolding crashed_def by fastforce
qed

end
