(* ===== verification/Validator_Threads.thy ===== *)
theory Validator_Threads
  imports Token_Validator Interleaving
begin

text \<open>
  The programs of the token validator and of the API server client as threads, statement by
  statement, with the lemmas that they denote the programs of \<open>Token_Validator\<close>.
\<close>

named_theorems vdenotes \<open>the program a thread of the validator stands for\<close>

type_synonym 'a vthread = "(TokenValidator, request_event, 'a) thread"

section \<open>The API server client\<close>

definition t_get_raw :: "('reg, 'ver) venv \<Rightarrow> string \<Rightarrow> (goerr + string) vthread" where
  "t_get_raw env endpoint =
     tbind (t_emit (Requested endpoint)) (\<lambda>_. t_ask (\<lambda>n. DoRaw env n endpoint))"

definition t_checkK8sVersion :: "('reg, 'ver) venv \<Rightarrow> goerr option vthread" where
  "t_checkK8sVersion env = tbind (t_get_raw env versionEndpoint) (\<lambda>raw. Done (version_error env raw))"

definition t_fetchPublicKeys :: "('reg, 'ver) venv \<Rightarrow> (goerr + JWKSet) vthread" where
  "t_fetchPublicKeys env =
     tbind (t_checkK8sVersion env) (\<lambda>verr.
     case verr of
       Some err \<Rightarrow> Done (Inl err)
     | None \<Rightarrow> tbind (t_get_raw env jwksEndpoint) (\<lambda>raw. Done (decode_jwks raw)))"

definition t_load_disk :: "('reg, 'ver) venv \<Rightarrow> path \<Rightarrow> (goerr + JWKSet) vthread" where
  "t_load_disk env cachePath =
     (if cachePath = '''' then Done (Inl (Plain [Txt ''no cache path configured'']))
      else
        tbind (t_ask (os_read env)) (\<lambda>err.
        t_section (\<lambda>s. (readJWKCache err cachePath (disk s), s))))"

definition t_persist :: "('reg, 'ver) venv \<Rightarrow> path \<Rightarrow> JWKSet \<Rightarrow> unit vthread" where
  "t_persist env cachePath jwks =
     (if cachePath = '''' then Done ()
      else
        tbind (t_ask (os_write env)) (\<lambda>os.
        t_section (\<lambda>s. ((), s\<lparr>disk := final_fs (disk s) (snd (writeJWKCache os cachePath jwks (disk s)))\<rparr>))))"

definition t_fetch_fallback :: "('reg, 'ver) venv \<Rightarrow> path \<Rightarrow> (goerr + JWKSet) vthread" where
  "t_fetch_fallback env cachePath =
     tbind (t_fetchPublicKeys env) (\<lambda>fetched.
     case fetched of
       Inl err \<Rightarrow>
         if errors_Is err ErrUnsupportedK8sVersion then Done (Inl err)
         else
           tbind (t_load_disk env cachePath) (\<lambda>cached.
           Done (case cached of Inl diskErr \<Rightarrow> Inl err | Inr jwks \<Rightarrow> Inr jwks))
     | Inr jwks \<Rightarrow> tbind (t_persist env cachePath jwks) (\<lambda>_. Done (Inr jwks)))"

section \<open>The validator\<close>

definition t_cached_key :: "string \<Rightarrow> cachedKey option vthread" where
  "t_cached_key kid = t_section (\<lambda>s. (tv_keys s kid, s))"

definition t_loadJWKSet :: "JWKSet \<Rightarrow> unit vthread" where
  "t_loadJWKSet jwks = t_section (\<lambda>s. ((), s\<lparr>tv_keys := keys_of jwks\<rparr>))"

definition t_refreshKeys :: "('reg, 'ver) venv \<Rightarrow> goerr option vthread" where
  "t_refreshKeys env =
     tbind (t_section (\<lambda>s. if refreshInFlight s then (False, s) else (True, s\<lparr>refreshInFlight := True\<rparr>))) (\<lambda>swapped.
     if \<not> swapped then Done (Some (Plain [Txt ''key refresh already in progress'']))
     else
       tbind (t_section (\<lambda>s. (jwkCachePath s, s))) (\<lambda>cachePath.
       tbind (t_fetch_fallback env cachePath) (\<lambda>fetched.
       tbind (case fetched of
                Inl err \<Rightarrow>
                  tbind (if errors_Is err ErrUnsupportedK8sVersion
                         then t_section (\<lambda>s. ((), s\<lparr>tv_keys := Map.empty\<rparr>)) else Done ())
                    (\<lambda>_. Done (Some err))
              | Inr jwks \<Rightarrow> tbind (t_loadJWKSet jwks) (\<lambda>_. Done None)) (\<lambda>result.
       tbind (t_section (\<lambda>s. ((), s\<lparr>refreshInFlight := False\<rparr>))) (\<lambda>_. Done result)))))"

definition t_RefreshKeys :: "('reg, 'ver) venv \<Rightarrow> string \<Rightarrow> goerr option vthread" where
  "t_RefreshKeys env token =
     (case ParseUnverified (vjwt env) token of
        Inl err \<Rightarrow> Done (Some (Wrapped [Txt ''failed to parse token: ''] err []))
      | Inr parsed \<Rightarrow>
          (case get_string (jwt_Header parsed) ''kid'' of
             None \<Rightarrow> Done (Some (Plain [Txt ''kid not found in JWT header'']))
           | Some kid \<Rightarrow>
               tbind (t_cached_key kid) (\<lambda>found. if found = None then t_refreshKeys env else Done None)))"

definition t_validateSignature ::
  "('reg, 'ver) venv \<Rightarrow> string \<Rightarrow> jwt_token \<Rightarrow> goerr option go vthread" where
  "t_validateSignature env tokenString parsed =
     (case get_string (jwt_Header parsed) ''kid'' of
        None \<Rightarrow> Done (Ret (Some (crypto_error [Txt ''kid not found in JWT header''])))
      | Some kid \<Rightarrow>
          tbind (t_cached_key kid) (\<lambda>found.
          case found of
            Some cached \<Rightarrow> Done (check_signature env tokenString cached)
          | None \<Rightarrow>
              tbind (t_refreshKeys env) (\<lambda>refreshed.
              case refreshed of
                Some err \<Rightarrow>
                  Done (Ret (Some (Wrapped
                    [Txt ''cryptographic validation failed: key refresh failed: ''] err [])))
              | None \<Rightarrow>
                  tbind (t_cached_key kid) (\<lambda>again.
                  case again of
                    None \<Rightarrow>
                      Done (Ret (Some (crypto_error
                        [Txt ''no matching key found for kid: '', Txt kid])))
                  | Some cached \<Rightarrow> Done (check_signature env tokenString cached)))))"

definition t_ValidateToken :: "('reg, 'ver) venv \<Rightarrow> EksCredentialsRequest \<Rightarrow> goerr option vthread" where
  "t_ValidateToken env req =
     (if ServiceAccountToken req = ''''
      then Done (Some (NewRequestValidationError [Txt ''Service account token cannot be empty'']))
      else
        tbind (t_section (\<lambda>s. (jwksSource s, s))) (\<lambda>source.
        if \<not> source
        then Done (Some (Plain [Txt ''jwksSource is nil, skipping local validation'']))
        else
          tbind (t_checkK8sVersion env) (\<lambda>verr.
          case verr of
            Some err \<Rightarrow>
              Done (Some (Wrapped [Txt ''version check failed, skipping local validation: ''] err []))
          | None \<Rightarrow>
              (case ParseUnverified (vjwt env) (ServiceAccountToken req) of
                 Inl err \<Rightarrow>
                   Done (Some (NewRequestValidationError
                     (Txt ''Service account token cannot be parsed: '' # Error err)))
               | Inr parsedToken \<Rightarrow>
                   tbind (t_section (\<lambda>s. (EndpointOverridden s, s))) (\<lambda>overridden.
                   case ValidateClaims overridden parsedToken of
                     Some err \<Rightarrow>
                       Done (Some (NewRequestValidationError
                         (Txt ''Service account token failed claim validations: '' # Error err)))
                   | None \<Rightarrow>
                       tbind (t_validateSignature env (ServiceAccountToken req) parsedToken)
                         (\<lambda>r. Done (signature_result r)))))))"

section \<open>The threads are the programs\<close>

lemma vdenotes_client [vdenotes]:
  "interp (vothers env) (t_get_raw env e) = get_raw env e"
  "interp (vothers env) (t_checkK8sVersion env) = checkK8sVersion env"
  "interp (vothers env) (t_fetchPublicKeys env) = fetchPublicKeys env"
  "interp (vothers env) (t_load_disk env p) = loadJWKCacheFromDisk env p"
  "interp (vothers env) (t_persist env p jwks) = persistJWKCacheToDisk env p jwks"
  "interp (vothers env) (t_fetch_fallback env p) = fetchPublicKeysWithFallback env p"
  by (simp_all add: t_get_raw_def get_raw_def t_checkK8sVersion_def checkK8sVersion_def t_fetchPublicKeys_def
      fetchPublicKeys_def t_load_disk_def loadJWKCacheFromDisk_def t_persist_def persistJWKCacheToDisk_def
      t_fetch_fallback_def fetchPublicKeysWithFallback_def interp_splits cong: if_cong option.case_cong sum.case_cong)

lemma vdenotes_refresh [vdenotes]:
  "interp (vothers env) (t_cached_key kid) = cached_key env kid"
  "interp (vothers env) (t_loadJWKSet jwks) = loadJWKSet env jwks"
  "interp (vothers env) (t_refreshKeys env) = refreshKeys env"
  by (simp_all add: vdenotes t_cached_key_def cached_key_def t_loadJWKSet_def loadJWKSet_def t_refreshKeys_def
      refreshKeys_def interp_splits cong: if_cong sum.case_cong)

lemma vdenotes_validator [vdenotes]:
  "interp (vothers env) (t_RefreshKeys env tok) = RefreshKeys env tok"
  "interp (vothers env) (t_validateSignature env tok parsed) = validateSignature env tok parsed"
  "interp (vothers env) (t_ValidateToken env req) = ValidateToken env req"
  by (simp_all add: vdenotes t_RefreshKeys_def RefreshKeys_def t_validateSignature_def validateSignature_def
      t_ValidateToken_def ValidateToken_def interp_splits cong: if_cong option.case_cong sum.case_cong)

end
