(* ===== verification/Validator_Laws.thy ===== *)
theory Validator_Laws
  imports Validator_Threads
begin

text \<open>
  Where the keys of the token validator come from, the protocol its goroutines follow, and what
  it means that a token was accepted.
\<close>

section \<open>Provenance of keys\<close>

text \<open>
  \<open>d0\<close> is what the cache file held before the agent started. A key set is known when the API server
  sent it or when it was read from that file, which holds \<open>d0\<close> or a key set the API server sent.
\<close>

definition fetched_set :: "('reg, 'ver) venv \<Rightarrow> JWKSet \<Rightarrow> bool" where
  "fetched_set env jwks \<longleftrightarrow> (\<exists>n raw. DoRaw env n jwksEndpoint = Inr raw \<and> json_Unmarshal raw = Inr jwks)"

definition known_file :: "('reg, 'ver) venv \<Rightarrow> string option \<Rightarrow> string \<Rightarrow> bool" where
  "known_file env d0 data \<longleftrightarrow> d0 = Some data \<or> (\<exists>jwks. fetched_set env jwks \<and> data = json_Marshal jwks)"

definition known_set :: "('reg, 'ver) venv \<Rightarrow> string option \<Rightarrow> JWKSet \<Rightarrow> bool" where
  "known_set env d0 jwks \<longleftrightarrow>
     fetched_set env jwks \<or> (\<exists>data. known_file env d0 data \<and> json_Unmarshal data = Inr jwks)"

definition trusted_key :: "('reg, 'ver) venv \<Rightarrow> string option \<Rightarrow> string \<Rightarrow> cachedKey \<Rightarrow> bool" where
  "trusted_key env d0 kid ck \<longleftrightarrow>
     (\<exists>jwks ks k. known_set env d0 jwks \<and> jwk_Keys jwks = Some ks \<and> k \<in> set ks \<and> jwk_Kid k = kid \<and>
        jwk_Alg k = ck_alg ck \<and> parseJWK k = Inr (ck_key ck))"

lemma load_keys_origin:
  "load_keys ks m kid = Some ck \<Longrightarrow>
     m kid = Some ck \<or> (\<exists>k \<in> set ks. jwk_Kid k = kid \<and> jwk_Alg k = ck_alg ck \<and> parseJWK k = Inr (ck_key ck))"
proof (induction ks arbitrary: m)
  case Nil
  then show ?case by simp
next
  case (Cons k ks)
  show ?case
  proof (cases "m (jwk_Kid k) \<noteq> None \<or> (\<exists>e. parseJWK k = Inl e)")
    case True
    then show ?thesis using Cons by (auto split: sum.splits)
  next
    case False
    then obtain pk where pk: "parseJWK k = Inr pk" by (cases "parseJWK k") auto
    have "load_keys ks (m(jwk_Kid k \<mapsto> \<lparr>ck_key = pk, ck_alg = jwk_Alg k\<rparr>)) kid = Some ck"
      using False Cons.prems pk by simp
    from Cons.IH[OF this] show ?thesis using pk by (cases "kid = jwk_Kid k") auto
  qed
qed

text \<open>The loaded key of an id is the first of the set with that id that parses.\<close>

lemma load_keys_first:
  "load_keys ks m kid =
     (case m kid of
        Some ck \<Rightarrow> Some ck
      | None \<Rightarrow>
          map_option (\<lambda>k. \<lparr>ck_key = projr (parseJWK k), ck_alg = jwk_Alg k\<rparr>)
            (find (\<lambda>k. jwk_Kid k = kid \<and> \<not> isl (parseJWK k)) ks))"
proof (induction ks arbitrary: m)
  case Nil
  then show ?case by (simp split: option.split)
next
  case (Cons k ks)
  then show ?case
    by (cases "parseJWK k") (auto split: option.split)
qed

lemma keys_of_trusted: "known_set env d0 jwks \<Longrightarrow> keys_of jwks kid = Some ck \<Longrightarrow> trusted_key env d0 kid ck"
  using load_keys_origin[of _ Map.empty kid ck] unfolding keys_of_def trusted_key_def
  by (cases "jwk_Keys jwks") fastforce+

section \<open>The protocol\<close>

inductive tv_step :: "('reg, 'ver) venv \<Rightarrow> string option \<Rightarrow> TokenValidator \<Rightarrow> TokenValidator \<Rightarrow> bool"
  for env d0 where
  step_load: "known_set env d0 jwks \<Longrightarrow> tv_step env d0 s (s\<lparr>tv_keys := keys_of jwks\<rparr>)"
| step_clear: "tv_step env d0 s (s\<lparr>tv_keys := Map.empty\<rparr>)"
| step_flag: "tv_step env d0 s (s\<lparr>refreshInFlight := b\<rparr>)"
| step_persist: "fetched_set env jwks \<Longrightarrow> (\<And>tmp. CreateTemp os = Inr tmp \<Longrightarrow> tmp \<noteq> jwkCachePath s) \<Longrightarrow>
    tv_step env d0 s
      (s\<lparr>disk := final_fs (disk s) (snd (writeJWKCache os (jwkCachePath s) jwks (disk s)))\<rparr>)"

definition tv_inv ::
  "('reg, 'ver) venv \<Rightarrow> string option \<Rightarrow> path \<Rightarrow> bool \<Rightarrow> TokenValidator \<Rightarrow> bool" where
  "tv_inv env d0 p ov s \<longleftrightarrow>
     (\<forall>kid ck. tv_keys s kid = Some ck \<longrightarrow> trusted_key env d0 kid ck) \<and>
     (\<forall>data. disk s p = Some data \<longrightarrow> known_file env d0 data) \<and>
     jwkCachePath s = p \<and> EndpointOverridden s = ov"

lemma final_fs_cases: "final_fs f states = f \<or> final_fs f states \<in> set states"
  by (cases states rule: rev_cases) (auto simp: final_fs_def)

lemma tv_inv_step:
  assumes "tv_step env d0 s t" and "tv_inv env d0 p ov s"
  shows "tv_inv env d0 p ov t"
  using assms(1)
proof cases
  case (step_load jwks)
  then show ?thesis using assms(2) keys_of_trusted[OF step_load(2)] by (auto simp: tv_inv_def)
next
  case (step_persist jwks os)
  have "final_fs (disk s) states p = disk s p \<or> final_fs (disk s) states p = Some (json_Marshal jwks)"
    if "states = snd (writeJWKCache os p jwks (disk s))" for states
    using final_fs_cases[of "disk s" states] that step_persist(3) assms(2)
      write_state_cases[OF surjective_pairing, of "final_fs (disk s) states" os p jwks "disk s"]
    by (auto simp: tv_inv_def)
  then show ?thesis
    using assms(2) step_persist(1,2) unfolding tv_inv_def known_file_def by fastforce
qed (use assms(2) in \<open>auto simp: tv_inv_def\<close>)

interpretation vp: step_invariant
  "\<lambda>s. tv_keys s = Map.empty \<and> disk s p = d0 \<and> jwkCachePath s = p \<and> EndpointOverridden s = ov"
  "tv_step env d0" "tv_inv env d0 p ov"
  for env :: "('reg, 'ver) venv" and d0 p ov
proof unfold_locales
  show "tv_step env d0 s t \<Longrightarrow> tv_inv env d0 p ov s \<Longrightarrow> tv_inv env d0 p ov t" for s t by (rule tv_inv_step)
qed (simp add: tv_inv_def known_file_def)

section \<open>Every section of every program follows the protocol\<close>

text \<open>Temporary files never get the name of the cache file.\<close>

definition temp_apart :: "('reg, 'ver) venv \<Rightarrow> path \<Rightarrow> bool" where
  "temp_apart env p \<longleftrightarrow> (\<forall>n tmp. CreateTemp (os_write env n) = Inr tmp \<longrightarrow> tmp \<noteq> p)"

abbreviation vkeeps ::
  "('reg, 'ver) venv \<Rightarrow> string option \<Rightarrow> path \<Rightarrow> bool \<Rightarrow> 'a vthread \<Rightarrow> ('a \<Rightarrow> bool) \<Rightarrow> bool" where
  "vkeeps env d0 p ov \<equiv> guarantees (tv_step env d0) (tv_inv env d0 p ov) 0"

lemma vkeeps_get_raw: "vkeeps env d0 p ov (t_get_raw env e) (\<lambda>r. \<exists>n. r = DoRaw env n e)"
  unfolding t_get_raw_def
  by (rule g_bind[OF g_emit[where Q = "\<lambda>_. True"]], simp, rule g_ask) blast

definition supported :: "('reg, 'ver) venv \<Rightarrow> bool" where
  "supported env \<longleftrightarrow> (\<exists>n. version_error env (DoRaw env n versionEndpoint) = None)"

lemma vkeeps_version: "vkeeps env d0 p ov (t_checkK8sVersion env) (\<lambda>e. e = None \<longrightarrow> supported env)"
  unfolding t_checkK8sVersion_def by (rule g_bind[OF vkeeps_get_raw]) (auto simp: supported_def)

lemma vkeeps_fetch:
  "vkeeps env d0 p ov (t_fetchPublicKeys env) (\<lambda>r. \<forall>jwks. r = Inr jwks \<longrightarrow> fetched_set env jwks)"
proof -
  have "vkeeps env d0 p ov (tbind (t_get_raw env jwksEndpoint) (\<lambda>raw. Done (decode_jwks raw)))
      (\<lambda>r. \<forall>jwks. r = Inr jwks \<longrightarrow> fetched_set env jwks)"
    by (rule g_bind[OF vkeeps_get_raw]) (auto simp: decode_jwks_def fetched_set_def split: sum.splits)
  then show ?thesis
    unfolding t_fetchPublicKeys_def by (intro g_bind[OF vkeeps_version]) (auto split: option.split)
qed

lemma read_known:
  assumes "readJWKCache err p f = Inr jwks" and "\<And>data. f p = Some data \<Longrightarrow> known_file env d0 data"
  shows "known_set env d0 jwks"
  using assms by (auto simp: readJWKCache_def known_set_def split: option.splits sum.splits)

lemma vkeeps_load_disk:
  "vkeeps env d0 p ov (t_load_disk env p) (\<lambda>r. \<forall>jwks. r = Inr jwks \<longrightarrow> known_set env d0 jwks)"
  unfolding t_load_disk_def
  by (auto intro!: g_bind[OF g_ask[where Q = "\<lambda>_. True"]] g_section read_known simp: tv_inv_def)

lemma vkeeps_persist:
  assumes "temp_apart env p" and "fetched_set env jwks"
  shows "vkeeps env d0 p ov (t_persist env p jwks) (\<lambda>_. True)"
proof -
  have "vkeeps env d0 p ov (t_section
      (\<lambda>s. ((), s\<lparr>disk := final_fs (disk s) (snd (writeJWKCache os p jwks (disk s)))\<rparr>))) (\<lambda>_. True)"
    if "\<exists>n. os = os_write env n" for os
  proof (rule g_section, goal_cases)
    case (1 s)
    then have "tv_step env d0 s (s\<lparr>disk := final_fs (disk s) (snd (writeJWKCache os p jwks (disk s)))\<rparr>)"
      using step_persist[OF assms(2), of os s] that assms(1) by (auto simp: temp_apart_def tv_inv_def)
    then show ?case by auto
  qed
  then show ?thesis
    unfolding t_persist_def by (auto intro!: g_bind[OF g_ask[where Q = "\<lambda>os. \<exists>n. os = os_write env n"]])
qed

lemma vkeeps_fallback:
  assumes "temp_apart env p"
  shows "vkeeps env d0 p ov (t_fetch_fallback env p) (\<lambda>r. \<forall>jwks. r = Inr jwks \<longrightarrow> known_set env d0 jwks)"
  unfolding t_fetch_fallback_def
  by (rule g_bind[OF vkeeps_fetch])
    (auto intro!: g_bind[OF vkeeps_load_disk] g_bind[OF vkeeps_persist[OF assms]] simp: known_set_def split: sum.splits)

lemma vkeeps_refresh:
  assumes "temp_apart env p"
  shows "vkeeps env d0 p ov (t_refreshKeys env) (\<lambda>_. True)"
proof -
  have flag: "vkeeps env d0 p ov (t_section (\<lambda>s. ((), s\<lparr>refreshInFlight := b\<rparr>))) (\<lambda>_. True)" for b
    by (rule g_section) (auto intro: step_flag)
  have cas: "vkeeps env d0 p ov
      (t_section (\<lambda>s. if refreshInFlight s then (False, s) else (True, s\<lparr>refreshInFlight := True\<rparr>))) (\<lambda>_. True)"
    by (rule g_section) (auto intro: step_flag)
  have path: "vkeeps env d0 p ov (t_section (\<lambda>s. (jwkCachePath s, s))) (\<lambda>q. q = p)"
    by (rule g_section) (auto simp: tv_inv_def)
  have clear: "vkeeps env d0 p ov (t_section (\<lambda>s. ((), s\<lparr>tv_keys := Map.empty\<rparr>))) (\<lambda>_. True)"
    by (rule g_section) (auto intro: step_clear)
  have load: "vkeeps env d0 p ov (t_loadJWKSet jwks) (\<lambda>_. True)" if "known_set env d0 jwks" for jwks
    unfolding t_loadJWKSet_def by (rule g_section) (auto intro: step_load that)
  have result: "vkeeps env d0 p ov
      (case fetched of
         Inl err \<Rightarrow>
           tbind (if errors_Is err ErrUnsupportedK8sVersion
                  then t_section (\<lambda>s. ((), s\<lparr>tv_keys := Map.empty\<rparr>)) else Done ()) (\<lambda>_. Done (Some err))
       | Inr jwks \<Rightarrow> tbind (t_loadJWKSet jwks) (\<lambda>_. Done None)) (\<lambda>_. True)"
    if "\<forall>jwks. fetched = Inr jwks \<longrightarrow> known_set env d0 jwks" for fetched
    using that by (auto split: sum.split intro!: g_bind[OF clear] g_bind[OF load])
  show ?thesis
    unfolding t_refreshKeys_def
    by (rule g_bind[OF cas])
      (auto intro!: g_bind[OF path] g_bind[OF vkeeps_fallback[OF assms]] g_bind[OF result] g_bind[OF flag])
qed

lemma vkeeps_cached_key:
  "vkeeps env d0 p ov (t_cached_key kid) (\<lambda>r. \<forall>ck. r = Some ck \<longrightarrow> trusted_key env d0 kid ck)"
  unfolding t_cached_key_def by (rule g_section) (auto simp: tv_inv_def)

lemma vkeeps_RefreshKeys:
  assumes "temp_apart env p"
  shows "vkeeps env d0 p ov (t_RefreshKeys env tok) (\<lambda>_. True)"
  unfolding t_RefreshKeys_def
  by (auto intro!: g_bind[OF vkeeps_cached_key] vkeeps_refresh[OF assms] split: sum.split option.split)

text \<open>What a successful signature check has found.\<close>

definition signed_by_trusted_key ::
  "('reg, 'ver) venv \<Rightarrow> string option \<Rightarrow> string \<Rightarrow> jwt_token \<Rightarrow> bool" where
  "signed_by_trusted_key env d0 tokenString parsed \<longleftrightarrow>
     (\<exists>kid ck. get_string (jwt_Header parsed) ''kid'' = Some kid \<and> trusted_key env d0 kid ck \<and>
        jwt_Parse (vjwt env) tokenString (key_function ck) = Ret None)"

lemma check_signature_None:
  "check_signature env tok ck = Ret None \<longleftrightarrow> jwt_Parse (vjwt env) tok (key_function ck) = Ret None"
  by (simp add: check_signature_def split: go.split option.split)

lemma vkeeps_signature:
  assumes "temp_apart env p"
  shows "vkeeps env d0 p ov (t_validateSignature env tok parsed)
    (\<lambda>r. r = Ret None \<longrightarrow> signed_by_trusted_key env d0 tok parsed)"
proof (cases "get_string (jwt_Header parsed) ''kid''")
  case (Some kid)
  have good: "check_signature env tok ck = Ret None \<longrightarrow> signed_by_trusted_key env d0 tok parsed"
    if "trusted_key env d0 kid ck" for ck
    using that Some by (auto simp: check_signature_None signed_by_trusted_key_def)
  have again: "vkeeps env d0 p ov
      (tbind (t_cached_key kid) (\<lambda>again.
       case again of None \<Rightarrow> Done (Ret (Some e)) | Some ck \<Rightarrow> Done (check_signature env tok ck)))
      (\<lambda>r. r = Ret None \<longrightarrow> signed_by_trusted_key env d0 tok parsed)" for e
    by (rule g_bind[OF vkeeps_cached_key]) (auto simp: good split: option.split)
  show ?thesis
    unfolding t_validateSignature_def Some option.case
    by (rule g_bind[OF vkeeps_cached_key])
      (auto simp: good intro: again intro!: g_bind[OF vkeeps_refresh[OF assms]] split: option.split)
qed (simp add: t_validateSignature_def)

definition accepted_token ::
  "('reg, 'ver) venv \<Rightarrow> string option \<Rightarrow> bool \<Rightarrow> string \<Rightarrow> bool" where
  "accepted_token env d0 ov tok \<longleftrightarrow>
     supported env \<and>
     (\<exists>t. ParseUnverified (vjwt env) tok = Inr t \<and> ValidateClaims ov t = None \<and> signed_by_trusted_key env d0 tok t)"

lemma vkeeps_ValidateToken:
  assumes co: "temp_apart env p"
  shows "vkeeps env d0 p ov (t_ValidateToken env req)
    (\<lambda>r. r = None \<longrightarrow> accepted_token env d0 ov (ServiceAccountToken req))"
proof -
  let ?tok = "ServiceAccountToken req"
  let ?Q = "\<lambda>r. r = None \<longrightarrow> accepted_token env d0 ov ?tok"
  have source: "vkeeps env d0 p ov (t_section (\<lambda>s. (jwksSource s, s))) (\<lambda>_. True)"
    by (rule g_section) simp
  have ovr: "vkeeps env d0 p ov (t_section (\<lambda>s. (EndpointOverridden s, s))) (\<lambda>b. b = ov)"
    by (rule g_section) (simp add: tv_inv_def)
  have sig: "vkeeps env d0 p ov (tbind (t_validateSignature env ?tok t) (\<lambda>r. Done (signature_result r))) ?Q"
    if "supported env" "ParseUnverified (vjwt env) ?tok = Inr t" "ValidateClaims ov t = None" for t
    by (rule g_bind[OF vkeeps_signature[OF co]])
      (use that in \<open>auto simp: accepted_token_def signature_result_def split: go.splits option.splits\<close>)
  have claims: "vkeeps env d0 p ov
      (tbind (t_section (\<lambda>s. (EndpointOverridden s, s))) (\<lambda>overridden.
       case ValidateClaims overridden t of
         Some err \<Rightarrow> Done (Some (f err))
       | None \<Rightarrow> tbind (t_validateSignature env ?tok t) (\<lambda>r. Done (signature_result r)))) ?Q"
    if "supported env" "ParseUnverified (vjwt env) ?tok = Inr t" for t f
    by (rule g_bind[OF ovr]) (use that in \<open>auto intro!: sig split: option.split\<close>)
  show ?thesis
    unfolding t_ValidateToken_def
    by (auto intro!: g_bind[OF source] g_bind[OF vkeeps_version] claims split: option.split sum.split)
qed

section \<open>What acceptance means\<close>

text \<open>
  Acceptance under the law of \<open>jwt.Parse\<close>: it reports no error only for a token whose signature it
  checked with the key its key function returned.
\<close>

lemma accepted_token_verified:
  assumes "accepted_token env d0 ov tok"
    and jwt_law: "\<And>tok kf. jwt_Parse (vjwt env) tok kf = Ret None \<Longrightarrow>
      \<exists>t key. ParseUnverified (vjwt env) tok = Inr t \<and> kf t = Inr key \<and> verifies tok key"
  shows "\<exists>t kid claims ck. ParseUnverified (vjwt env) tok = Inr t \<and>
    get_string (jwt_Header t) ''kid'' = Some kid \<and> keyIDPattern kid \<and> trusted_key env d0 kid ck \<and>
    get_string_or_empty (jwt_Header t) ''alg'' = ck_alg ck \<and> verifies tok (ck_key ck) \<and>
    jwt_Claims t = MapClaims claims \<and> validateKubernetesClaims claims = None \<and>
    (ov \<or> toStringSlice (map_of claims ''aud'') = [expectedAudience]) \<and> supported env"
proof -
  obtain t kid ck where t: "supported env" "ParseUnverified (vjwt env) tok = Inr t"
    "ValidateClaims ov t = None" "get_string (jwt_Header t) ''kid'' = Some kid" "trusted_key env d0 kid ck"
    "jwt_Parse (vjwt env) tok (key_function ck) = Ret None"
    using assms(1) by (auto simp: accepted_token_def signed_by_trusted_key_def)
  then have "key_function ck t = Inr (ck_key ck) \<and> get_string_or_empty (jwt_Header t) ''alg'' = ck_alg ck \<and>
      verifies tok (ck_key ck)"
    using jwt_law[OF t(6)] by (auto simp: key_function_def Let_def split: if_splits)
  then show ?thesis using t by (auto simp: ValidateClaims_None)
qed

end
