(* ===== verification/Validator_System.thy ===== *)
theory Validator_System
  imports Validator_Laws
begin

text \<open>
  The goroutines over one token validator together: validations of requests, the goroutine \<open>NewTokenValidator\<close>
  starts to fill the key cache, and explicit refreshes, in any number and any interleaving.
\<close>

section \<open>Jobs\<close>

datatype validator_job =
  ValidateRequest EksCredentialsRequest
| PrepopulateKeys
| RefreshForToken string

primrec validator_code :: "('reg, 'ver) venv \<Rightarrow> validator_job \<Rightarrow> goerr option vthread" where
  "validator_code env (ValidateRequest req) = t_ValidateToken env req"
| "validator_code env PrepopulateKeys = t_refreshKeys env"
| "validator_code env (RefreshForToken tok) = t_RefreshKeys env tok"

type_synonym validator_system = "(validator_job, TokenValidator, request_event, goerr option) system"

definition validator_step :: "('reg, 'ver) venv \<Rightarrow> validator_system \<Rightarrow> validator_system \<Rightarrow> bool" where
  "validator_step env = system_step (validator_code env) (\<lambda>_. True) (\<lambda>_. None)"

definition validator_promise ::
  "('reg, 'ver) venv \<Rightarrow> string option \<Rightarrow> bool \<Rightarrow> validator_job \<Rightarrow> nat \<Rightarrow> goerr option \<Rightarrow> bool" where
  "validator_promise env d0 ov j n r \<longleftrightarrow>
     (\<forall>req. j = ValidateRequest req \<longrightarrow> r = None \<longrightarrow> accepted_token env d0 ov (ServiceAccountToken req))"

lemma guarantees_later: "guarantees step I 0 t Q \<Longrightarrow> guarantees step I n t Q"
  by (induction t) auto

lemma validator_code_keeps:
  assumes "temp_apart env p"
  shows "guarantees (tv_step env d0) (tv_inv env d0 p ov) n (validator_code env j) (validator_promise env d0 ov j n)"
proof (rule guarantees_later, cases j)
  case (ValidateRequest req)
  then show "vkeeps env d0 p ov (validator_code env j) (validator_promise env d0 ov j n)"
    by (auto intro!: g_weaken[OF vkeeps_ValidateToken[OF assms]] simp: validator_promise_def)
next
  case PrepopulateKeys
  then show "vkeeps env d0 p ov (validator_code env j) (validator_promise env d0 ov j n)"
    by (auto intro!: g_weaken[OF vkeeps_refresh[OF assms]] simp: validator_promise_def)
next
  case (RefreshForToken tok)
  then show "vkeeps env d0 p ov (validator_code env j) (validator_promise env d0 ov j n)"
    by (auto intro!: g_weaken[OF vkeeps_RefreshKeys[OF assms]] simp: validator_promise_def)
qed

lemma new_validator_inv:
  "NewTokenValidator f client = Inr s0 \<Longrightarrow>
   tv_inv env (f defaultJWKCachePath) defaultJWKCachePath ov (s0\<lparr>EndpointOverridden := ov\<rparr>)"
  by (intro vp.inv_init) (auto simp: NewTokenValidator_def split: sum.splits)

lemma validator_accepts:
  assumes "NewTokenValidator f client = Inr s0" and "temp_apart env defaultJWKCachePath"
    and "(validator_step env)\<^sup>*\<^sup>* (idle_system (s0\<lparr>EndpointOverridden := ov\<rparr>)) S"
    and "goroutines S i = Some g" and "job g = ValidateRequest req" and "rest g = Done None"
  shows "accepted_token env (f defaultJWKCachePath) ov (ServiceAccountToken req)"
  using vp.system_results(3)[OF validator_code_keeps[OF assms(2)] assms(3)[unfolded validator_step_def]
      new_validator_inv[OF assms(1)] assms(4,6)] assms(5)
  by (simp add: validator_promise_def)

lemma validation_alone:
  assumes "goroutines S i = None" and "finite (dom (goroutines S))" and "vothers env = alone"
    and "run_state (ValidateToken env req) \<lparr>shared = mem S, ticks = time S, trace = []\<rparr> = (r, w')"
  shows "\<exists>S'. (validator_step env)\<^sup>*\<^sup>* S S' \<and>
    goroutines S' i = Some \<lparr>job = ValidateRequest req, started = time S, rest = Done r\<rparr> \<and>
    mem S' = shared w' \<and> time S' = ticks w' \<and> finite (dom (goroutines S'))"
  unfolding validator_step_def
  using assms vdenotes_validator(3)[of env req] by (intro arrives_alone) simp_all

section \<open>One refresh at a time\<close>

definition fetches_keys :: "request_event \<Rightarrow> bool" where
  "fetches_keys ev \<longleftrightarrow> ev = Requested jwksEndpoint"

abbreviation refreshing :: "bool \<Rightarrow> 'a vthread \<Rightarrow> ('a \<Rightarrow> bool) \<Rightarrow> bool" where
  "refreshing \<equiv> holding refreshInFlight fetches_keys (\<lambda>_. None :: validator_job option)"

lemma refreshing_section:
  "(\<And>s. refreshInFlight (snd (f s)) = refreshInFlight s) \<Longrightarrow> refreshing b (t_section f) (\<lambda>_. b)"
  by (rule h_section) simp_all

lemma refreshing_ask: "refreshing b (t_ask f) (\<lambda>_. b)"
  by (rule h_ask) simp

lemma refreshing_version: "refreshing b (t_checkK8sVersion env) (\<lambda>_. b)"
  unfolding t_checkK8sVersion_def t_get_raw_def
  by (intro h_bind[where c = "\<lambda>_. b"] h_emit refreshing_ask)
    (simp_all add: fetches_keys_def versionEndpoint_def jwksEndpoint_def)

lemma refreshing_fallback: "refreshing True (t_fetch_fallback env p) (\<lambda>_. True)"
  unfolding t_fetch_fallback_def t_fetchPublicKeys_def t_load_disk_def t_persist_def t_get_raw_def
  by (auto intro!: h_bind[where c = "\<lambda>_. True"] h_emit refreshing_ask refreshing_section refreshing_version
      split: option.split sum.split)

lemma refreshing_refreshKeys: "refreshing False (t_refreshKeys env) (\<lambda>_. False)"
proof -
  have lower: "refreshing True (t_section (\<lambda>s. ((), s\<lparr>refreshInFlight := False\<rparr>))) (\<lambda>_. False)"
    by (simp add: t_section_def)
  show ?thesis
    unfolding t_refreshKeys_def t_loadJWKSet_def
    by (rule h_bind[where c = "\<lambda>swapped. swapped"])
      (auto intro!: h_bind[where c = "\<lambda>_. True"] h_bind[OF lower] refreshing_section refreshing_fallback
        simp: t_section_def[of "\<lambda>s. if refreshInFlight s then _ s else _ s"] split: sum.split)
qed

lemma validator_disciplined:
  "disciplined (validator_code env) (\<lambda>_. True) refreshInFlight fetches_keys (\<lambda>_. None)"
proof -
  have "refreshing False (validator_code env j) (\<lambda>_. False)" for j
    by (cases j)
      (auto simp: t_ValidateToken_def t_validateSignature_def t_RefreshKeys_def t_cached_key_def
        intro!: h_bind[where c = "\<lambda>_. False"] refreshing_section refreshing_version refreshing_refreshKeys
        split: option.split sum.split)
  then show ?thesis by (simp add: disciplined_def)
qed

lemma one_fetch_at_a_time:
  assumes "(validator_step env)\<^sup>*\<^sup>* (idle_system s) S" and "\<not> refreshInFlight s"
    and "goroutines S i = Some g" and "rest g = Emit (Requested jwksEndpoint) t"
  shows "refreshInFlight (mem S)"
    and "goroutines S j = Some g' \<Longrightarrow> j \<noteq> i \<Longrightarrow> refreshing False (rest g') (\<lambda>_. False)"
    and "goroutines S j = Some g' \<Longrightarrow> rest g' = Emit (Requested jwksEndpoint) t' \<Longrightarrow> j = i"
proof -
  obtain own where own: "held_by refreshInFlight fetches_keys (\<lambda>_. None) own S"
    using held_by_steps[OF validator_disciplined assms(1)[unfolded validator_step_def] assms(2)] by blast
  have fetcher: "own = Some l" if "goroutines S l = Some h" "rest h = Emit (Requested jwksEndpoint) u" for l h u
    using held_by_guarded[OF own that] by (simp add: fetches_keys_def)
  have i: "own = Some i" using assms(3,4) by (rule fetcher)
  then show "refreshInFlight (mem S)" using own by (simp add: held_by_def)
  show "refreshing False (rest g') (\<lambda>_. False)" if "goroutines S j = Some g'" "j \<noteq> i"
  proof -
    have "refreshing (own = Some j) (rest g') (\<lambda>_. False)" using own that(1) by (simp add: held_by_def)
    then show ?thesis using i that(2) by simp
  qed
  show "j = i" if "goroutines S j = Some g'" "rest g' = Emit (Requested jwksEndpoint) t'"
    using fetcher[OF that] i by simp
qed

end
