(* ===== verification/Validator_Properties.thy ===== *)
theory Validator_Properties
  imports Validator_System
begin

text \<open>
  The properties of the token validator, its API server client and the key store, with runs on a concrete
  key set, token and API server.
\<close>

section \<open>A concrete system\<close>

definition demo_kid :: string where
  "demo_kid = replicate 40 (CHR ''a'')"

definition demo_jwk :: JWK where
  "demo_jwk = zero_JWK\<lparr>jwk_Kty := ''RSA'', jwk_Kid := demo_kid, jwk_Use := ''sig'', jwk_Alg := ''RS256'',
                        jwk_N := ''BQ'', jwk_E := ''Aw''\<rparr>"

definition demo_set :: JWKSet where
  "demo_set = \<lparr>jwk_Keys = Some [demo_jwk]\<rparr>"

definition demo_token :: jwt_token where
  "demo_token =
     \<lparr>jwt_Header = [(''alg'', JString ''RS256''), (''kid'', JString demo_kid)],
      jwt_Claims = MapClaims
        [(''aud'', JArray [JString ''pods.eks.amazonaws.com'']),
         (''kubernetes.io'', JObject
            [(''namespace'', JString ''n''),
             (''serviceaccount'', JObject [(''name'', JString ''s''), (''uid'', JString ''u'')]),
             (''pod'', JObject [(''name'', JString ''p''), (''uid'', JString ''q'')])])]\<rparr>"

text \<open>A library in which the key with modulus 5 has signed the one token there is.\<close>

definition demo_lib :: "(unit, public_key) jwt_lib" where
  "demo_lib =
     \<lparr>ParseUnverified = (\<lambda>t. if t = ''tok'' then Inr demo_token else Inl (Plain [])),
      ParseRegistered = (\<lambda>t. Inr ()), ValidateRegistered = (\<lambda>t r. None),
      jwt_Parse = (\<lambda>t f.
        if t = ''tok'' then
          (case f demo_token of
             Inl e \<Rightarrow> Ret (Some e)
           | Inr k \<Rightarrow> if k = RSAPublicKey 5 3 then Ret None else Ret (Some (Plain [])))
        else Ret (Some (Plain [])))\<rparr>"

definition demo_os :: os_answers where
  "demo_os = \<lparr>MkdirAll_err = None, CreateTemp = Inr ''/tmp/x'', Write_err = None, Rename_err = None, Remove_works = True\<rparr>"

definition demo_venv :: "(unit, nat) venv" where
  "demo_venv =
     \<lparr>vjwt = demo_lib, vothers = (\<lambda>n s. s\<lparr>refreshInFlight := False\<rparr>),
      DoRaw = (\<lambda>n e. if e = versionEndpoint then Inr ''v'' else Inr (json_Marshal demo_set)),
      Unmarshal_Info = (\<lambda>t. Inr (''1'', ''34'')),
      version = \<lparr>ParseGeneric = (\<lambda>s. Inr 134), MajorMinor = (\<lambda>a b. 100 * a + b), AtLeast = (\<lambda>a b. b \<le> a),
                  ver_Major = (\<lambda>v. int (v div 100)), ver_Minor = (\<lambda>v. int (v mod 100))\<rparr>,
      os_write = (\<lambda>n. demo_os), os_read = (\<lambda>n. None)\<rparr>"

definition demo_validator :: TokenValidator where
  "demo_validator =
     \<lparr>tv_keys = Map.empty, jwksSource = True, refreshInFlight = False, jwkCachePath = defaultJWKCachePath,
      EndpointOverridden = False, disk = Map.empty\<rparr>"

lemma demo_valid: "valid_JWKSet demo_set"
proof -
  have "valid_utf8 (replicate n (CHR ''a''))" for n
    by (induction n) (simp_all add: valid_utf8.simps utf8_len.simps byte_def)
  then show ?thesis
    by (simp add: demo_set_def valid_JWKSet_def valid_JWK_def demo_jwk_def zero_JWK_def demo_kid_def
        valid_utf8.simps utf8_len.simps byte_def del: replicate.simps)
qed

lemma demo_parse: "parseJWK demo_jwk = Inr (RSAPublicKey 5 3)"
proof -
  have "RawURLEncoding_DecodeString ''BQ'' = Some [5]" "RawURLEncoding_DecodeString ''Aw'' = Some [3]"
    by code_simp+
  then show ?thesis
    by (simp add: parseJWK_def parseRSAKey_def demo_jwk_def decode_field_def SetBytes_def zero_JWK_def
        int64_id in_int64_def)
qed

lemma demo_keys: "keys_of demo_set = [demo_kid \<mapsto> \<lparr>ck_key = RSAPublicKey 5 3, ck_alg = ''RS256''\<rparr>]"
  by (simp add: keys_of_def demo_set_def demo_parse) (simp add: demo_jwk_def)

lemma demo_fetched: "fetched_set demo_venv demo_set"
  unfolding fetched_set_def
  by (intro exI[of _ 0] exI[of _ "json_Marshal demo_set"])
    (simp add: demo_venv_def Unmarshal_Marshal[OF demo_valid] jwksEndpoint_def versionEndpoint_def)

section \<open>Acceptance\<close>

text \<open>
  C3. Soundness of local validation, with any number of goroutines over one validator. Suppose \<open>jwt.Parse\<close> reports no
  error only for a token whose signature it checked with the key its key function returned for the
  parsed token. In every interleaving of validations, of the goroutine that fills the key cache and of refreshes, a token that \<open>ValidateToken\<close>
  has accepted names in its header a key id of 40 hexadecimal digits under which a key set of the
  API server, or the cache file, lists a key; the token's algorithm is the one that key declares; its
  signature verifies under that key; the namespace, the service account and the pod claims
  are present; the audience is exactly the expected one unless the endpoint is
  overridden; and the API server's version supported key fetching.
\<close>

theorem validated_tokens_are_signed:
  assumes "NewTokenValidator f client = Inr s0" and "p = defaultJWKCachePath" and "temp_apart env p"
    and "(validator_step env)\<^sup>*\<^sup>* (idle_system (s0\<lparr>EndpointOverridden := ov\<rparr>)) S"
    and "goroutines S i = Some g" and "job g = ValidateRequest req" and "rest g = Done None"
    and jwt_law: "\<And>tok kf. jwt_Parse (vjwt env) tok kf = Ret None \<Longrightarrow>
      \<exists>t key. ParseUnverified (vjwt env) tok = Inr t \<and> kf t = Inr key \<and> verifies tok key"
  shows "\<exists>t kid claims ck. ParseUnverified (vjwt env) (ServiceAccountToken req) = Inr t \<and>
    get_string (jwt_Header t) ''kid'' = Some kid \<and> keyIDPattern kid \<and> trusted_key env (f p) kid ck \<and>
    get_string_or_empty (jwt_Header t) ''alg'' = ck_alg ck \<and> verifies (ServiceAccountToken req) (ck_key ck) \<and>
    jwt_Claims t = MapClaims claims \<and> validateKubernetesClaims claims = None \<and>
    (ov \<or> toStringSlice (map_of claims ''aud'') = [expectedAudience]) \<and> supported env"
  using accepted_token_verified[of env "f p" ov "ServiceAccountToken req", OF _ jwt_law]
    validator_accepts[OF assms(1)] assms(2-7) by blast

definition demo_vworld :: "(TokenValidator, request_event) world" where
  "demo_vworld = \<lparr>shared = demo_validator\<lparr>tv_keys := keys_of demo_set\<rparr>, ticks = 0, trace = []\<rparr>"

definition demo_vreq :: EksCredentialsRequest where
  "demo_vreq = \<lparr>ServiceAccountToken = ''tok'', ClusterName = ''c'', RequestTargetHost = ''h''\<rparr>"

lemma demo_claims: "ValidateClaims False demo_token = None"
proof -
  have "list_all hex_char demo_kid" by (simp add: demo_kid_def hex_char_def list_all_iff)
  then have "keyIDPattern demo_kid" by (simp add: keyIDPattern_def demo_kid_def)
  then show ?thesis
    unfolding ValidateClaims_None validateKubernetesClaims_None
    by (simp add: demo_token_def get_string_def get_object_def has_text_def TrimSpace_is_empty_def
        all_space.simps toStringSlice_def List.map_filter_simps expectedAudience_def)
qed

definition still_venv :: "(unit, nat) venv" where
  "still_venv = demo_venv\<lparr>vothers := alone\<rparr>"

definition new_vworld :: "(TokenValidator, request_event) world" where
  "new_vworld = \<lparr>shared = demo_validator, ticks = 0, trace = []\<rparr>"

lemma demo_new: "NewTokenValidator Map.empty (Inr () :: goerr + unit) = Inr demo_validator"
  by (simp add: NewTokenValidator_def demo_validator_def)

lemma demo_jwt_law:
  "jwt_Parse (vjwt still_venv) tok kf = Ret None \<Longrightarrow>
   \<exists>t key. ParseUnverified (vjwt still_venv) tok = Inr t \<and> kf t = Inr key \<and> key = RSAPublicKey 5 3"
  by (auto simp: still_venv_def demo_venv_def demo_lib_def split: if_splits sum.splits)

lemma still_temp_apart: "temp_apart still_venv defaultJWKCachePath"
  by (auto simp: temp_apart_def still_venv_def demo_venv_def demo_os_def defaultJWKCachePath_def)

text \<open>With an empty key cache the validation first fetches the keys.\<close>

lemma demo_validated: "fst (run_state (ValidateToken still_venv demo_vreq) new_vworld) = None"
proof -
  have parsed: "ParseUnverified (vjwt still_venv) ''tok'' = Inr demo_token"
    by (simp add: still_venv_def demo_venv_def demo_lib_def)
  have kid: "get_string (jwt_Header demo_token) ''kid'' = Some demo_kid"
    and alg: "get_string_or_empty (jwt_Header demo_token) ''alg'' = ''RS256''"
    by (simp_all add: demo_token_def get_string_def get_string_or_empty_def)
  have sig: "check_signature still_venv ''tok'' \<lparr>ck_key = RSAPublicKey 5 3, ck_alg = ''RS256''\<rparr> = Ret None"
    by (simp add: check_signature_None still_venv_def demo_venv_def demo_lib_def key_function_def alg Let_def)
  have ver: "version_error still_venv (DoRaw still_venv n versionEndpoint) = None" for n
    by (simp add: still_venv_def demo_venv_def version_error_def minK8sVersion_def)
  have jwks: "decode_jwks (DoRaw still_venv n jwksEndpoint) = Inr demo_set" for n
    by (simp add: decode_jwks_def still_venv_def demo_venv_def Unmarshal_Marshal[OF demo_valid] jwksEndpoint_def versionEndpoint_def)
  have oth: "vothers still_venv n s = s" for n s by (simp add: still_venv_def alone_def)
  show ?thesis
    by (simp add: ValidateToken_def demo_vreq_def checkK8sVersion_def get_raw_def ver parsed validateSignature_def
        kid cached_key_def oth new_vworld_def demo_validator_def demo_claims demo_keys sig signature_result_def
        refreshKeys_def fetchPublicKeysWithFallback_def fetchPublicKeys_def jwks persistJWKCacheToDisk_def loadJWKSet_def)
qed

lemma demo_validation:
  assumes "fst (run_state (ValidateToken still_venv req) new_vworld) = r"
  shows "\<exists>S k. (validator_step still_venv)\<^sup>*\<^sup>* (idle_system (demo_validator\<lparr>EndpointOverridden := False\<rparr>)) S \<and>
    goroutines S 0 = Some k \<and> job k = ValidateRequest req \<and> rest k = Done r"
proof -
  let ?S = "idle_system (demo_validator\<lparr>EndpointOverridden := False\<rparr>) :: validator_system"
  have "run_state (ValidateToken still_venv req) \<lparr>shared = mem ?S, ticks = time ?S, trace = []\<rparr> =
      (r, snd (run_state (ValidateToken still_venv req) new_vworld))"
    using assms by (auto simp: idle_system_def new_vworld_def demo_validator_def prod_eq_iff)
  from validation_alone[OF _ _ _ this, of 0] show ?thesis
    by (fastforce simp: idle_system_def still_venv_def)
qed

theorem validated_tokens_are_signed_witness:
  "\<exists>t kid ck. ParseUnverified (vjwt still_venv) ''tok'' = Inr t \<and>
    get_string (jwt_Header t) ''kid'' = Some kid \<and> trusted_key still_venv None kid ck \<and> ck_key ck = RSAPublicKey 5 3"
proof -
  obtain S k where S: "(validator_step still_venv)\<^sup>*\<^sup>* (idle_system (demo_validator\<lparr>EndpointOverridden := False\<rparr>)) S"
    and k: "goroutines S 0 = Some k" "job k = ValidateRequest demo_vreq" "rest k = Done None"
    using demo_validation[OF demo_validated] by blast
  show ?thesis
    using validated_tokens_are_signed[OF demo_new refl still_temp_apart S k demo_jwt_law] by (force simp: demo_vreq_def)
qed

text \<open>
  C5. However many goroutines ask for a refresh at once, one fetches at a time. In every reachable state of
  the goroutines of a validator with one that is about to request the key set from the API server: the flag \<open>refreshInFlight\<close> is up;
  no other one is about to make that request; and all others are outside a refresh, that is, before they take
  the flag themselves they neither request keys nor lower the flag.
\<close>

theorem one_key_fetch_at_a_time:
  assumes "NewTokenValidator f client = Inr s0"
    and "(validator_step env)\<^sup>*\<^sup>* (idle_system (s0\<lparr>EndpointOverridden := ov\<rparr>)) S"
    and "goroutines S i = Some g" and "rest g = Emit (Requested jwksEndpoint) t"
  shows "refreshInFlight (mem S) \<and>
    (\<forall>j g'. goroutines S j = Some g' \<and> j \<noteq> i \<longrightarrow>
       (\<nexists>t'. rest g' = Emit (Requested jwksEndpoint) t') \<and>
       released refreshInFlight fetches_keys (\<lambda>_. None :: validator_job option) False (rest g'))"
proof -
  have "\<not> refreshInFlight (s0\<lparr>EndpointOverridden := ov\<rparr>)"
    using assms(1) by (auto simp: NewTokenValidator_def split: sum.splits)
  note alone = one_fetch_at_a_time[OF assms(2) this assms(3,4)]
  show ?thesis using alone(1,2) alone(3) by blast
qed

text \<open>The goroutine \<open>NewTokenValidator\<close> starts, after four steps.\<close>

definition fetching_system :: validator_system where
  "fetching_system = schedule (validator_code still_venv) (\<lambda>_. None) 0 1 4
     (launch (validator_code still_venv) 0 PrepopulateKeys (idle_system (demo_validator\<lparr>EndpointOverridden := False\<rparr>)))"

theorem one_key_fetch_at_a_time_witness:
  "refreshInFlight (mem fetching_system) \<and> job (the (goroutines fetching_system 0)) = PrepopulateKeys"
proof -
  have ver: "version_error still_venv (DoRaw still_venv n versionEndpoint) = None" for n
    by (simp add: still_venv_def demo_venv_def version_error_def minK8sVersion_def)
  have reach: "(validator_step still_venv)\<^sup>*\<^sup>* (idle_system (demo_validator\<lparr>EndpointOverridden := False\<rparr>)) fetching_system"
    unfolding validator_step_def fetching_system_def by (rule arrives_schedule) simp
  have "\<exists>g t. goroutines fetching_system 0 = Some g \<and> job g = PrepopulateKeys \<and> rest g = Emit (Requested jwksEndpoint) t"
    by (simp add: fetching_system_def numeral_eq_Suc move_def idle_system_def demo_validator_def Let_def
        t_refreshKeys_def t_fetch_fallback_def t_fetchPublicKeys_def t_checkK8sVersion_def t_get_raw_def
        t_section_def t_emit_def t_ask_def ver)
  then obtain g t where g: "goroutines fetching_system 0 = Some g" "job g = PrepopulateKeys"
    "rest g = Emit (Requested jwksEndpoint) t" by blast
  then show ?thesis using one_key_fetch_at_a_time[OF demo_new reach g(1,3)] by simp
qed

section \<open>The key store\<close>

text \<open>
  C10. Crash safety of the cache file: whatever fails, and wherever the process is stopped, the file under the cache path
  holds what it held before or the complete new key set, the latter only if the
  write succeeds; a write that fails restores the whole file system (when the temporary file can be
  removed); and a write that succeeds leaves the key set in place.
\<close>

theorem key_store_survives_crashes:
  assumes "writeJWKCache os path jwks f = (err, states)"
    and "\<And>tmp. CreateTemp os = Inr tmp \<Longrightarrow> tmp \<noteq> path \<and> f tmp = None" and "Remove_works os"
  shows "(\<forall>g \<in> set states. g path = f path \<or> err = None \<and> g path = Some (json_Marshal jwks)) \<and>
    (if err = None then final_fs f states path = Some (json_Marshal jwks) else final_fs f states = f)"
proof -
  have "g path = f path \<or> err = None \<and> g path = Some (json_Marshal jwks)" if "g \<in> set states" for g
    using write_state_cases[OF assms(1) that] assms(2) by blast
  moreover have "if err = None then final_fs f states path = Some (json_Marshal jwks) else final_fs f states = f"
    using assms write_success[of os path jwks f states] write_failure[of os path jwks f _ states]
    by (cases err) auto
  ultimately show ?thesis by blast
qed

theorem key_store_survives_crashes_witness:
  "final_fs [''/k'' \<mapsto> ''old''] (snd (writeJWKCache (demo_os\<lparr>Rename_err := Some (Plain [])\<rparr>) ''/k'' demo_set [''/k'' \<mapsto> ''old'']))
     = [''/k'' \<mapsto> ''old'']"
proof -
  let ?os = "demo_os\<lparr>Rename_err := Some (Plain [])\<rparr>"
  let ?r = "writeJWKCache ?os ''/k'' demo_set [''/k'' \<mapsto> ''old'']"
  have "fst ?r \<noteq> None" by (simp add: writeJWKCache_def demo_os_def Let_def)
  moreover have "CreateTemp ?os = Inr tmp \<Longrightarrow> tmp \<noteq> ''/k'' \<and> [''/k'' \<mapsto> ''old''] tmp = None" for tmp
    by (auto simp: demo_os_def)
  moreover have "Remove_works ?os" by (simp add: demo_os_def)
  ultimately show ?thesis
    using key_store_survives_crashes[OF surjective_pairing, where os = ?os and path = "''/k''" and jwks = demo_set
        and f = "[''/k'' \<mapsto> ''old'']"] by auto
qed

text \<open>
  C31. A key set that was written is read back as it was, for every key set whose strings are valid UTF-8: the
  JSON text the agent writes parses, each member finds its field again, and omitted empty
  members come back as empty strings.
\<close>

theorem key_store_roundtrip:
  assumes "writeJWKCache os path jwks f = (None, states)" and "valid_JWKSet jwks"
  shows "readJWKCache None path (final_fs f states) = Inr jwks"
  using write_success[OF assms(1)] Unmarshal_Marshal[OF assms(2)] by (simp add: readJWKCache_def)

theorem key_store_roundtrip_witness:
  "readJWKCache None ''/k'' (final_fs Map.empty (snd (writeJWKCache demo_os ''/k'' demo_set Map.empty))) = Inr demo_set"
  by (rule key_store_roundtrip[OF _ demo_valid, where os = demo_os])
    (simp add: writeJWKCache_def demo_os_def Let_def)

section \<open>Fetching and caching keys\<close>

definition vundisturbed :: "('reg, 'ver) venv \<Rightarrow> bool" where
  "vundisturbed env \<longleftrightarrow> (\<forall>n s. vothers env n s = s)"

lemma run_get_raw [simp]:
  "run_state (get_raw env e) w =
     (DoRaw env (ticks w) e, w\<lparr>ticks := 1 + ticks w, trace := trace w @ [Requested e]\<rparr>)"
  by (simp add: get_raw_def)

lemma run_version [simp]:
  "run_state (checkK8sVersion env) w =
     (version_error env (DoRaw env (ticks w) versionEndpoint),
      w\<lparr>ticks := 1 + ticks w, trace := trace w @ [Requested versionEndpoint]\<rparr>)"
  by (simp add: checkK8sVersion_def)

lemma run_fetchPublicKeys_shared [simp]: "shared (snd (run_state (fetchPublicKeys env) w)) = shared w"
  by (simp add: fetchPublicKeys_def split: option.split)

text \<open>
  C17. Falling back to the disk. What \<open>fetchPublicKeysWithFallback\<close> returns, undisturbed: the keys of the
  API server where they can be fetched, and these are then written to the cache file; the
  error itself when the API server is too old, with the disk not consulted; and for any other error the keys of
  the cache file, where there is a path and the file can be read and decoded, else the
  first error. Unless keys were fetched, the disk is left alone.
\<close>

theorem fallback_behaviour:
  assumes "vundisturbed env" and "run_state (fetchPublicKeys env) w = (fetched, w1)"
    and "run_state (fetchPublicKeysWithFallback env path) w = (r, w')"
  shows "case fetched of
      Inr jwks \<Rightarrow> r = Inr jwks \<and>
        disk (shared w') =
          (if path = '''' then disk (shared w)
           else final_fs (disk (shared w)) (snd (writeJWKCache (os_write env (ticks w1)) path jwks (disk (shared w)))))
    | Inl err \<Rightarrow> shared w' = shared w \<and>
        r = (if errors_Is err ErrUnsupportedK8sVersion \<or> path = '''' then Inl err
             else case readJWKCache (os_read env (ticks w1)) path (disk (shared w)) of
                    Inl _ \<Rightarrow> Inl err | Inr jwks \<Rightarrow> Inr jwks)"
proof -
  have s: "shared w1 = shared w" using run_fetchPublicKeys_shared[of env w] assms(2) by simp
  have o: "\<And>n s. vothers env n s = s" using assms(1) by (simp add: vundisturbed_def)
  show ?thesis
    using assms(2,3) s
    by (auto simp: fetchPublicKeysWithFallback_def loadJWKCacheFromDisk_def persistJWKCacheToDisk_def o
        split: sum.splits if_splits)
qed

definition old_venv :: "(unit, nat) venv" where
  "old_venv = demo_venv\<lparr>vothers := (\<lambda>n s. s), Unmarshal_Info := (\<lambda>t. Inr (''1'', ''33'')),
     version := (version demo_venv)\<lparr>ParseGeneric := (\<lambda>s. Inr 133)\<rparr>\<rparr>"

theorem fallback_behaviour_witness:
  "\<exists>err. fst (run_state (fetchPublicKeysWithFallback old_venv defaultJWKCachePath) demo_vworld) = Inl err \<and>
     errors_Is err ErrUnsupportedK8sVersion"
proof -
  have und: "vundisturbed old_venv" by (simp add: vundisturbed_def old_venv_def)
  have err: "version_error old_venv (DoRaw old_venv n versionEndpoint) = Some (unsupported_version old_venv 133)" for n
    by (simp add: old_venv_def demo_venv_def version_error_def minK8sVersion_def)
  have fetched: "run_state (fetchPublicKeys old_venv) demo_vworld =
      (Inl (unsupported_version old_venv 133), snd (run_state (fetchPublicKeys old_venv) demo_vworld))"
    by (simp add: fetchPublicKeys_def err)
  have "errors_Is (unsupported_version old_venv 133) ErrUnsupportedK8sVersion"
    by (simp add: unsupported_version_def errors_Is_def)
  then show ?thesis
    using fallback_behaviour[OF und fetched surjective_pairing, of defaultJWKCachePath] by auto
qed

text \<open>
  C18. A refresh of the key cache, undisturbed. While another refresh is in flight it is refused and
  changes nothing. Otherwise it ends with no refresh in flight, and the key cache is: the
  parsed keys of the fetched set when there is one; empty when the API server is too old to be
  trusted; unchanged after any other error.
\<close>

theorem refresh_behaviour:
  assumes "vundisturbed env" and "run_state (refreshKeys env) w = (err, w')"
    and "w1 = w\<lparr>shared := (shared w)\<lparr>refreshInFlight := True\<rparr>, ticks := 2 + ticks w\<rparr>"
    and "fetched = fst (run_state (fetchPublicKeysWithFallback env (jwkCachePath (shared w))) w1)"
  shows "if refreshInFlight (shared w) then shared w' = shared w \<and> err \<noteq> None
    else \<not> refreshInFlight (shared w') \<and>
      (case fetched of
         Inr jwks \<Rightarrow> err = None \<and> tv_keys (shared w') = keys_of jwks
       | Inl e \<Rightarrow> err = Some e \<and>
           tv_keys (shared w') =
             (if errors_Is e ErrUnsupportedK8sVersion then Map.empty else tv_keys (shared w)))"
proof -
  have o: "\<And>n s. vothers env n s = s" using assms(1) by (simp add: vundisturbed_def)
  obtain f w2 where f: "run_state (fetchPublicKeysWithFallback env (jwkCachePath (shared w))) w1 = (f, w2)" by fastforce
  obtain g v where g: "run_state (fetchPublicKeys env) w1 = (g, v)" by fastforce
  have "shared v = shared w1" using run_fetchPublicKeys_shared[of env w1] g by simp
  then have keys: "tv_keys (shared w2) = tv_keys (shared w1)"
    using f g
    by (auto simp: fetchPublicKeysWithFallback_def loadJWKCacheFromDisk_def persistJWKCacheToDisk_def o
        split: sum.splits if_splits)
  have f': "run_state (fetchPublicKeysWithFallback env (jwkCachePath (shared w)))
      (w\<lparr>shared := (shared w)\<lparr>refreshInFlight := True\<rparr>, ticks := Suc (Suc (ticks w))\<rparr>) = (f, w2)"
    using f by (simp add: assms(3))
  have keys': "tv_keys (shared w2) = tv_keys (shared w)" using keys by (simp add: assms(3))
  have "fetched = f" using assms(4) f by simp
  then show ?thesis
    using assms(2)
    by (cases "refreshInFlight (shared w)"; cases f)
      (auto simp: refreshKeys_def loadJWKSet_def o f' keys' split: if_splits)
qed

theorem refresh_behaviour_witness:
  "tv_keys (shared (snd (run_state (refreshKeys old_venv) demo_vworld))) = Map.empty"
proof -
  have und: "vundisturbed old_venv" by (simp add: vundisturbed_def old_venv_def)
  have err: "version_error old_venv (DoRaw old_venv n versionEndpoint) = Some (unsupported_version old_venv 133)" for n
    by (simp add: old_venv_def demo_venv_def version_error_def minK8sVersion_def)
  have un: "errors_Is (unsupported_version old_venv 133) ErrUnsupportedK8sVersion"
    by (simp add: unsupported_version_def errors_Is_def)
  have f: "fst (run_state (fetchPublicKeysWithFallback old_venv path) w) = Inl (unsupported_version old_venv 133)" for path w
    by (simp add: fetchPublicKeysWithFallback_def fetchPublicKeys_def err un)
  have "\<not> refreshInFlight (shared demo_vworld)" by (simp add: demo_vworld_def demo_validator_def)
  then show ?thesis
    using refresh_behaviour[OF und surjective_pairing refl refl, of demo_vworld] by (simp add: f un)
qed

text \<open>
  The key a set gives for an id is the first of its keys with that id that can be parsed;
  an id with no such key has none.
\<close>

lemma loaded_key_is_first_parseable:
  "keys_of jwks kid =
     (case jwk_Keys jwks of
        None \<Rightarrow> None
      | Some ks \<Rightarrow>
          (case find (\<lambda>k. jwk_Kid k = kid \<and> \<not> isl (parseJWK k)) ks of
             None \<Rightarrow> None
           | Some k \<Rightarrow> Some \<lparr>ck_key = projr (parseJWK k), ck_alg = jwk_Alg k\<rparr>))"
  by (simp add: keys_of_def load_keys_first split: option.split)

text \<open>
  C32. An RSA key whose modulus and exponent are given in unpadded URL base64 of their big-endian bytes
  parses to exactly these numbers, when the exponent fits 63 bits.
\<close>

theorem rsa_key_roundtrip:
  assumes "jwk_Kty k = ''RSA''" and "list_all (\<lambda>b. b < 256) ns" and "list_all (\<lambda>b. b < 256) es"
    and "jwk_N k = RawURLEncoding_EncodeToString ns" and "jwk_E k = RawURLEncoding_EncodeToString es"
    and "SetBytes es < 2 ^ 63"
  shows "parseJWK k = Inr (RSAPublicKey (SetBytes ns) (SetBytes es))"
proof -
  have "0 \<le> foldl (\<lambda>acc b. acc * 256 + int b) a bs" if "0 \<le> a" for a bs
    using that by (induction bs arbitrary: a) simp_all
  from this[of 0 es] have "in_int64 (SetBytes es)" using assms(6) by (simp add: in_int64_def SetBytes_def)
  then show ?thesis
    using assms(1-5)
    by (simp add: parseJWK_def parseRSAKey_def decode_field_def RawURLEncoding_roundtrip int64_id)
qed

theorem rsa_key_roundtrip_witness:
  "parseJWK (zero_JWK\<lparr>jwk_Kty := ''RSA'', jwk_N := RawURLEncoding_EncodeToString [5, 7],
                     jwk_E := RawURLEncoding_EncodeToString [3]\<rparr>) = Inr (RSAPublicKey 1287 3)"
  using rsa_key_roundtrip[of "zero_JWK\<lparr>jwk_Kty := ''RSA'', jwk_N := RawURLEncoding_EncodeToString [5, 7],
                     jwk_E := RawURLEncoding_EncodeToString [3]\<rparr>" "[5, 7]" "[3]"]
  by (simp add: SetBytes_def)

end
