(* ===== verification/System_Properties.thy ===== *)
theory System_Properties
  imports Agent_System Validator_Properties Retriever_Properties Handler_Laws
begin

text \<open>
  The properties of the goroutines of an agent together, with a concrete agent: a token validator, an EKS Auth
  that answers, and a client with the token the API server's key has signed.
\<close>

section \<open>A concrete agent\<close>

definition eks_output :: AssumeRoleForPodIdentityOutput where
  "eks_output =
     \<lparr>out_Credentials = Some \<lparr>sdk_AccessKeyId = Some ''AK'', sdk_SecretAccessKey = Some ''SK'', sdk_SessionToken = Some ''ST'',
                             sdk_Expiration = Some (5000 * Second)\<rparr>,
      out_AssumedRoleUser = Some \<lparr>sdk_Arn = Some ''arn'', sdk_AssumeRoleId = Some ''id''\<rparr>,
      out_AssociationId = Some (Some ''assoc'')\<rparr>"

definition agent_env :: "(unit, public_key, TokenValidator) renv" where
  "agent_env =
     \<lparr>jwt = demo_lib, clock = (\<lambda>n. 1000 * Second + min (int n) 5000), others = alone,
      delegate = (\<lambda>n. service_GetIamCredentials (\<lambda>inp. Inr eks_output) (\<lambda>x. Inr ''7'')),
      validator = (\<lambda>n tv q. fst (run_state (ValidateToken still_venv q) new_vworld)),
      limiter_Allow = (\<lambda>n. True), limiter_Wait = (\<lambda>n. None), rnd = (\<lambda>n. 5)\<rparr>"

definition agent_opts :: "(unit, TokenValidator) CachedCredentialRetrieverOpts" where
  "agent_opts =
     \<lparr>Delegate = Some (), TokenValidator = Some demo_validator, CredentialsRenewalTtl = 600 * Second, MaxCacheSize = 5,
      RefreshQPS = 3, CleanupInterval = Minute\<rparr>"

definition agent_world :: "(TokenValidator cachedCredentialRetriever, event) world" where
  "agent_world = \<lparr>shared = newCachedCredentialRetriever agent_opts, ticks = 0, trace = []\<rparr>"

definition agent_handler :: EksCredentialHandler where
  "agent_handler =
     \<lparr>h_ClusterName = ''c'', RequestValidator = \<lparr>TargetHosts = None\<rparr>,
      CredentialRetriever = Some (newCachedCredentialRetriever agent_opts)\<rparr>"

definition agent_call :: http_request where
  "agent_call = \<lparr>Authorization = ''tok'', Host = ''169.254.170.23'', RemoteAddr = ''10.0.0.1:40000'', ReqContext = Background\<rparr>"

lemma agent_undisturbed: "undisturbed agent_env"
  by (simp add: undisturbed_def agent_env_def alone_def)

lemma agent_delegate: "delegate agent_env n q = Ret (Inr (demo_creds, ''assoc''))"
  by (simp add: agent_env_def service_GetIamCredentials_def deref_def eks_output_def demo_creds_def)

lemma agent_delegate_returns: "\<not> delegate_panics agent_env"
  by (simp add: delegate_panics_def agent_delegate)

lemma agent_pod: "getPodUIDfromServiceAccountToken (jwt agent_env) ''tok'' = Inr ''q''"
  by (simp add: getPodUIDfromServiceAccountToken_def agent_env_def demo_lib_def demo_token_def get_object_def get_string_def)

lemma agent_run:
  assumes "w' = snd (run_state (GetIamCredentials agent_env (Some (creds_request agent_handler agent_call))) (later 1 agent_world))"
  shows "run_state (GetIamCredentials agent_env (Some (creds_request agent_handler agent_call))) (later 1 agent_world) =
      (Ret (Inr demo_creds), w')"
    and "stored (internalCache (shared w')) ''q'' = Some (fetched_entry (creds_request agent_handler agent_call) demo_creds ''assoc'')"
proof -
  let ?q = "creds_request agent_handler agent_call" and ?w = "later 1 agent_world"
  obtain r w1 where run: "run_state (fetch_on_miss agent_env ?q) (later 4 ?w) = (r, w1)"
    by fastforce
  have pod: "names_pod agent_env (ServiceAccountToken ?q) ''q''"
    using agent_pod by (simp add: names_pod_def agent_call_def)
  have misses: "cache_Get t (internalCache (shared ?w)) k = None" "cache_Get t (internalActiveRequestCache (shared ?w)) k' = None"
    for t k k' by (simp_all add: agent_world_def newCachedCredentialRetriever_def OnEvicted_def OnRefresh_def cache_ops)
  have del: "delegate agent_env (6 + ticks (later 4 ?w)) ?q = Ret (Inr (demo_creds, ''assoc''))" by (simp add: agent_delegate)
  have min: "minCredentialTtl (shared (later 4 ?w)) < time_Sub (CredsExpiration demo_creds) (clock agent_env (7 + ticks (later 4 ?w)))"
    by (simp add: agent_env_def agent_world_def newCachedCredentialRetriever_def
        defaultMinCredentialTtl_def demo_creds_def Second_def time_Sub_def)
  note ms = miss_success[OF agent_undisturbed pod del refl min run]
  have eq: "run_state (GetIamCredentials agent_env (Some ?q)) ?w = (r, w1)"
    using GetIamCredentials_miss[OF agent_undisturbed _ pod misses] run by (simp add: agent_call_def)
  then show "run_state (GetIamCredentials agent_env (Some ?q)) ?w = (Ret (Inr demo_creds), w')" using ms(1) assms by simp
  have "w' = w1" using assms eq by simp
  then show "stored (internalCache (shared w')) ''q'' = Some (fetched_entry ?q demo_creds ''assoc'')"
    using ms(2) by (simp add: stored_def SetWithRefreshExpire_items new_item_def)
qed

lemma agent_valid:
  "ValidateEksCredentialRequest (jwt agent_env) t \<lparr>TargetHosts = None\<rparr> (creds_request agent_handler agent_call) = None"
proof -
  have "stripBrackets (stripHostPort ''169.254.170.23'') = ''169.254.170.23''" by code_simp
  then show ?thesis
    unfolding ValidateEksCredentialRequest_None
    by (simp add: creds_request_def agent_call_def agent_env_def demo_lib_def defaultValidTargetHosts_def DefaultIpv4TargetHost_def)
qed

lemma agent_answers:
  "\<exists>answer body w'. run_state (HandleRequest agent_env agent_handler agent_call) agent_world = (Ret answer, w') \<and>
     Body answer = JSON body \<and>
     stored (internalCache (shared w')) ''q'' = Some (fetched_entry (creds_request agent_handler agent_call) demo_creds ''assoc'')"
proof -
  define w where "w = snd (run_state (GetIamCredentials agent_env (Some (creds_request agent_handler agent_call))) (later 1 agent_world))"
  note run = agent_run[OF w_def]
  have got: "run_state (GetEksCredentials agent_env agent_handler (creds_request agent_handler agent_call)) agent_world = (Ret (Inr demo_creds), w)"
    using run(1) agent_valid by (simp add: GetEksCredentials_def agent_handler_def call_retriever_def)
  have "rfc3339nano (5000 * Second) = Some ''1970-01-01T01:23:20Z''" by code_simp
  then obtain out where "response_Marshal demo_creds = Some out"
    by (simp add: response_Marshal_def json_of_response_def demo_creds_def)
  then show ?thesis
    using got run(2) by (auto simp: HandleRequest_unfold Let_def)
qed

text \<open>The agent after it has answered this one request.\<close>

lemma agent_system_run:
  "\<exists>S g answer body. (goroutine_step agent_env agent_handler new)\<^sup>*\<^sup>* (idle_system (newCachedCredentialRetriever agent_opts)) S \<and>
     goroutines S 0 = Some g \<and> job g = HttpRequest agent_call \<and> rest g = Done (Answered answer) \<and> Body answer = JSON body \<and>
     stored (internalCache (mem S)) ''q'' = Some (fetched_entry (creds_request agent_handler agent_call) demo_creds ''assoc'')"
proof -
  let ?S = "idle_system (newCachedCredentialRetriever agent_opts) :: TokenValidator agent_system"
  obtain answer body w' where run: "run_state (HandleRequest agent_env agent_handler agent_call) agent_world = (Ret answer, w')"
    and r: "Body answer = JSON body"
      "stored (internalCache (shared w')) ''q'' = Some (fetched_entry (creds_request agent_handler agent_call) demo_creds ''assoc'')"
    using agent_answers by blast
  have "run_state (HandleRequest agent_env agent_handler agent_call) \<lparr>shared = mem ?S, ticks = time ?S, trace = []\<rparr> = (Ret answer, w')"
    using run by (simp add: agent_world_def idle_system_def)
  from request_alone[OF _ _ _ this, of 0 new] obtain S where S: "(some_goroutine_steps agent_env agent_handler new)\<^sup>*\<^sup>* ?S S"
    and g: "goroutines S 0 = Some \<lparr>job = HttpRequest agent_call, started = time ?S, rest = Done (Answered answer)\<rparr>" "mem S = shared w'"
    by (auto simp: idle_system_def agent_env_def)
  show ?thesis
    using uncrashed_steps[OF S no_crash[OF S agent_delegate_returns]] g r by fastforce
qed

section \<open>The shared memory\<close>

text \<open>
  C4. In every interleaving of any number of requests, sweeps of the janitor with their renewals, and initializations of the token
  validator: the memory of the retriever is one the protocol reaches; the cache holds under each pod's
  UID only credentials the delegate issued for that pod, with an originating request whose token names
  that pod and was accepted; and it never holds more entries than \<open>MaxCacheSize\<close>, when that is positive.
\<close>

theorem shared_memory_is_sound:
  assumes "(goroutine_step env h new)\<^sup>*\<^sup>* (idle_system (newCachedCredentialRetriever opts)) S"
  shows "(retriever_step env)\<^sup>*\<^sup>* (newCachedCredentialRetriever opts) (mem S) \<and>
    (\<forall>k e. stored (internalCache (mem S)) k = Some e \<longrightarrow> genuine env k e) \<and>
    (0 < MaxCacheSize opts \<longrightarrow> int (ItemCount (internalCache (mem S))) \<le> MaxCacheSize opts)"
  using agent_results(1,2)[OF goroutine_steps[OF assms]] reachable_count[OF agent_results(1)[OF goroutine_steps[OF assms]]]
  by (simp add: retriever_inv_def)

theorem shared_memory_is_sound_witness:
  "\<exists>S e. (goroutine_step agent_env agent_handler (\<lambda>n. Inr demo_validator))\<^sup>*\<^sup>* (idle_system (newCachedCredentialRetriever agent_opts)) S \<and>
     stored (internalCache (mem S)) ''q'' = Some e \<and> issued agent_env ''q'' (entry_credentials e) \<and>
     int (ItemCount (internalCache (mem S))) \<le> 5"
proof -
  obtain S e where S: "(goroutine_step agent_env agent_handler (\<lambda>n. Inr demo_validator))\<^sup>*\<^sup>* (idle_system (newCachedCredentialRetriever agent_opts)) S"
    and e: "stored (internalCache (mem S)) ''q'' = Some e"
    using agent_system_run by blast
  then show ?thesis using shared_memory_is_sound[OF S] by (auto simp: agent_opts_def genuine_def)
qed

section \<open>One initialization of the token validator at a time\<close>

text \<open>
  C14. However many requests find the agent without a token validator, one goroutine at a time tries to make one: in every
  reachable state at most one goroutine started by \<open>tryInitTokenValidator\<close> has not ended, and until it has, \<open>tvInitInFlight\<close>
  is up, so that no further one is started.
\<close>

theorem one_initialization_at_a_time:
  assumes "(goroutine_step env h new)\<^sup>*\<^sup>* (idle_system s) S" and "\<not> tvInitInFlight s"
    and "goroutines S i = Some g" and "job g = InitTokenValidator" and "\<nexists>x. rest g = Done x"
  shows "tvInitInFlight (mem S) \<and>
    (\<forall>j g'. goroutines S j = Some g' \<and> job g' = InitTokenValidator \<and> (\<nexists>x. rest g' = Done x) \<longrightarrow> j = i)"
  using agent_initializations[OF assms(1,2)] assms(3-5) by (metis option.discI option.inject)

text \<open>A retriever without a validator holds credentials that were fetched with the token \<open>a\<close>; a request comes with the token \<open>b\<close>.\<close>

definition rotated_retriever :: "unit cachedCredentialRetriever" where
  "rotated_retriever = (newCachedCredentialRetriever (demo_opts\<lparr>TokenValidator := None\<rparr>))\<lparr>internalCache :=
     fst (SetWithRefreshExpire 0 0 (internalCache (newCachedCredentialRetriever demo_opts :: unit cachedCredentialRetriever))
           ''p'' stored_entry (3000 * Second) (4000 * Second))\<rparr>"

definition rotated_handler :: EksCredentialHandler where
  "rotated_handler = \<lparr>h_ClusterName = ''c'', RequestValidator = \<lparr>TargetHosts = None\<rparr>,
     CredentialRetriever = CredentialRetriever agent_handler\<rparr>"

definition rotated_system :: "unit agent_system" where
  "rotated_system = schedule (agent_code quiet_env rotated_handler (\<lambda>n. Inr ())) agent_starts 0 1 8
     (launch (agent_code quiet_env rotated_handler (\<lambda>n. Inr ())) 0 (HttpRequest (agent_call\<lparr>Authorization := ''b''\<rparr>))
       (idle_system rotated_retriever))"

theorem one_initialization_at_a_time_witness:
  "tvInitInFlight (mem rotated_system) \<and> job (the (goroutines rotated_system 1)) = InitTokenValidator"
proof -
  have steps: "(some_goroutine_steps quiet_env rotated_handler (\<lambda>n. Inr ()))\<^sup>*\<^sup>* (idle_system rotated_retriever) rotated_system"
    unfolding rotated_system_def by (rule arrives_schedule) (simp add: agent_arrives_def)
  have down: "\<not> tvInitInFlight rotated_retriever"
    by (simp add: rotated_retriever_def newCachedCredentialRetriever_def)
  have host: "stripBrackets (stripHostPort ''169.254.170.23'') = ''169.254.170.23''" by code_simp
  have ok: "ValidateEksCredentialRequest (jwt quiet_env) t \<lparr>TargetHosts = None\<rparr>
      (creds_request rotated_handler (agent_call\<lparr>Authorization := ''b''\<rparr>)) = None" for t
    unfolding ValidateEksCredentialRequest_None
    by (simp add: host creds_request_def agent_call_def quiet_env_def demo_env_def demo_jwt_def defaultValidTargetHosts_def
        DefaultIpv4TargetHost_def)
  have pod: "getPodUIDfromServiceAccountToken (jwt quiet_env) ''b'' = Inr ''p''" by code_simp
  have hit: "cache_Get (clock quiet_env n) (internalCache rotated_retriever) ''p'' = Some stored_entry" for n
    by (simp add: rotated_retriever_def cache_Get_set Expired_new_item quiet_clock Second_def in_int64_def UnixNano_def int64_id)
  have ttl: "minCredentialTtl rotated_retriever < time_Sub (CredsExpiration (entry_credentials stored_entry)) (clock quiet_env n)" for n
    by (simp add: rotated_retriever_def newCachedCredentialRetriever_def defaultMinCredentialTtl_def stored_entry_def demo_creds_def
        quiet_clock Second_def time_Sub_def)
  have none: "tokenValidator rotated_retriever = None"
    by (simp add: rotated_retriever_def newCachedCredentialRetriever_def demo_opts_def)
  have handler: "RequestValidator rotated_handler = \<lparr>TargetHosts = None\<rparr>"
    "CredentialRetriever rotated_handler = Some (newCachedCredentialRetriever agent_opts)"
    "Authorization (agent_call\<lparr>Authorization := ''b''\<rparr>) = ''b''"
    by (simp_all add: rotated_handler_def agent_handler_def agent_call_def)
  have tok: "ServiceAccountToken (originatingRequest stored_entry) = ''a''" by (simp add: stored_entry_def demo_req_def)
  have "\<exists>g. goroutines rotated_system 1 = Some g \<and> job g = InitTokenValidator \<and> (\<nexists>x. rest g = Done x)" "\<not> crashed rotated_system"
    by (simp_all add: rotated_system_def crashed_def numeral_eq_Suc move_def idle_system_def Let_def
        t_HandleRequest_def t_GetEksCredentials_def t_call_retriever_def t_GetIamCredentials_def t_tryServing_def t_cache_Get_def
        t_ttl_def t_read_def t_Now_def t_tryInit_def t_tvInit_def t_inc_def handler
        t_section_def t_emit_def t_ask_def ok pod hit ttl none tok down agent_starts_def)
  then obtain g where g: "goroutines rotated_system 1 = Some g" "job g = InitTokenValidator" "\<nexists>x. rest g = Done x"
    and calm: "\<not> crashed rotated_system" by blast
  then show ?thesis using one_initialization_at_a_time[OF uncrashed_steps[OF steps calm] down g] by simp
qed

end
