(* ===== verification/Failure_Properties.thy ===== *)
theory Failure_Properties
  imports System_Properties
begin

text \<open>
  What becomes of the failures of EKS Auth: errors are handed on to the client, and an incomplete answer, on which the
  service panics, closes the connection of a request but ends the agent when it comes in a renewal.
\<close>

section \<open>Errors\<close>

text \<open>The message of an API error as the client reads it.\<close>

definition api_error_text :: "string \<Rightarrow> api_error \<Rightarrow> msg" where
  "api_error_text rid ae =
     [Txt ''['', Txt rid, Txt '']'', Txt '': '', Txt ''('', Txt (ErrorCode ae), Txt ''): '', Txt (ErrorMessage ae),
      Txt '', fault: '', Txt (ErrorFault ae)]"

lemma api_error_classified:
  assumes "err = Wrapped p1 (Wrapped p2 (OperationError service operation m (ResponseError code rid m' (APIError ae m''))) q2) q1"
  shows "HandleCredentialFetchingError err = (api_error_text rid ae, if code \<noteq> 0 then code else 500)"
  unfolding assms
  by (simp add: HandleCredentialFetchingError_def errors_As_def List.map_filter_simps api_error_text_def
      StatusInternalServerError_def)

lemma miss_error:
  assumes "undisturbed env" and "names_pod env (ServiceAccountToken req) uid" and "delegate env (6 + ticks w) req = Ret (Inl err)"
  shows "\<exists>w'. run_state (fetch_on_miss env req) w =
      (Ret (Inl (Wrapped [Txt ''error getting credentials to cache: ''] err [])), w') \<and>
    trace w' = trace w @ [Inc ''pod_identity_cache_state'' [''miss''], CallDelegate req]"
  using assms(3)
  by (simp add: fetch_on_miss_def quiet_runs[OF assms(1)] callDelegate_error[OF assms(1,2)] eval_nat_numeral)

text \<open>
  C23. An error of EKS Auth reaches the client. When a valid request misses the cache and EKS Auth refuses it, the client gets the status
  of the service's HTTP response (500 where there was none) and a message with the request id, the error's code, its text and its fault,
  through the two layers that wrap the error; the service is called once, nothing is cached, and the token is not left marked.
\<close>

theorem service_errors_reach_the_client:
  assumes "undisturbed env" and "delegate env = (\<lambda>n. service_GetIamCredentials (AssumeRoleForPodIdentity n) arn_AccountID)"
    and "CredentialRetriever h \<noteq> None"
    and "ValidateEksCredentialRequest (jwt env) (clock env (ticks w)) (RequestValidator h) (creds_request h req) = None"
    and "getPodUIDfromServiceAccountToken (jwt env) (Authorization req) = Inr uid" and "Authorization req \<noteq> ''''"
    and "cache_Get (clock env (1 + ticks w)) (internalCache (shared w)) uid = None"
    and "cache_Get (clock env (3 + ticks w)) (internalActiveRequestCache (shared w)) (Authorization req) = None"
    and "AssumeRoleForPodIdentity (11 + ticks w) \<lparr>in_ClusterName = h_ClusterName h, in_Token = Authorization req\<rparr> =
      Inl (OperationError service operation m (ResponseError code rid m' (APIError ae m'')))"
    and "status = (if code \<noteq> 0 then code else 500)"
  shows "\<exists>w'. run_state (HandleRequest env h req) w = (Ret (http_Error (api_error_text rid ae) status), w') \<and>
    trace w' = trace w @ [Inc ''pod_identity_cache_state'' [''miss''], CallDelegate (creds_request h req),
                          Inc ''pod_identity_http_response'' [Itoa status]] \<and>
    internalCache (shared w') = internalCache (shared w) \<and>
    items (internalActiveRequestCache (shared w')) (Authorization req) = None"
proof -
  let ?q = "creds_request h req" and ?w = "later 1 w"
  let ?err = "Wrapped [Txt ''unable to fetch credentials from EKS Auth: '']
    (OperationError service operation m (ResponseError code rid m' (APIError ae m''))) []"
  have pod: "names_pod env (ServiceAccountToken ?q) uid" using assms(5) by (simp add: names_pod_def)
  have "delegate env (6 + ticks (later 4 ?w)) ?q = Ret (Inl ?err)"
    using assms(9) by (simp add: assms(2) service_GetIamCredentials_def creds_request_def eval_nat_numeral)
  from miss_error[OF assms(1) pod this] obtain w' where
    run: "run_state (fetch_on_miss env ?q) (later 4 ?w) =
      (Ret (Inl (Wrapped [Txt ''error getting credentials to cache: ''] ?err [])), w')"
    and tr: "trace w' = trace w @ [Inc ''pod_identity_cache_state'' [''miss''], CallDelegate ?q]" by auto
  have "run_state (GetIamCredentials env (Some ?q)) ?w = run_state (fetch_on_miss env ?q) (later 4 ?w)"
    using assms(6-8) by (intro GetIamCredentials_miss[OF assms(1) _ pod]) (simp_all add: eval_nat_numeral)
  then have got: "run_state (GetEksCredentials env h ?q) w =
      (Ret (Inl (Wrapped [Txt ''error getting credentials to cache: ''] ?err [])), w')"
    using run assms(3,4) by (simp add: GetEksCredentials_def call_retriever_def)
  have same: "internalCache (shared w') = internalCache (shared w)"
    using failed_miss_keeps_cache[OF assms(1) run] by simp
  have unmarked: "items (internalActiveRequestCache (shared w')) (Authorization req) = None"
    using miss_lowers_mark[OF run] by simp
  show ?thesis
    using same unmarked tr by (simp add: HandleRequest_unfold got api_error_classified[OF refl] assms(10))
qed

definition gone_error :: api_error where
  "gone_error = \<lparr>api_kind = ResourceNotFoundException, ErrorCode = ''ResourceNotFoundException'', ErrorMessage = ''no association'', ErrorFault = ''client''\<rparr>"

definition refusal :: goerr where
  "refusal = OperationError ''EKS Auth'' ''AssumeRoleForPodIdentity'' [] (ResponseError 404 ''rid'' [] (APIError gone_error []))"

definition refusing_env :: "(unit, public_key, TokenValidator) renv" where
  "refusing_env = agent_env\<lparr>delegate := (\<lambda>n. service_GetIamCredentials (\<lambda>inp. Inl refusal) (\<lambda>x. Inr ''7''))\<rparr>"

theorem service_errors_reach_the_client_witness:
  "fst (run_state (HandleRequest refusing_env agent_handler agent_call) agent_world) =
     Ret (http_Error (api_error_text ''rid'' gone_error) 404)"
proof -
  have env: "undisturbed refusing_env"
    using agent_undisturbed by (simp add: undisturbed_def refusing_env_def)
  have del: "delegate refusing_env = (\<lambda>n. service_GetIamCredentials ((\<lambda>n inp. Inl refusal) n) (\<lambda>x. Inr ''7''))"
    by (simp add: refusing_env_def)
  have h: "CredentialRetriever agent_handler \<noteq> None" by (simp add: agent_handler_def)
  have valid: "ValidateEksCredentialRequest (jwt refusing_env) (clock refusing_env (ticks agent_world)) (RequestValidator agent_handler)
      (creds_request agent_handler agent_call) = None"
    using agent_valid by (simp add: refusing_env_def agent_handler_def)
  have pod: "getPodUIDfromServiceAccountToken (jwt refusing_env) (Authorization agent_call) = Inr ''q''" "Authorization agent_call \<noteq> ''''"
    using agent_pod by (simp_all add: refusing_env_def agent_call_def)
  have misses: "cache_Get t (internalCache (shared agent_world)) k = None" "cache_Get t (internalActiveRequestCache (shared agent_world)) k' = None"
    for t k k' by (simp_all add: agent_world_def newCachedCredentialRetriever_def OnEvicted_def OnRefresh_def cache_ops)
  show ?thesis
    using service_errors_reach_the_client[OF env del h valid pod misses arg_cong[where f = Inl, OF refusal_def] refl] by auto
qed

section \<open>Incomplete answers\<close>

text \<open>The service panics only on an answer that is incomplete.\<close>

lemma service_panics:
  assumes "service_GetIamCredentials call arn q = Panic"
  shows "\<exists>out. call \<lparr>in_ClusterName = ClusterName q, in_Token = ServiceAccountToken q\<rparr> = Inr out \<and> \<not> complete out"
  using assms
  by (auto simp: service_GetIamCredentials_def deref_def complete_def split: sum.splits option.splits)

text \<open>
  C15. How goroutines of the agent end, in every interleaving. An HTTP request is answered, or its connection is closed without an answer because EKS
  Auth gave an incomplete answer to this very request. A sweep of the janitor ends, or it takes the process with it, and then EKS Auth
  gave an incomplete answer to a renewal for a token that had been accepted before. The initialization of the token validator always ends.
\<close>

theorem only_incomplete_answers_crash:
  assumes "(goroutine_step env h new)\<^sup>*\<^sup>* (idle_system (newCachedCredentialRetriever opts)) S"
    and "delegate env = (\<lambda>n. service_GetIamCredentials (AssumeRoleForPodIdentity n) arn_AccountID)"
    and "goroutines S i = Some g" and "rest g = Done x"
  shows "case job g of
      HttpRequest req \<Rightarrow> (\<exists>a. x = Answered a) \<or>
        x = Aborted \<and> (\<exists>n out. started g \<le> n \<and> \<not> complete out \<and>
          AssumeRoleForPodIdentity n \<lparr>in_ClusterName = h_ClusterName h, in_Token = Authorization req\<rparr> = Inr out)
    | JanitorSweep _ _ \<Rightarrow> x = Ended \<or>
        x = Crashed \<and> (\<exists>n inp out. started g \<le> n \<and> \<not> complete out \<and> accepted env (in_Token inp) \<and>
          AssumeRoleForPodIdentity n inp = Inr out)
    | InitTokenValidator \<Rightarrow> x = Ended"
proof -
  have promise: "agent_promise env h (job g) (started g) x"
    by (rule agent_results(3)[OF goroutine_steps[OF assms(1)] assms(3,4)])
  have incomplete: "\<exists>k out. n \<le> k \<and> \<not> complete out \<and>
      AssumeRoleForPodIdentity k \<lparr>in_ClusterName = ClusterName q, in_Token = ServiceAccountToken q\<rparr> = Inr out"
    if "panics_on env n q" for n q
    using that service_panics unfolding panics_on_def assms(2) by blast
  show ?thesis
  proof (cases "job g")
    case (HttpRequest req)
    then show ?thesis
      using promise incomplete[of "started g" "creds_request h req"] by (auto simp: agent_promise_def creds_request_def)
  next
    case (JanitorSweep ord1 ord2)
    have "\<exists>n inp out. started g \<le> n \<and> \<not> complete out \<and> accepted env (in_Token inp) \<and> AssumeRoleForPodIdentity n inp = Inr out"
      if panic: "renewal_panics env (started g)"
    proof -
      obtain q where "panics_on env (started g) q" "accepted env (ServiceAccountToken q)"
        using panic by (auto simp: renewal_panics_def)
      then show ?thesis using incomplete[of "started g" q] by (metis AssumeRoleForPodIdentityInput.select_convs(2))
    qed
    then show ?thesis using promise JanitorSweep by (auto simp: agent_promise_def)
  next
    case InitTokenValidator
    then show ?thesis using promise by (simp add: agent_promise_def)
  qed
qed

text \<open>
  EKS Auth answers a first request completely; when the janitor renews the credentials, the answer has no association.
\<close>

definition answer_at :: "nat \<Rightarrow> AssumeRoleForPodIdentityOutput" where
  "answer_at n = (if n < 17 then eks_output else eks_output\<lparr>out_AssociationId := None\<rparr>)"

definition partial_env :: "(unit, public_key, TokenValidator) renv" where
  "partial_env = agent_env\<lparr>
     clock := (\<lambda>n. if n < 17 then 1000 * Second else 2000 * Second),
     delegate := (\<lambda>n. service_GetIamCredentials
       (\<lambda>inp. Inr (answer_at n)) (\<lambda>x. Inr ''7''))\<rparr>"

definition the_key :: "(string \<rightharpoonup> cacheEntry Item) \<Rightarrow> string list" where
  "the_key m = (if m ''q'' = None then [] else [''q''])"

abbreviation first_request :: EksCredentialsRequest where
  "first_request \<equiv> creds_request agent_handler agent_call"

lemma partial_facts:
  "undisturbed partial_env" "others partial_env = alone" "names_pod partial_env ''tok'' ''q''"
  "n < 17 \<Longrightarrow> delegate partial_env n q = Ret (Inr (demo_creds, ''assoc''))"
  "17 \<le> n \<Longrightarrow> delegate partial_env n q = Panic"
  "clock partial_env n = (if n < 17 then 1000 * Second else 2000 * Second)"
  "limiter_Allow partial_env n" "limiter_Wait partial_env n = None"
  using agent_undisturbed agent_pod
  by (simp_all add: partial_env_def undisturbed_def names_pod_def agent_env_def service_GetIamCredentials_def deref_def answer_at_def
      eks_output_def demo_creds_def)

lemma partial_request:
  "\<exists>w'. run_state (GetIamCredentials partial_env (Some first_request)) (later 1 agent_world) = (Ret (Inr demo_creds), w') \<and>
     ticks w' = 19 \<and>
     internalCache (shared w') = fst (SetWithRefreshExpire (1000 * Second) (1000 * Second) (internalCache (shared agent_world)) ''q''
       (fetched_entry first_request demo_creds ''assoc'') (600 * Second) (4000 * Second))"
proof -
  let ?w = "later 1 agent_world"
  obtain r w1 where run: "run_state (fetch_on_miss partial_env first_request) (later 4 ?w) = (r, w1)" by fastforce
  have pod: "names_pod partial_env (ServiceAccountToken first_request) ''q''"
    using partial_facts(3) by (simp add: agent_call_def)
  have misses: "cache_Get t (internalCache (shared ?w)) k = None" "cache_Get t (internalActiveRequestCache (shared ?w)) k' = None"
    for t k k' by (simp_all add: agent_world_def newCachedCredentialRetriever_def OnEvicted_def OnRefresh_def cache_ops)
  have w: "ticks agent_world = 0" "credentialsRenewalTtl (shared agent_world) = 600 * Second"
    "minCredentialTtl (shared agent_world) = 15 * Second"
    by (simp_all add: agent_world_def newCachedCredentialRetriever_def agent_opts_def defaultMinCredentialTtl_def)
  have sub: "time_Sub (CredsExpiration demo_creds) (1000 * Second) = 4000 * Second"
    by (simp add: demo_creds_def time_Sub_def Second_def)
  have ttl: "minDuration (4000 * Second) (600 * Second) = 600 * Second" by (simp add: minDuration_def Second_def)
  have del: "delegate partial_env (6 + ticks (later 4 ?w)) first_request = Ret (Inr (demo_creds, ''assoc''))"
    by (rule partial_facts(4)) (simp add: w)
  have min: "minCredentialTtl (shared (later 4 ?w)) < time_Sub (CredsExpiration demo_creds) (clock partial_env (7 + ticks (later 4 ?w)))"
    by (simp add: w partial_facts(6) sub) (simp add: Second_def)
  note ms = miss_success[OF partial_facts(1) pod del refl min run]
  have "run_state (GetIamCredentials partial_env (Some first_request)) ?w = (r, w1)"
    using GetIamCredentials_miss[OF partial_facts(1) _ pod misses] run by (simp add: agent_call_def)
  then show ?thesis
    using ms by (intro exI[of _ w1]) (simp add: w partial_facts(6) sub ttl)
qed

lemma partial_answer:
  "\<exists>answer w'. run_state (HandleRequest partial_env agent_handler agent_call) agent_world = (Ret answer, w') \<and> ticks w' = 19 \<and>
     due_refresh the_key (2000 * Second) (shared w') = [Renewal ''q'' (fetched_entry first_request demo_creds ''assoc'')]"
proof -
  obtain w' where run: "run_state (GetIamCredentials partial_env (Some first_request)) (later 1 agent_world) = (Ret (Inr demo_creds), w')"
    and w': "ticks w' = 19" "internalCache (shared w') =
      fst (SetWithRefreshExpire (1000 * Second) (1000 * Second) (internalCache (shared agent_world)) ''q''
        (fetched_entry first_request demo_creds ''assoc'') (600 * Second) (4000 * Second))"
    using partial_request by blast
  have got: "run_state (GetEksCredentials partial_env agent_handler first_request) agent_world = (Ret (Inr demo_creds), w')"
    using run agent_valid by (simp add: GetEksCredentials_def agent_handler_def call_retriever_def partial_env_def)
  have "rfc3339nano (5000 * Second) = Some ''1970-01-01T01:23:20Z''" by code_simp
  then obtain out where out: "response_Marshal demo_creds = Some out"
    by (simp add: response_Marshal_def json_of_response_def demo_creds_def)
  have callbacks: "onRefresh (internalCache (shared w')) = Some Renewal"
    by (simp add: w'(2) cache_frame agent_world_def newCachedCredentialRetriever_def OnEvicted_def OnRefresh_def)
  have "items (internalCache (shared w')) ''q'' = Some (new_item (1000 * Second) (1000 * Second) (internalCache (shared agent_world))
      (fetched_entry first_request demo_creds ''assoc'') (600 * Second) (4000 * Second))"
    by (simp add: w'(2) SetWithRefreshExpire_items)
  moreover have "UnixNano (1600 * Second) = 1600 * Second" "UnixNano (2000 * Second) = 2000 * Second"
    by (simp_all add: UnixNano_def int64_id in_int64_def Second_def)
  ultimately have "due_refresh the_key (2000 * Second) (shared w') = [Renewal ''q'' (fetched_entry first_request demo_creds ''assoc'')]"
    by (simp add: due_refresh_def callbacks itemsRequiringRefresh_def the_key_def List.map_filter_simps new_item_def deadline_def
        DefaultExpiration_def time_Add_def) (simp add: Second_def)
  then show ?thesis using got w'(1) out by (simp add: HandleRequest_unfold)
qed

lemma partial_crash:
  "\<exists>S. (some_goroutine_steps partial_env agent_handler new)\<^sup>*\<^sup>* (idle_system (newCachedCredentialRetriever agent_opts)) S \<and> crashed S"
proof -
  let ?S = "idle_system (newCachedCredentialRetriever agent_opts) :: TokenValidator agent_system"
  obtain answer w' where run: "run_state (HandleRequest partial_env agent_handler agent_call) agent_world = (Ret answer, w')"
    and w': "ticks w' = 19" "due_refresh the_key (2000 * Second) (shared w') = [Renewal ''q'' (fetched_entry first_request demo_creds ''assoc'')]"
    using partial_answer by blast
  have "run_state (HandleRequest partial_env agent_handler agent_call) \<lparr>shared = mem ?S, ticks = time ?S, trace = []\<rparr> = (Ret answer, w')"
    using run by (simp add: agent_world_def idle_system_def)
  from request_alone[OF _ _ partial_facts(2) this, of 0 new] obtain S where
    S: "(some_goroutine_steps partial_env agent_handler new)\<^sup>*\<^sup>* ?S S" "mem S = shared w'" "time S = 19" "finite (dom (goroutines S))"
    using w'(1) by (auto simp: idle_system_def)
  obtain i where "goroutines S i = None" using S(4) by (metis domIff ex_new_if_finite infinite_UNIV_nat)
  moreover have "fst (run_state (janitor_sweep partial_env the_key the_key) \<lparr>shared = mem S, ticks = time S, trace = []\<rparr>) = Panic"
    using partial_facts(3) w'(2)
    by (intro sweep_panic[OF partial_facts(1), where k = "''q''" and uid = "''q''" and cbs = "[]"
          and e = "fetched_entry first_request demo_creds ''assoc''"])
      (simp_all add: S partial_facts fetched_entry_def agent_call_def)
  ultimately have "\<exists>T. (some_goroutine_steps partial_env agent_handler new)\<^sup>*\<^sup>* S T \<and> crashed T"
    using S(4) by (intro sweep_alone[OF _ _ partial_facts(2)]) (simp_all add: prod_eq_iff)
  then show ?thesis using S(1) by (meson rtranclp_trans)
qed

theorem only_incomplete_answers_crash_witness:
  "\<exists>S i g. (goroutine_step partial_env agent_handler (\<lambda>n. Inr demo_validator))\<^sup>*\<^sup>* (idle_system (newCachedCredentialRetriever agent_opts)) S \<and>
     goroutines S i = Some g \<and> rest g = Done Crashed \<and>
     (\<exists>n. started g \<le> n \<and> \<not> complete (answer_at n))"
proof -
  have idle: "\<not> crashed (idle_system s)" for s :: "TokenValidator cachedCredentialRetriever"
    by (simp add: crashed_def idle_system_def)
  obtain S i g where S: "(goroutine_step partial_env agent_handler (\<lambda>n. Inr demo_validator))\<^sup>*\<^sup>* (idle_system (newCachedCredentialRetriever agent_opts)) S"
    and g: "goroutines S i = Some g" "rest g = Done Crashed"
    using partial_crash first_crash[OF _ _ idle] unfolding crashed_def by metis
  have del: "delegate partial_env = (\<lambda>n. service_GetIamCredentials
      ((\<lambda>n inp. Inr (answer_at n)) n) (\<lambda>x. Inr ''7''))"
    by (simp add: partial_env_def)
  have "\<exists>n. started g \<le> n \<and> \<not> complete (answer_at n)"
    using only_incomplete_answers_crash[OF S del g] by (cases "job g") auto
  then show ?thesis using S g by blast
qed

end
