(* ===== verification/Iproute.thy ===== *)
theory Iproute
  imports Credentials "HOL-Library.Word"
begin

text \<open>
  The initializer, \<open>src/pkg/initalizer\<close>: it creates the agent's network interface, attaches the
  link-local addresses, brings it up and adds the routes. The netlink library is an argument,
  a record of its operations on a state of the network it alone knows. \<open>netlink.ParseAddr\<close> of the two
  constant addresses gives the constants below. Next to the result, each program returns the list of
  the calls it made that change the network, in order.
\<close>

unbundle bit_operations_syntax

section \<open>IP networks (package \<open>net\<close>)\<close>

type_synonym ip = "8 word list"

record IPNet =
  net_IP :: ip
  net_Mask :: ip

definition To4 :: "ip \<Rightarrow> ip option" where
  "To4 a =
     (if length a = 4 then Some a
      else if length a = 16 \<and> list_all (\<lambda>b. b = 0) (take 10 a) \<and> a ! 10 = 255 \<and> a ! 11 = 255
      then Some (drop 12 a) else None)"

definition networkNumberAndMask :: "IPNet \<Rightarrow> (ip \<times> ip) option" where
  "networkNumberAndMask n =
     (let a = (case To4 (net_IP n) of Some x \<Rightarrow> x | None \<Rightarrow> net_IP n); m = net_Mask n in
      if length a \<noteq> 4 \<and> length a \<noteq> 16 then None
      else if length m = 4 then (if length a \<noteq> 4 then None else Some (a, m))
      else if length m = 16 then (if length a = 4 then Some (a, drop 12 m) else Some (a, m))
      else None)"

definition IPNet_Contains :: "IPNet \<Rightarrow> ip \<Rightarrow> bool" where
  "IPNet_Contains n a =
     (let x = (case To4 a of Some y \<Rightarrow> y | None \<Rightarrow> a) in
      case networkNumberAndMask n of
        None \<Rightarrow> length x = 0
      | Some (nn, m) \<Rightarrow>
          length x = length nn \<and> list_all (\<lambda>i. (nn ! i) AND (m ! i) = (x ! i) AND (m ! i)) [0..<length x])"

section \<open>Netlink\<close>

definition AF_INET :: int where
  "AF_INET = 2"

definition AF_INET6 :: int where
  "AF_INET6 = 10"

record nl_link =
  link_Name :: string
  link_Index :: int

record nl_route =
  rt_LinkIndex :: int
  rt_Dst :: "IPNet option"

text \<open>\<open>LinkByName\<close> tells a missing link from other errors.\<close>

datatype link_error = LinkNotFound goerr | OtherLinkError goerr

primrec link_err :: "link_error \<Rightarrow> goerr" where
  "link_err (LinkNotFound e) = e"
| "link_err (OtherLinkError e) = e"

record 'n NetlinkHandle =
  LinkByName :: "'n \<Rightarrow> string \<Rightarrow> link_error + nl_link"
  LinkAdd :: "'n \<Rightarrow> string \<Rightarrow> goerr option \<times> 'n"
  LinkSetUp :: "'n \<Rightarrow> nl_link \<Rightarrow> goerr option \<times> 'n"
  AddrList :: "'n \<Rightarrow> nl_link \<Rightarrow> int \<Rightarrow> goerr + IPNet list"
  AddrAdd :: "'n \<Rightarrow> nl_link \<Rightarrow> IPNet \<Rightarrow> goerr option \<times> 'n"
  RouteList :: "'n \<Rightarrow> int \<Rightarrow> goerr + nl_route list"
  RouteAdd :: "'n \<Rightarrow> nl_route \<Rightarrow> goerr option \<times> 'n"

datatype nl_call = CallLinkAdd string | CallLinkSetUp string | CallAddrAdd IPNet | CallRouteAdd nl_route

record AddrFamily =
  Family :: int
  LinkLocalAddr :: "IPNet option"

section \<open>The link\<close>

definition createLink ::
  "'n NetlinkHandle \<Rightarrow> string \<Rightarrow> 'n \<Rightarrow> (goerr + nl_link) \<times> 'n \<times> nl_call list" where
  "createLink h name n =
     (let (err, n') = LinkAdd h n name in
      case err of
        Some e \<Rightarrow> (Inl e, n', [CallLinkAdd name])
      | None \<Rightarrow> (map_sum link_err id (LinkByName h n' name), n', [CallLinkAdd name]))"

definition CreateOrGetLink ::
  "'n NetlinkHandle \<Rightarrow> 'n \<Rightarrow> (goerr + nl_link) \<times> 'n \<times> nl_call list" where
  "CreateOrGetLink h n =
     (case LinkByName h n AgentLinkName of
        Inr link \<Rightarrow> (Inr link, n, [])
      | Inl (OtherLinkError err) \<Rightarrow>
          (Inl (Wrapped [Txt ''error finding '', Txt AgentLinkName, Txt '': ''] err []), n, [])
      | Inl (LinkNotFound _) \<Rightarrow>
          (let (r, n', calls) = createLink h AgentLinkName n in
           (map_sum (\<lambda>err. Wrapped [Txt ''unable to create interface '', Txt AgentLinkName, Txt '': ''] err []) id r,
            n', calls)))"

definition isIpAttachedToLink :: "'n NetlinkHandle \<Rightarrow> nl_link \<Rightarrow> int \<Rightarrow> IPNet \<Rightarrow> 'n \<Rightarrow> goerr + bool" where
  "isIpAttachedToLink h link ipFamily addr n =
     (case AddrList h n link ipFamily of
        Inl err \<Rightarrow> Inl err
      | Inr addrList \<Rightarrow> Inr (list_ex (\<lambda>al. IPNet_Contains al (net_IP addr)) addrList))"

definition SetupForAddrFamily ::
  "'n NetlinkHandle \<Rightarrow> nl_link \<Rightarrow> AddrFamily \<Rightarrow> 'n \<Rightarrow> goerr option \<times> 'n \<times> nl_call list" where
  "SetupForAddrFamily h link fam n =
     (case LinkLocalAddr fam of
        None \<Rightarrow>
          (Some (Plain [Txt ''family 0x'', Hex (Family fam), Txt '' does not specify a link-local addr to bind to'']), n, [])
      | Some addr \<Rightarrow>
          (case isIpAttachedToLink h link (Family fam) addr n of
             Inl err \<Rightarrow> (Some err, n, [])
           | Inr True \<Rightarrow> (None, n, [])
           | Inr False \<Rightarrow> (let (err, n') = AddrAdd h n link addr in (err, n', [CallAddrAdd addr]))))"

definition BringUp :: "'n NetlinkHandle \<Rightarrow> nl_link \<Rightarrow> 'n \<Rightarrow> goerr option \<times> 'n \<times> nl_call list" where
  "BringUp h link n = (let (err, n') = LinkSetUp h n link in (err, n', [CallLinkSetUp (link_Name link)]))"

section \<open>Routes\<close>

definition dstRoutesEq :: "nl_route \<Rightarrow> nl_route \<Rightarrow> bool" where
  "dstRoutesEq rt1 rt2 =
     (case (rt_Dst rt1, rt_Dst rt2) of
        (Some d1, Some d2) \<Rightarrow> IPNet_Contains d1 (net_IP d2) \<and> IPNet_Contains d2 (net_IP d1)
      | _ \<Rightarrow> False)"

definition net_piece :: "IPNet option \<Rightarrow> piece" where
  "net_piece d = Val (case d of None \<Rightarrow> [] | Some n \<Rightarrow> map uint (net_IP n @ net_Mask n))"

definition validateRouteLinkMatch :: "nl_link \<Rightarrow> nl_route \<Rightarrow> goerr option" where
  "validateRouteLinkMatch link existing =
     (if rt_LinkIndex existing \<noteq> link_Index link
      then Some (Plain [Txt ''expected route '', net_piece (rt_Dst existing), Txt '' to be interface index '',
                        Num (link_Index link), Txt '' but is '',
                        Num (rt_LinkIndex existing), Txt '', please remove route and try again''])
      else None)"

text \<open>The scan of the route list: the answer for the first route with the same destination, if there is one.\<close>

fun find_route :: "nl_link \<Rightarrow> nl_route \<Rightarrow> nl_route list \<Rightarrow> goerr option option" where
  "find_route link newRoute [] = None"
| "find_route link newRoute (r # rs) =
     (if dstRoutesEq r newRoute then Some (validateRouteLinkMatch link r) else find_route link newRoute rs)"

definition SetupRouteTableForAddrFamily ::
  "'n NetlinkHandle \<Rightarrow> nl_link \<Rightarrow> AddrFamily \<Rightarrow> 'n \<Rightarrow> (goerr option \<times> 'n \<times> nl_call list) go" where
  "SetupRouteTableForAddrFamily h link fam n =
     (case LinkLocalAddr fam of
        None \<Rightarrow> Panic
      | Some addr \<Rightarrow>
          (let newRoute = \<lparr>rt_LinkIndex = link_Index link, rt_Dst = Some addr\<rparr> in
           case RouteList h n (Family fam) of
             Inl err \<Rightarrow>
               Ret (Some (Wrapped [Txt ''unable to fetch newRoute list for interface '', Txt (link_Name link), Txt '': ''] err []),
                    n, [])
           | Inr routeList \<Rightarrow>
               (case find_route link newRoute routeList of
                  Some answer \<Rightarrow> Ret (answer, n, [])
                | None \<Rightarrow>
                    (let (err, n') = RouteAdd h n newRoute in
                     Ret (map_option (\<lambda>e. Plain ([Txt ''unable to create route for addr '', net_piece (Some addr), Txt '': ''] @ Error e)) err,
                          n', [CallRouteAdd newRoute])))))"

text \<open>On systems other than Linux (\<open>route_unspecified.go\<close>); \<open>netlink.ErrNotImplemented\<close> is an argument.\<close>

definition SetupRouteTableForAddrFamily_unspecified ::
  "goerr \<Rightarrow> nl_link \<Rightarrow> AddrFamily \<Rightarrow> 'n \<Rightarrow> (goerr option \<times> 'n \<times> nl_call list) go" where
  "SetupRouteTableForAddrFamily_unspecified ErrNotImplemented link fam n = Ret (Some ErrNotImplemented, n, [])"

section \<open>The executor\<close>

definition isOptionalFamily :: "int \<Rightarrow> bool" where
  "isOptionalFamily fam \<longleftrightarrow> AF_INET6 = fam"

definition ipv4LinkLocalAddr :: IPNet where
  "ipv4LinkLocalAddr = \<lparr>net_IP = [169, 254, 170, 23], net_Mask = [255, 255, 255, 255]\<rparr>"

definition ipv6LinkLocalAddr :: IPNet where
  "ipv6LinkLocalAddr =
     \<lparr>net_IP = [253, 0, 14, 194, 0, 0, 0, 0, 0, 0, 0, 0, 0, 0, 0, 35], net_Mask = replicate 16 255\<rparr>"

definition supportedFamilies :: "AddrFamily list" where
  "supportedFamilies =
     [\<lparr>Family = AF_INET, LinkLocalAddr = Some ipv4LinkLocalAddr\<rparr>,
      \<lparr>Family = AF_INET6, LinkLocalAddr = Some ipv6LinkLocalAddr\<rparr>]"

text \<open>\<open>log.Fatalf\<close> ends the process.\<close>

datatype init_result = Initialized | InitError goerr | Exited | Panicked

text \<open>One of the two loops over the families, and how it ended.\<close>

datatype loop_end = AllFamilies | FatalFamily | PanicFamily

fun family_loop ::
  "(AddrFamily \<Rightarrow> 'n \<Rightarrow> (goerr option \<times> 'n \<times> nl_call list) go) \<Rightarrow> AddrFamily list \<Rightarrow> 'n
   \<Rightarrow> loop_end \<times> 'n \<times> nl_call list" where
  "family_loop setup [] n = (AllFamilies, n, [])"
| "family_loop setup (fam # fams) n =
     (case setup fam n of
        Panic \<Rightarrow> (PanicFamily, n, [])
      | Ret (err, n1, calls1) \<Rightarrow>
          if err \<noteq> None \<and> \<not> isOptionalFamily (Family fam) then (FatalFamily, n1, calls1)
          else let (fin, n2, calls2) = family_loop setup fams n1 in (fin, n2, calls1 @ calls2))"

definition loop_result :: "loop_end \<Rightarrow> init_result" where
  "loop_result fin =
     (case fin of AllFamilies \<Rightarrow> Initialized | FatalFamily \<Rightarrow> Exited | PanicFamily \<Rightarrow> Panicked)"

text \<open>The build decides which file provides the routes.\<close>

definition Initialize_with ::
  "(nl_link \<Rightarrow> AddrFamily \<Rightarrow> 'n \<Rightarrow> (goerr option \<times> 'n \<times> nl_call list) go)
   \<Rightarrow> 'n NetlinkHandle \<Rightarrow> 'n \<Rightarrow> init_result \<times> 'n \<times> nl_call list" where
  "Initialize_with routes h n0 =
     (let (r, n1, calls1) = CreateOrGetLink h n0 in
      case r of
        Inl err \<Rightarrow> (InitError err, n1, calls1)
      | Inr link \<Rightarrow>
          (let (fin, n2, calls2) =
                 family_loop (\<lambda>fam n. Ret (SetupForAddrFamily h link fam n)) supportedFamilies n1 in
           if fin \<noteq> AllFamilies then (loop_result fin, n2, calls1 @ calls2)
           else
             (let (err, n3, calls3) = BringUp h link n2 in
              case err of
                Some e \<Rightarrow> (InitError e, n3, calls1 @ calls2 @ calls3)
              | None \<Rightarrow>
                  (let (fin', n4, calls4) =
                         family_loop (routes link) supportedFamilies n3 in
                   (loop_result fin', n4, calls1 @ calls2 @ calls3 @ calls4)))))"

definition Initialize :: "'n NetlinkHandle \<Rightarrow> 'n \<Rightarrow> init_result \<times> 'n \<times> nl_call list" where
  "Initialize h = Initialize_with (SetupRouteTableForAddrFamily h) h"

end
