(* ===== verification/Agent_Properties.thy ===== *)
theory Agent_Properties
  imports Handler_Laws Iproute
begin

text \<open>
  Properties of the request path around the retriever (request and claim validation, error
  classification, the call to EKS Auth, handlers, servers) and of the initializer.
\<close>

section \<open>Requests\<close>

text \<open>
  C20. A request passes validation exactly when the host it names, without port and brackets, is one of the
  target hosts, and its token is not empty, parses, and has valid registered claims at that
  time. Otherwise the error carries status 403 for a wrong host and 400 for a bad token.
\<close>

theorem request_validation_decides:
  "let host = stripBrackets (stripHostPort (RequestTargetHost req));
       allowed = (case TargetHosts cv of None \<Rightarrow> [''169.254.170.23'', ''fd00:ec2::23''] | Some hs \<Rightarrow> hs);
       tokenOk = (ServiceAccountToken req \<noteq> '''' \<and>
         (\<exists>claims. ParseRegistered lib (ServiceAccountToken req) = Inr claims \<and> ValidateRegistered lib now claims = None))
   in (case ValidateEksCredentialRequest lib now cv req of
         None \<Rightarrow> host \<in> set allowed \<and> tokenOk
       | Some e \<Rightarrow> if host \<in> set allowed then \<not> tokenOk \<and> HttpStatus e = Some 400 else HttpStatus e = Some 403)"
proof -
  have hosts: "defaultValidTargetHosts = [''169.254.170.23'', ''fd00:ec2::23'']"
    by (simp add: defaultValidTargetHosts_def DefaultIpv4TargetHost_def DefaultIpv6TargetHost_def)
  show ?thesis
    using ValidateEksCredentialRequest_None[of lib now cv req] ValidateEksCredentialRequest_status[of lib now cv req]
    unfolding hosts Let_def http_status
    by (cases "ValidateEksCredentialRequest lib now cv req") auto
qed

text \<open>
  The agent's addresses are recognised in every form a client may write them: the IPv4 address with and
  without a port, the IPv6 address bare, in brackets, and in brackets with a port.
\<close>

lemma agent_addresses_are_accepted:
  "let ok = (\<lambda>h. validateRequestTargetHost \<lparr>TargetHosts = None\<rparr> h = None) in
   ok ''169.254.170.23'' \<and> ok (''169.254.170.23:'' @ digits port) \<and> ok ''fd00:ec2::23'' \<and>
   ok ''[fd00:ec2::23]'' \<and> ok (''[fd00:ec2::23]:'' @ digits port)"
proof -
  have port: "plain_port (digits port)" by (rule plain_port_digits)
  have v4: "SplitHostPort (''169.254.170.23'' @ CHR '':'' # digits port) = Some (''169.254.170.23'', digits port)"
    by (rule SplitHostPort_plain[OF _ port]) (simp add: plain_host_def)
  have v6: "SplitHostPort (CHR ''['' # ''fd00:ec2::23'' @ CHR '']'' # CHR '':'' # digits port) =
      Some (''fd00:ec2::23'', digits port)"
    by (rule SplitHostPort_bracketed[OF _ _ port]) simp_all
  have rest: "SplitHostPort ''169.254.170.23'' = None" "SplitHostPort ''fd00:ec2::23'' = None"
    "SplitHostPort ''[fd00:ec2::23]'' = None" by code_simp+
  have strip: "stripBrackets ''169.254.170.23'' = ''169.254.170.23''" "stripBrackets ''fd00:ec2::23'' = ''fd00:ec2::23''"
    "stripBrackets ''[fd00:ec2::23]'' = ''fd00:ec2::23''" by code_simp+
  show ?thesis
    using v4 v6 rest strip
    by (simp add: validateRequestTargetHost_def stripHostPort_def Let_def defaultValidTargetHosts_def
        DefaultIpv4TargetHost_def DefaultIpv6TargetHost_def)
qed

text \<open>
  C21. The claims of a parsed token are accepted exactly when its header names a key id of 40 lower-case
  hexadecimal digits, the \<open>kubernetes.io\<close> claim is an object with a visible namespace, service account name
  and UID, and pod name and UID, and, unless the endpoint is overridden, the audience is
  the expected one alone.
\<close>

theorem claims_validation_decides:
  "ValidateClaims overridden t = None \<longleftrightarrow>
     (\<exists>claims kid k8s sa pod. jwt_Claims t = MapClaims claims \<and>
        get_string (jwt_Header t) ''kid'' = Some kid \<and> keyIDPattern kid \<and>
        get_object claims ''kubernetes.io'' = Some k8s \<and> has_text k8s ''namespace'' \<and>
        get_object k8s ''serviceaccount'' = Some sa \<and> has_text sa ''name'' \<and> has_text sa ''uid'' \<and>
        get_object k8s ''pod'' = Some pod \<and> has_text pod ''name'' \<and> has_text pod ''uid'' \<and>
        (overridden \<or> toStringSlice (map_of claims ''aud'') = [''pods.eks.amazonaws.com'']))"
  unfolding ValidateClaims_None validateKubernetesClaims_None expectedAudience_def by blast

section \<open>Errors\<close>

section \<open>EKS Auth\<close>

text \<open>
  C34. The service returns exactly the fields of EKS Auth's answer, with the account id of the assumed
  role's ARN, and it does not panic when EKS Auth sends no response in which a required member is
  missing next to credentials and role.
\<close>

theorem service_returns_the_answer:
  assumes "\<And>inp o'. call inp = Inr o' \<Longrightarrow> complete o'"
  shows "\<exists>r. service_GetIamCredentials call arn req = Ret r \<and>
    (\<forall>resp a. r = Inr (resp, a) \<longrightarrow>
       (\<exists>o' c user. call \<lparr>in_ClusterName = ClusterName req, in_Token = ServiceAccountToken req\<rparr> = Inr o' \<and>
          out_Credentials o' = Some c \<and> out_AssumedRoleUser o' = Some user \<and>
          sdk_AccessKeyId c = Some (AccessKeyId resp) \<and> sdk_SecretAccessKey c = Some (SecretAccessKey resp) \<and>
          sdk_SessionToken c = Some (Token resp) \<and> sdk_Expiration c = Some (CredsExpiration resp) \<and>
          (\<exists>x. sdk_Arn user = Some x \<and> arn x = Inr (AccountId resp))))"
proof -
  obtain r where r: "service_GetIamCredentials call arn req = Ret r"
    using service_no_panic[of call arn req] assms by (cases "service_GetIamCredentials call arn req") auto
  then show ?thesis using service_success[of call arn req] by blast
qed

definition demo_output :: AssumeRoleForPodIdentityOutput where
  "demo_output =
     \<lparr>out_Credentials = Some \<lparr>sdk_AccessKeyId = Some ''AK'', sdk_SecretAccessKey = Some ''SK'', sdk_SessionToken = Some ''ST'',
                             sdk_Expiration = Some 5000\<rparr>,
      out_AssumedRoleUser = Some \<lparr>sdk_Arn = Some ''arn'', sdk_AssumeRoleId = Some ''id''\<rparr>,
      out_AssociationId = Some (Some ''assoc'')\<rparr>"

theorem service_returns_the_answer_witness:
  "\<exists>r. service_GetIamCredentials (\<lambda>inp. Inr demo_output) (\<lambda>x. Inr ''7'')
     \<lparr>ServiceAccountToken = ''t'', ClusterName = ''c'', RequestTargetHost = ''h''\<rparr> = Ret r"
  using service_returns_the_answer[of "\<lambda>inp. Inr demo_output" "\<lambda>x. Inr ''7''"
      "\<lparr>ServiceAccountToken = ''t'', ClusterName = ''c'', RequestTargetHost = ''h''\<rparr>"]
  by (auto simp: complete_def demo_output_def)

section \<open>Handlers and servers\<close>

text \<open>
  C19. A request that fails validation is answered with the error's own status, 400 or 403, and nothing else happens: no
  credentials are looked up, no delegate or validator is called, and the shared memory is not touched.
\<close>

theorem rejected_requests_touch_nothing:
  assumes "ValidateEksCredentialRequest (jwt env) (clock env (ticks w)) (RequestValidator h) (creds_request h req) = Some err"
  shows "\<exists>code m. code \<in> {400, 403} \<and> HttpStatus err = Some code \<and>
    run_state (HandleRequest env h req) w =
      (Ret (http_Error m code),
       w\<lparr>ticks := Suc (ticks w), trace := trace w @ [Inc ''pod_identity_http_response'' [Itoa code]]\<rparr>)"
proof -
  obtain code where code: "HttpStatus err = Some code" "code \<in> {400, 403}"
    using ValidateEksCredentialRequest_status[OF assms] by (auto simp: http_status split: if_splits)
  then have "snd (HandleCredentialFetchingError err) = code" by (simp add: HandleCredentialFetchingError_HttpStatus)
  then have "run_state (HandleRequest env h req) w =
      (Ret (http_Error (fst (HandleCredentialFetchingError err)) code),
       w\<lparr>ticks := Suc (ticks w), trace := trace w @ [Inc ''pod_identity_http_response'' [Itoa code]]\<rparr>)"
    using GetEksCredentials_rejected[OF assms] by (simp add: HandleRequest_unfold)
  then show ?thesis using code by blast
qed

definition closed_env :: "(unit, unit, unit) renv" where
  "closed_env =
     \<lparr>jwt = \<lparr>ParseUnverified = (\<lambda>t. Inl (Plain [])), ParseRegistered = (\<lambda>t. Inl (Plain [])),
             ValidateRegistered = (\<lambda>t r. None), jwt_Parse = (\<lambda>t f. Ret None)\<rparr>,
      clock = (\<lambda>n. 0), others = (\<lambda>n s. s), delegate = (\<lambda>n r. Ret (Inl (Plain []))), validator = (\<lambda>n tv r. None),
      limiter_Allow = (\<lambda>n. True), limiter_Wait = (\<lambda>n. None), rnd = (\<lambda>n. 0)\<rparr>"

definition plain_handler :: EksCredentialHandler where
  "plain_handler = \<lparr>h_ClusterName = ''c'', RequestValidator = \<lparr>TargetHosts = None\<rparr>, CredentialRetriever = None\<rparr>"

definition idle_world :: "(unit cachedCredentialRetriever, event) world" where
  "idle_world =
     \<lparr>shared = newCachedCredentialRetriever
        \<lparr>Delegate = Some (), TokenValidator = None, CredentialsRenewalTtl = 600 * Second, MaxCacheSize = 5,
         RefreshQPS = 3, CleanupInterval = Minute\<rparr>,
      ticks = 7, trace = []\<rparr>"

theorem rejected_requests_touch_nothing_witness:
  "shared (snd (run_state (HandleRequest closed_env plain_handler \<lparr>Authorization = '''', Host = ''elsewhere'', RemoteAddr = '''', ReqContext = Background\<rparr>) idle_world)) =
     shared idle_world"
proof -
  have "SplitHostPort ''elsewhere'' = None" "stripBrackets ''elsewhere'' = ''elsewhere''" by code_simp+
  then have "validateRequestTargetHost \<lparr>TargetHosts = None\<rparr> ''elsewhere'' \<noteq> None"
    by (simp add: validateRequestTargetHost_def stripHostPort_def Let_def defaultValidTargetHosts_def
        DefaultIpv4TargetHost_def DefaultIpv6TargetHost_def)
  then obtain err where err: "ValidateEksCredentialRequest (jwt closed_env) t (RequestValidator plain_handler)
      (creds_request plain_handler \<lparr>Authorization = '''', Host = ''elsewhere'', RemoteAddr = '''', ReqContext = Background\<rparr>) = Some err" for t
    by (auto simp: ValidateEksCredentialRequest_def plain_handler_def creds_request_def)
  show ?thesis
    using rejected_requests_touch_nothing[OF err[of "clock closed_env (ticks idle_world)"]] by auto
qed

text \<open>
  C33. The body of a successful answer is JSON that any reader can parse back to the members the AWS SDKs
  expect, with the values of the credentials; empty values are left out.
\<close>

theorem response_json_roundtrip:
  assumes "response_Marshal r = Some text" and "valid_response r"
  shows "\<exists>ms ex. parse_json text = Some (JObject ms) \<and> rfc3339nano (CredsExpiration r) = Some ex \<and>
    get_string_or_empty ms ''AccessKeyId'' = AccessKeyId r \<and>
    get_string_or_empty ms ''SecretAccessKey'' = SecretAccessKey r \<and>
    get_string_or_empty ms ''Token'' = Token r \<and> get_string_or_empty ms ''AccountId'' = AccountId r \<and>
    get_string ms ''Expiration'' = Some ex"
proof -
  obtain j where j: "json_of_response r = Some j" "parse_json text = Some j"
    using response_roundtrip[OF assms] by blast
  then show ?thesis
    by (auto simp: json_of_response_def omitempty_def get_string_def get_string_or_empty_def)
qed

definition demo_response :: EksCredentialsResponse where
  "demo_response = \<lparr>AccessKeyId = ''AK'', SecretAccessKey = ''SK'', Token = ''ST'', AccountId = '''', CredsExpiration = 0\<rparr>"

theorem response_json_roundtrip_witness:
  "\<exists>text ms. response_Marshal demo_response = Some text \<and> parse_json text = Some (JObject ms) \<and>
     get_string_or_empty ms ''Token'' = ''ST'' \<and> get_string ms ''Expiration'' = Some ''1970-01-01T00:00:00Z''"
proof -
  have ex: "rfc3339nano 0 = Some ''1970-01-01T00:00:00Z''"
    by code_simp
  have "valid_response demo_response"
    by (simp add: valid_response_def demo_response_def valid_utf8.simps utf8_len.simps byte_def)
  moreover obtain out where "response_Marshal demo_response = Some out"
    by (simp add: response_Marshal_def json_of_response_def demo_response_def ex)
  ultimately show ?thesis
    using response_json_roundtrip[of demo_response out] ex by (auto simp: demo_response_def)
qed

section \<open>Construction\<close>

lemma go_quot_pos: "0 \<le> x \<Longrightarrow> 0 < y \<Longrightarrow> go_quot x y = x div y"
  by (cases "x = 0") (simp_all add: go_quot_def)

lemma default_servers:
  "\<exists>s4 s6 probe metrics. createServers new_tv (default_flags cluster) = Ret [s4, s6, probe, metrics] \<and>
     map srv_Addr [s4, s6, probe, metrics] = [''169.254.170.23:80'', ''[fd00:ec2::23]:80'', ''localhost:2703'', ''0.0.0.0:2705''] \<and>
     list_all (\<lambda>s. \<exists>h r. srv_configurer s = Some (Credential h) \<and> h_ClusterName h = cluster \<and>
       CredentialRetriever h = Some r \<and> MaxEntries (lru (internalCache r)) = 2000 \<and> refreshQPS r = 3) [s4, s6]"
proof -
  define opts :: "TokenValidator option \<Rightarrow> (unit, TokenValidator) CachedCredentialRetrieverOpts" where
    "opts tv = \<lparr>Delegate = Some (), TokenValidator = tv, CredentialsRenewalTtl = 3 * 60 * Minute, MaxCacheSize = 2000,
       RefreshQPS = 3, CleanupInterval = 0\<rparr>" for tv
  have "\<exists>r. NewCachedCredentialRetriever (opts tv) = Ret r \<and> MaxEntries (lru (internalCache r)) = 2000 \<and> refreshQPS r = 3" for tv
    by (simp add: NewCachedCredentialRetriever_def opts_def Let_def int_Seconds_def go_quot_def Minute_def Second_def int64_id
        in_int64_def newCachedCredentialRetriever_def OnEvicted_def OnRefresh_def)
  then obtain r where r: "NewCachedCredentialRetriever (opts tv) = Ret (r tv)"
    "MaxEntries (lru (internalCache (r tv))) = 2000" "refreshQPS (r tv) = 3" for tv by metis
  have r': "NewCachedCredentialRetriever \<lparr>Delegate = Some (), TokenValidator = tv, CredentialsRenewalTtl = 10800000000000,
      MaxCacheSize = 2000, RefreshQPS = 3, CleanupInterval = 0\<rparr> = Ret (r tv)" for tv
    using r(1)[of tv] by (simp add: opts_def Minute_def Second_def)
  have d: "digits 80 = ''80''" "digits 2703 = ''2703''" "digits 2705 = ''2705''"
    by (simp_all add: digits.simps chr_def char_of_def bit_0)
  have h: "\<exists>h. NewEksCredentialServer v a (handler_opts (default_flags cluster)) =
      Ret ((newBaseServer a)\<lparr>srv_configurer := Some (Credential h)\<rparr>) \<and> h_ClusterName h = cluster \<and>
      (\<exists>x. CredentialRetriever h = Some x \<and> MaxEntries (lru (internalCache x)) = 2000 \<and> refreshQPS x = 3)" for v a
    using r(2,3) by (simp add: NewEksCredentialServer_def NewEksCredentialHandler_def handler_opts_def default_flags_def
        Let_def Minute_def Second_def r' newBaseServer_def)
  obtain h4 h6 where
    "NewEksCredentialServer (new_tv ''169.254.170.23'') ''169.254.170.23:80'' (handler_opts (default_flags cluster)) =
      Ret ((newBaseServer ''169.254.170.23:80'')\<lparr>srv_configurer := Some (Credential h4)\<rparr>)"
    "NewEksCredentialServer (new_tv ''[fd00:ec2::23]'') ''[fd00:ec2::23]:80'' (handler_opts (default_flags cluster)) =
      Ret ((newBaseServer ''[fd00:ec2::23]:80'')\<lparr>srv_configurer := Some (Credential h6)\<rparr>)"
    "h_ClusterName h4 = cluster" "h_ClusterName h6 = cluster"
    "\<exists>x. CredentialRetriever h4 = Some x \<and> MaxEntries (lru (internalCache x)) = 2000 \<and> refreshQPS x = 3"
    "\<exists>x. CredentialRetriever h6 = Some x \<and> MaxEntries (lru (internalCache x)) = 2000 \<and> refreshQPS x = 3"
    using h by metis
  then show ?thesis
    by (simp add: createServers_def newBaseServer_def NewProbeServer_def NewMetricsServer_def d default_flags_def
        DefaultIpv4TargetHost_def DefaultIpv6TargetHost_def)
qed

section \<open>Serving\<close>

text \<open>
  C27. A configured credential server answers 429 to a credential request its limiter refuses, without
  touching anything, and 404 to any path but the credential path; in particular to a health
  probe's request for the root path. So the probe handler reports 200 exactly when every
  probed address answers 404, 408 when the first failure is a deadline, and 500 for any other.
\<close>

theorem limited_and_unknown_requests:
  assumes "srv_configurer srv = Some (Credential h)" and "srv_mux srv = []"
  shows "(path \<noteq> ''/v1/credentials'' \<longrightarrow>
      run_state (serve env Allow NewRequest Do metrics (configureHandler srv) path r) w = (Ret not_found, w)) \<and>
    (\<not> Allow (NewRateLimiter 1000) (ticks w) \<longrightarrow>
      run_state (serve env Allow NewRequest Do metrics (configureHandler srv) ''/v1/credentials'' r) w =
        (Ret (http_Error [Txt ''Too Many Requests''] 429), w\<lparr>ticks := Suc (ticks w)\<rparr>)) \<and>
    StatusCode (HandleProbe NewRequest Do p) =
      (case probeAddrs NewRequest Do (addrs p) of
         None \<Rightarrow> 200 | Some e \<Rightarrow> if errors_Is e DeadlineExceeded then 408 else 500) \<and>
    (StatusCode (HandleProbe NewRequest Do p) = 200 \<longleftrightarrow>
      (\<forall>a \<in> set (addrs p). NewRequest (''http://'' @ a) = None \<and> Do (''http://'' @ a) = Inr (StatusCode not_found)))"
proof -
  have mux: "srv_mux (configureHandler srv) = [(''/v1/credentials'', Limited (NewRateLimiter 1000) (Credential h))]"
    using assms by (simp add: configureHandler_def patterns_def credential_patterns_def RequestRate_def)
  have probe: "StatusCode (HandleProbe NewRequest Do p) = 200 \<longleftrightarrow> probeAddrs NewRequest Do (addrs p) = None"
    by (simp add: HandleProbe_def http_status split: option.split)
  show ?thesis
    unfolding probe probeAddrs_None
    by (simp add: serve_def mux RateLimitMiddleware_def HandleProbe_def http_status not_found_def http_Error_def
        split: option.split)
qed

theorem limited_and_unknown_requests_witness:
  "run_state (serve closed_env (\<lambda>lim n. True) (\<lambda>u. None) (\<lambda>u. Inr 404) not_found
      (configureHandler ((newBaseServer ''a'')\<lparr>srv_configurer := Some (Credential plain_handler)\<rparr>)) ''/''
      \<lparr>Authorization = '''', Host = ''h'', RemoteAddr = '''', ReqContext = Background\<rparr>) idle_world = (Ret not_found, idle_world)"
  using limited_and_unknown_requests[of "(newBaseServer ''a'')\<lparr>srv_configurer := Some (Credential plain_handler)\<rparr>"
      plain_handler "''/''" closed_env "\<lambda>lim n. True" "\<lambda>u. None" "\<lambda>u. Inr 404" not_found
      "\<lparr>Authorization = '''', Host = ''h'', RemoteAddr = '''', ReqContext = Background\<rparr>" idle_world]
  by (simp add: newBaseServer_def)

section \<open>The initializer\<close>

abbreviation ipv4_family :: AddrFamily where
  "ipv4_family \<equiv> \<lparr>Family = AF_INET, LinkLocalAddr = Some ipv4LinkLocalAddr\<rparr>"

abbreviation ipv6_family :: AddrFamily where
  "ipv6_family \<equiv> \<lparr>Family = AF_INET6, LinkLocalAddr = Some ipv6LinkLocalAddr\<rparr>"

lemma find_route_find:
  "find_route link new rs = map_option (validateRouteLinkMatch link) (find (\<lambda>r. dstRoutesEq r new) rs)"
  by (induction rs) simp_all

text \<open>
  C28. IPv4 is required, IPv6 is optional. The outcome of the initialization, call by call: when the IPv4
  address cannot be attached the process exits before the interface is brought up and before any
  route is made; an error with the IPv6 address or the IPv6 route never changes the
  outcome; the interface is brought up after the addresses and before the routes.
\<close>

theorem ipv4_decides_the_outcome:
  assumes "CreateOrGetLink h n0 = (Inr link, n1, c1)"
    and "SetupForAddrFamily h link ipv4_family n1 = (addr4, n2, c2)"
    and "SetupForAddrFamily h link ipv6_family n2 = (addr6, n3, c3)"
    and "BringUp h link n3 = (up, n4, c4)"
    and "SetupRouteTableForAddrFamily h link ipv4_family n4 = Ret (route4, n5, c5)"
    and "SetupRouteTableForAddrFamily h link ipv6_family n5 = Ret (route6, n6, c6)"
  shows "Initialize h n0 =
    (if addr4 \<noteq> None then (Exited, n2, c1 @ c2)
     else case up of
            Some e \<Rightarrow> (InitError e, n4, c1 @ (c2 @ c3) @ c4)
          | None \<Rightarrow>
              if route4 \<noteq> None then (Exited, n5, c1 @ (c2 @ c3) @ c4 @ c5)
              else (Initialized, n6, c1 @ (c2 @ c3) @ c4 @ c5 @ c6))"
  using assms
  by (simp add: Initialize_def Initialize_with_def supportedFamilies_def isOptionalFamily_def AF_INET_def AF_INET6_def loop_result_def
      split: option.split)

text \<open>
  On systems other than Linux the initializer never succeeds: the IPv4 route cannot be made, which ends the process after
  the interface has been made and brought up.
\<close>

lemma other_systems_never_initialize:
  "fst (Initialize_with (SetupRouteTableForAddrFamily_unspecified err) h n0) \<noteq> Initialized"
  by (auto simp: Initialize_with_def supportedFamilies_def isOptionalFamily_def AF_INET_def AF_INET6_def loop_result_def
      SetupRouteTableForAddrFamily_unspecified_def Let_def split: prod.splits sum.splits option.splits loop_end.splits)

text \<open>A network whose state is the list of the calls made; a link, and nothing else, exists.\<close>

definition demo_netlink :: "nl_call list NetlinkHandle" where
  "demo_netlink =
     \<lparr>LinkByName = (\<lambda>n name. Inr \<lparr>link_Name = name, link_Index = 7\<rparr>),
      LinkAdd = (\<lambda>n name. (None, n @ [CallLinkAdd name])),
      LinkSetUp = (\<lambda>n l. (None, n @ [CallLinkSetUp (link_Name l)])),
      AddrList = (\<lambda>n l f. Inr []),
      AddrAdd = (\<lambda>n l a. if a = ipv6LinkLocalAddr then (Some (Plain []), n) else (None, n @ [CallAddrAdd a])),
      RouteList = (\<lambda>n f. Inr [\<lparr>rt_LinkIndex = 7, rt_Dst = Some ipv4LinkLocalAddr\<rparr>]),
      RouteAdd = (\<lambda>n r. (None, n @ [CallRouteAdd r]))\<rparr>"

lemma ipv6_not_ipv4: "ipv4LinkLocalAddr \<noteq> ipv6LinkLocalAddr"
  by (simp add: ipv4LinkLocalAddr_def ipv6LinkLocalAddr_def)

lemma demo_contains:
  "IPNet_Contains ipv4LinkLocalAddr (net_IP ipv4LinkLocalAddr)"
  "\<not> IPNet_Contains ipv4LinkLocalAddr (net_IP ipv6LinkLocalAddr)"
  by (simp_all add: IPNet_Contains_def ipv4LinkLocalAddr_def ipv6LinkLocalAddr_def To4_def networkNumberAndMask_def)

theorem ipv4_decides_the_outcome_witness:
  "fst (Initialize demo_netlink []) = Initialized"
proof -
  let ?l = "\<lparr>link_Name = AgentLinkName, link_Index = 7\<rparr>"
  let ?r = "\<lparr>rt_LinkIndex = 7, rt_Dst = Some ipv6LinkLocalAddr\<rparr>"
  have 1: "CreateOrGetLink demo_netlink [] = (Inr ?l, [], [])"
    by (simp add: CreateOrGetLink_def demo_netlink_def)
  have 2: "SetupForAddrFamily demo_netlink ?l ipv4_family [] =
      (None, [CallAddrAdd ipv4LinkLocalAddr], [CallAddrAdd ipv4LinkLocalAddr])"
    by (simp add: SetupForAddrFamily_def isIpAttachedToLink_def demo_netlink_def ipv6_not_ipv4)
  have 3: "SetupForAddrFamily demo_netlink ?l ipv6_family n = (Some (Plain []), n, [CallAddrAdd ipv6LinkLocalAddr])" for n
    by (simp add: SetupForAddrFamily_def isIpAttachedToLink_def demo_netlink_def)
  have 4: "BringUp demo_netlink ?l n = (None, n @ [CallLinkSetUp AgentLinkName], [CallLinkSetUp AgentLinkName])" for n
    by (simp add: BringUp_def demo_netlink_def)
  have 5: "SetupRouteTableForAddrFamily demo_netlink ?l ipv4_family n = Ret (None, n, [])" for n
    by (simp add: SetupRouteTableForAddrFamily_def demo_netlink_def dstRoutesEq_def demo_contains
        validateRouteLinkMatch_def)
  have 6: "SetupRouteTableForAddrFamily demo_netlink ?l ipv6_family n = Ret (None, n @ [CallRouteAdd ?r], [CallRouteAdd ?r])" for n
    by (simp add: SetupRouteTableForAddrFamily_def demo_netlink_def dstRoutesEq_def demo_contains Let_def)
  show ?thesis using ipv4_decides_the_outcome[OF 1 2 3 4 5 6] by simp
qed

text \<open>
  C30. Initialization is idempotent: on a network where the interface exists, holds both
  addresses, and the first route to each of them goes through it, the only call made is the one that brings the
  interface up, which netlink ignores for an interface that is up.
\<close>

theorem initialization_is_idempotent:
  assumes "LinkByName h n AgentLinkName = Inr link"
    and "\<And>fam addr. fam \<in> set supportedFamilies \<Longrightarrow> LinkLocalAddr fam = Some addr \<Longrightarrow>
      \<exists>as a. AddrList h n link (Family fam) = Inr as \<and> a \<in> set as \<and> IPNet_Contains a (net_IP addr)"
    and "LinkSetUp h n link = (None, n')"
    and "\<And>fam addr. fam \<in> set supportedFamilies \<Longrightarrow> LinkLocalAddr fam = Some addr \<Longrightarrow>
      \<exists>rs r. RouteList h n' (Family fam) = Inr rs \<and>
        find (\<lambda>r. dstRoutesEq r \<lparr>rt_LinkIndex = link_Index link, rt_Dst = Some addr\<rparr>) rs = Some r \<and>
        rt_LinkIndex r = link_Index link"
  shows "Initialize h n = (Initialized, n', [CallLinkSetUp (link_Name link)])"
proof -
  have addr: "SetupForAddrFamily h link fam n = (None, n, [])" if fam: "fam \<in> set supportedFamilies" for fam
  proof -
    obtain addr where a: "LinkLocalAddr fam = Some addr" using fam by (auto simp: supportedFamilies_def)
    then show ?thesis
      using assms(2)[OF fam a] by (auto simp: SetupForAddrFamily_def isIpAttachedToLink_def list_ex_iff split: bool.split)
  qed
  have route: "SetupRouteTableForAddrFamily h link fam n' = Ret (None, n', [])" if fam: "fam \<in> set supportedFamilies" for fam
  proof -
    obtain addr where a: "LinkLocalAddr fam = Some addr" using fam by (auto simp: supportedFamilies_def)
    then show ?thesis
      using assms(4)[OF fam a]
      by (auto simp: SetupRouteTableForAddrFamily_def find_route_find validateRouteLinkMatch_def)
  qed
  have "CreateOrGetLink h n = (Inr link, n, [])" using assms(1) by (simp add: CreateOrGetLink_def)
  then show ?thesis
    using addr route assms(3)
    by (simp add: Initialize_def Initialize_with_def supportedFamilies_def loop_result_def BringUp_def)
qed

definition ready_netlink :: "nl_call list NetlinkHandle" where
  "ready_netlink = demo_netlink\<lparr>
     AddrList := (\<lambda>n l f. Inr [ipv4LinkLocalAddr, ipv6LinkLocalAddr]),
     RouteList := (\<lambda>n f. Inr [\<lparr>rt_LinkIndex = 7, rt_Dst = Some ipv4LinkLocalAddr\<rparr>, \<lparr>rt_LinkIndex = 7, rt_Dst = Some ipv6LinkLocalAddr\<rparr>])\<rparr>"

theorem initialization_is_idempotent_witness:
  "Initialize ready_netlink [] =
     (Initialized, [CallLinkSetUp AgentLinkName], [CallLinkSetUp AgentLinkName])"
proof -
  let ?l = "\<lparr>link_Name = AgentLinkName, link_Index = 7\<rparr>" and ?n = "[CallLinkSetUp AgentLinkName]"
  have self6: "IPNet_Contains ipv6LinkLocalAddr (net_IP ipv6LinkLocalAddr)"
    by (simp add: IPNet_Contains_def ipv6LinkLocalAddr_def To4_def networkNumberAndMask_def numeral_eq_Suc)
  have local_addr: "addr = ipv4LinkLocalAddr \<or> addr = ipv6LinkLocalAddr"
    if "fam \<in> set supportedFamilies" "LinkLocalAddr fam = Some addr" for fam addr
    using that by (auto simp: supportedFamilies_def)
  have 1: "LinkByName ready_netlink [] AgentLinkName = Inr ?l" by (simp add: ready_netlink_def demo_netlink_def)
  have 2: "\<exists>as a. AddrList ready_netlink [] ?l (Family fam) = Inr as \<and> a \<in> set as \<and> IPNet_Contains a (net_IP addr)"
    if "fam \<in> set supportedFamilies" "LinkLocalAddr fam = Some addr" for fam addr
    using local_addr[OF that] self6 demo_contains by (auto simp: ready_netlink_def)
  have 3: "LinkSetUp ready_netlink [] ?l = (None, ?n)" by (simp add: ready_netlink_def demo_netlink_def)
  have 4: "\<exists>rs r. RouteList ready_netlink ?n (Family fam) = Inr rs \<and>
      find (\<lambda>r. dstRoutesEq r \<lparr>rt_LinkIndex = link_Index ?l, rt_Dst = Some addr\<rparr>) rs = Some r \<and> rt_LinkIndex r = link_Index ?l"
    if "fam \<in> set supportedFamilies" "LinkLocalAddr fam = Some addr" for fam addr
    using local_addr[OF that] self6 demo_contains by (auto simp: ready_netlink_def dstRoutesEq_def)
  have "Initialize ready_netlink [] = (Initialized, ?n, [CallLinkSetUp (link_Name ?l)])"
    by (rule initialization_is_idempotent[OF 1 _ 3]) (erule (1) 2, erule (1) 4)
  then show ?thesis by simp
qed

lemma word8_and_255: "x AND 255 = (x :: 8 word)"
proof -
  have "(255 :: 8 word) = - 1" by simp
  then show ?thesis by (metis and.right_neutral)
qed

lemma all_255: "i < 4 \<Longrightarrow> [255, 255, 255, 255] ! i = (255 :: 8 word)"
  using nth_replicate[of i 4 "255 :: 8 word"] by (simp add: replicate_Suc[symmetric] numeral_eq_Suc del: nth_replicate)

lemma contains_ipv4:
  assumes "IPNet_Contains ipv4LinkLocalAddr a"
  shows "a \<in> {[169, 254, 170, 23], replicate 10 0 @ [255, 255, 169, 254, 170, 23]}"
proof -
  have net: "networkNumberAndMask ipv4LinkLocalAddr = Some ([169, 254, 170, 23], [255, 255, 255, 255])"
    by (simp add: networkNumberAndMask_def ipv4LinkLocalAddr_def To4_def)
  obtain x where x: "To4 a = Some x"
    using assms by (cases "To4 a") (auto simp: IPNet_Contains_def net To4_def split: if_splits)
  have len: "length x = 4" using x by (auto simp: To4_def split: if_splits)
  have "\<forall>i<4. [169, 254, 170, 23] ! i AND [255, 255, 255, 255] ! i = x ! i AND [255, 255, 255, 255] ! i"
    using assms by (simp add: IPNet_Contains_def net x len list_all_iff)
  then have nths: "[169, 254, 170, 23] ! i = x ! i" if "i < 4" for i
    using that all_255[OF that] by (metis word8_and_255)
  have xs: "x = [169, 254, 170, 23]"
    using len nths by (intro nth_equalityI) auto
  show ?thesis
  proof (cases "length a = 4")
    case True
    then show ?thesis using x xs by (simp add: To4_def)
  next
    case False
    then have m: "length a = 16" "list_all (\<lambda>b. b = 0) (take 10 a)" "a ! 10 = 255" "a ! 11 = 255" "drop 12 a = x"
      using x by (auto simp: To4_def split: if_splits)
    have d: "drop 10 a = a ! 10 # drop 11 a" "drop 11 a = a ! 11 # drop 12 a"
      using m(1) Cons_nth_drop_Suc[of 10 a] Cons_nth_drop_Suc[of 11 a] by simp_all
    have "take 10 a = replicate 10 0"
      using m(1,2) by (intro replicate_eqI) (auto simp: list_all_iff)
    then have "a = replicate 10 0 @ drop 10 a" by (metis append_take_drop_id)
    then show ?thesis using d m xs by simp
  qed
qed

lemma dstRoutesEq_ipv4:
  assumes "dstRoutesEq r \<lparr>rt_LinkIndex = i, rt_Dst = Some ipv4LinkLocalAddr\<rparr>" and "rt_Dst r = Some d"
  shows "net_IP d \<in> {[169, 254, 170, 23], replicate 10 0 @ [255, 255, 169, 254, 170, 23]}"
  using assms by (intro contains_ipv4) (auto simp: dstRoutesEq_def)

text \<open>
  C29. A route is never duplicated and never taken over: where the table has a route to the wanted
  destination, nothing is added, and the result is an error exactly when the first such route belongs to another
  interface. A route matches the agent's IPv4 address only if its own destination is that address.
\<close>

theorem existing_routes_are_respected:
  assumes "LinkLocalAddr fam = Some addr" and "RouteList h n (Family fam) = Inr rs"
    and "new = \<lparr>rt_LinkIndex = link_Index link, rt_Dst = Some addr\<rparr>"
    and "SetupRouteTableForAddrFamily h link fam n = Ret (err, n', calls)"
  shows "(case find (\<lambda>r. dstRoutesEq r new) rs of
       Some r \<Rightarrow> n' = n \<and> calls = [] \<and> (err = None \<longleftrightarrow> rt_LinkIndex r = link_Index link)
     | None \<Rightarrow> calls = [CallRouteAdd new] \<and> n' = snd (RouteAdd h n new)) \<and>
    (addr = ipv4LinkLocalAddr \<and> rt_Dst r = Some d \<and> dstRoutesEq r new \<longrightarrow>
       net_IP d \<in> {[169, 254, 170, 23], replicate 10 0 @ [255, 255, 169, 254, 170, 23]})"
proof -
  have "net_IP d \<in> {[169, 254, 170, 23], replicate 10 0 @ [255, 255, 169, 254, 170, 23]}"
    if "addr = ipv4LinkLocalAddr \<and> rt_Dst r = Some d \<and> dstRoutesEq r new"
    using that dstRoutesEq_ipv4[of r "link_Index link" d] unfolding assms(3) by metis
  moreover have "case find (\<lambda>r. dstRoutesEq r new) rs of
      Some r \<Rightarrow> n' = n \<and> calls = [] \<and> (err = None \<longleftrightarrow> rt_LinkIndex r = link_Index link)
    | None \<Rightarrow> calls = [CallRouteAdd new] \<and> n' = snd (RouteAdd h n new)"
    using assms(1,2,4) unfolding assms(3)
    by (cases "find (\<lambda>r. dstRoutesEq r \<lparr>rt_LinkIndex = link_Index link, rt_Dst = Some addr\<rparr>) rs")
      (auto simp: SetupRouteTableForAddrFamily_def find_route_find validateRouteLinkMatch_def Let_def case_prod_beta
        split: if_splits)
  ultimately show ?thesis by blast
qed

theorem existing_routes_are_respected_witness:
  "(\<exists>err. SetupRouteTableForAddrFamily demo_netlink \<lparr>link_Name = ''other'', link_Index = 5\<rparr> ipv4_family [] = Ret (Some err, [], []))
     \<and> net_IP ipv4LinkLocalAddr \<in> {[169, 254, 170, 23], replicate 10 0 @ [255, 255, 169, 254, 170, 23]}"
proof -
  let ?l = "\<lparr>link_Name = ''other'', link_Index = 5\<rparr> :: nl_link"
    and ?new = "\<lparr>rt_LinkIndex = 5, rt_Dst = Some ipv4LinkLocalAddr\<rparr>"
    and ?old = "\<lparr>rt_LinkIndex = 7, rt_Dst = Some ipv4LinkLocalAddr\<rparr>"
  have 1: "LinkLocalAddr ipv4_family = Some ipv4LinkLocalAddr" by simp
  obtain rs where 2: "RouteList demo_netlink [] (Family ipv4_family) = Inr rs"
    and f: "find (\<lambda>r. dstRoutesEq r ?new) rs = Some ?old"
    by (auto simp: demo_netlink_def dstRoutesEq_def demo_contains)
  have 3: "?new = \<lparr>rt_LinkIndex = link_Index ?l, rt_Dst = Some ipv4LinkLocalAddr\<rparr>" by simp
  obtain err n' calls where 4: "SetupRouteTableForAddrFamily demo_netlink ?l ipv4_family [] = Ret (err, n', calls)"
    by (auto simp: SetupRouteTableForAddrFamily_def demo_netlink_def dstRoutesEq_def demo_contains)
  have eq: "dstRoutesEq ?old ?new" by (simp add: dstRoutesEq_def demo_contains)
  show ?thesis
    using existing_routes_are_respected[OF 1 2 3 4, of ?old ipv4LinkLocalAddr] f eq 4 by auto
qed

end
