(* ===== verification/Shared_Credentials.thy ===== *)
theory Shared_Credentials
  imports Agent_Errors
begin

text \<open>
  The rotating provider of the agent's own AWS credentials,
  \<open>src/internal/sharedcredsrotater/rotating_shared_credentials_provider.go\<close>. The SDK's reader of the shared
  files, \<open>config.LoadSharedConfigProfile\<close>, and its default files are arguments, as is the environment
  variable.
\<close>

definition defaultRotationInterval :: duration where
  "defaultRotationInterval = Minute"

definition rotatingSharedCredentialsProviderName :: string where
  "rotatingSharedCredentialsProviderName = ''RotatingSharedCredentialsProvider''"

record aws_Credentials =
  aws_AccessKeyID :: string
  aws_SecretAccessKey :: string
  aws_SessionToken :: string
  aws_Source :: msg
  aws_CanExpire :: bool
  aws_Expires :: time

record RotatingSharedCredentialsProvider =
  rotationInterval :: duration
  sharedCredentialsFiles :: "string list"

text \<open>\<open>env_file\<close> is what \<open>os.LookupEnv\<close> answers for \<open>AWS_SHARED_CREDENTIALS_FILE\<close>.\<close>

definition NewRotatingSharedCredentialsProvider ::
  "string list \<Rightarrow> string option \<Rightarrow> RotatingSharedCredentialsProvider" where
  "NewRotatingSharedCredentialsProvider DefaultSharedCredentialsFiles env_file =
     \<lparr>rotationInterval = defaultRotationInterval,
      sharedCredentialsFiles = (case env_file of Some f \<Rightarrow> [f] | None \<Rightarrow> DefaultSharedCredentialsFiles)\<rparr>"

text \<open>The reader gets the configuration files, none, and the credentials files; \<open>now\<close> is read after it.\<close>

definition Retrieve ::
  "(string list \<Rightarrow> string list \<Rightarrow> goerr + aws_Credentials) \<Rightarrow> time
   \<Rightarrow> RotatingSharedCredentialsProvider \<Rightarrow> goerr + aws_Credentials" where
  "Retrieve LoadSharedConfigProfile now p =
     (case LoadSharedConfigProfile [] (sharedCredentialsFiles p) of
        Inl err \<Rightarrow> Inl (Plain (Txt ''loading shared credentials: '' # Error err))
      | Inr creds \<Rightarrow>
          Inr (creds\<lparr>aws_Source := [Txt rotatingSharedCredentialsProviderName, Txt '': '', Strs (sharedCredentialsFiles p)],
                     aws_CanExpire := True,
                     aws_Expires := time_Add now (rotationInterval p)\<rparr>))"

end
