(* ===== verification/Commands.thy ===== *)
theory Commands
  imports Server Eks_Auth Shared_Credentials Iproute
begin

text \<open>
  What the commands do around the servers and the initializer: \<open>src/cmd/server.go\<close>, \<open>src/cmd/init.go\<close>,
  \<open>src/cmd/version.go\<close> and the hook of \<open>src/cmd/root.go\<close>. The SDK's configuration is the part the code sets:
  the endpoint resolver and the provider of credentials.
\<close>

section \<open>The endpoint\<close>

record Endpoint =
  PartitionID :: string
  URL :: string
  SigningRegion :: string

text \<open>An endpoint resolver: service and region to an endpoint, or \<open>None\<close> for \<open>EndpointNotFoundError\<close>.\<close>

type_synonym resolver = "string \<Rightarrow> string \<Rightarrow> Endpoint option"

record 'creds sdk_config =
  EndpointResolver :: "resolver option"
  CredentialsProvider :: 'creds

definition overrideEndpointInCfg :: "string \<Rightarrow> string \<Rightarrow> 'creds sdk_config \<Rightarrow> 'creds sdk_config" where
  "overrideEndpointInCfg ServiceID endpoint cfg =
     cfg\<lparr>EndpointResolver := Some (\<lambda>service region.
       if service = ServiceID
       then Some \<lparr>PartitionID = ''aws'', URL = endpoint, SigningRegion = region\<rparr>
       else None)\<rparr>"

section \<open>The commands\<close>

text \<open>
  What the commands use of the SDK: the name of the service, the default configuration with the error that comes next to it, the cache around a
  provider of credentials, the default files, and the reader of the shared files, whose answer depends on when it is
  asked. A provider is its method \<open>Retrieve\<close>, which gets the clock's reading.
\<close>

record 'creds sdk =
  ServiceID :: string
  LoadDefaultConfig :: "'creds sdk_config \<times> goerr option"
  NewCredentialsCache :: "(time \<Rightarrow> goerr + aws_Credentials) \<Rightarrow> 'creds"
  DefaultSharedCredentialsFiles :: "string list"
  LoadSharedConfigProfile :: "time \<Rightarrow> string list \<Rightarrow> string list \<Rightarrow> goerr + aws_Credentials"

text \<open>
  The \<open>server\<close> command up to \<open>startServers\<close>. \<open>LoadDefaultConfig\<close> returns a configuration even next to
  an error, and the endpoint is overridden before the error is looked at. \<open>env_file\<close> is the value of the environment variable the
  rotating provider looks up.
\<close>

definition serverCmd_Run :: "'creds sdk \<Rightarrow> string option \<Rightarrow> server_flags \<Rightarrow> 'creds sdk_config outcome" where
  "serverCmd_Run sdk env_file fl =
     (let (cfg, err) = LoadDefaultConfig sdk;
          cfg1 = (if overrideEksAuthEndpoint fl \<noteq> ''''
                  then overrideEndpointInCfg (ServiceID sdk) (overrideEksAuthEndpoint fl) cfg else cfg);
          provider = NewRotatingSharedCredentialsProvider (DefaultSharedCredentialsFiles sdk) env_file
      in if err \<noteq> None then Exits
         else Returns
           (if rotateCredentials fl
            then cfg1\<lparr>CredentialsProvider :=
              NewCredentialsCache sdk (\<lambda>now. Retrieve (LoadSharedConfigProfile sdk now) now provider)\<rparr>
            else cfg1))"

text \<open>The \<open>initialize\<close> command; \<open>netlink.NewHandle\<close> is an argument.\<close>

definition NewExecutor :: "goerr + 'n NetlinkHandle \<Rightarrow> goerr + 'n NetlinkHandle" where
  "NewExecutor NewHandle = (case NewHandle of Inl err \<Rightarrow> Inl err | Inr handle \<Rightarrow> Inr handle)"

definition initCmd_Run :: "goerr + 'n NetlinkHandle \<Rightarrow> 'n \<Rightarrow> unit outcome \<times> 'n" where
  "initCmd_Run NewHandle n =
     (case NewExecutor NewHandle of
        Inl err \<Rightarrow> (Exits, n)
      | Inr executor \<Rightarrow>
          (let (result, n', calls) = Initialize executor n in
           (case result of Initialized \<Rightarrow> Returns () | InitError err \<Rightarrow> Exits | Exited \<Rightarrow> Exits | Panicked \<Rightarrow> Panics, n')))"

definition versionCmd_output :: "string \<Rightarrow> string" where
  "versionCmd_output AgentVersion = ''EKS Pod Identity Agent version '' @ AgentVersion @ [CHR 10]"

text \<open>Before any command: the logger.\<close>

definition rootCmd_PersistentPreRun ::
  "(string \<Rightarrow> goerr + 'level) \<Rightarrow> string \<Rightarrow> 'level global_logger option outcome" where
  "rootCmd_PersistentPreRun ParseLevel loggingVerbosity = logger_Initialize ParseLevel loggingVerbosity"

end
