(* ===== verification/Lifecycle.thy ===== *)
theory Lifecycle
  imports Server
begin

text \<open>
  The life of the server process: \<open>startServers\<close> of \<open>src/cmd/server.go\<close> and
  \<open>ListenUntilContextCancelled\<close> of \<open>src/pkg/server/server.go\<close>. Every server runs in a goroutine of its own,
  which configures it, starts a second goroutine that listens, waits for the context to be cancelled and
  shuts the server down with a deadline. The main goroutine starts these goroutines, waits for a signal, cancels the context and waits for the
  servers with a wait group. The steps of all goroutines interleave with each other, with the requests the servers
  get and with the passing of time; \<open>log.Fatalf\<close> in any goroutine ends the process.
\<close>

section \<open>State\<close>

text \<open>
  Where the goroutine of a server is, and where the one that listens for it is. \<open>ShuttingDown d\<close> is inside \<open>Shutdown\<close> with a context
  that is done at time \<open>d\<close>; \<open>ShutDown\<close> is after it, with \<open>wg.Done\<close> still to come.
\<close>

datatype phase = Unborn | Spawned | Configured | AwaitingCancel | ShuttingDown time | ShutDown | GracefullyStopped
datatype listener = NotSpawned | ListenerSpawned | Listening | ListenReturned

text \<open>\<open>sp_conns\<close> is the number of requests the server is serving.\<close>

record server_process =
  sp_server :: Server
  sp_phase :: phase
  sp_listener :: listener
  sp_conns :: nat

text \<open>\<open>Starting i\<close> is in the loop of \<open>startServers\<close>, about to start server \<open>i\<close>.\<close>

datatype main_phase = Starting nat | AwaitingSignal | AwaitingServers | MainReturned | ProcessExited

text \<open>The state of the process: the counter of the wait group, and the time since the start.\<close>

record agent_process =
  ap_main :: main_phase
  ap_cancelled :: bool
  ap_wg :: nat
  ap_now :: time
  ap_servers :: "server_process list"

definition startServers :: "Server list \<Rightarrow> agent_process" where
  "startServers servers =
     \<lparr>ap_main = Starting 0, ap_cancelled = False, ap_wg = 0, ap_now = 0,
      ap_servers = map (\<lambda>s. \<lparr>sp_server = s, sp_phase = Unborn, sp_listener = NotSpawned, sp_conns = 0\<rparr>) servers\<rparr>"

definition running :: "agent_process \<Rightarrow> bool" where
  "running a \<longleftrightarrow> ap_main a \<noteq> MainReturned \<and> ap_main a \<noteq> ProcessExited"

section \<open>Steps\<close>

text \<open>
  A step of the goroutines of one server, at time \<open>now\<close>, where \<open>cancelled\<close> tells whether the context is. \<open>ListenAndServe\<close> returns
  once the server is shutting down, at once if it is called after that, and nobody waits for its goroutine. \<open>Shutdown\<close> returns without an error
  when no request is being served any more.
\<close>

inductive server_step :: "time \<Rightarrow> bool \<Rightarrow> server_process \<Rightarrow> server_process \<Rightarrow> bool" where
  configure: "sp_phase p = Spawned \<Longrightarrow>
    server_step now cancelled p (p\<lparr>sp_server := configureHandler (sp_server p), sp_phase := Configured\<rparr>)"
| spawn_listener: "sp_phase p = Configured \<Longrightarrow>
    server_step now cancelled p (p\<lparr>sp_phase := AwaitingCancel, sp_listener := ListenerSpawned\<rparr>)"
| listen: "sp_listener p = ListenerSpawned \<Longrightarrow> sp_phase p = AwaitingCancel \<Longrightarrow>
    server_step now cancelled p (p\<lparr>sp_listener := Listening\<rparr>)"
| cancel_seen: "sp_phase p = AwaitingCancel \<Longrightarrow> cancelled \<Longrightarrow>
    server_step now cancelled p (p\<lparr>sp_phase := ShuttingDown (now + maxTerminationWait)\<rparr>)"
| listen_returns: "sp_listener p = ListenerSpawned \<or> sp_listener p = Listening \<Longrightarrow>
    sp_phase p = ShuttingDown d \<or> sp_phase p = ShutDown \<or> sp_phase p = GracefullyStopped \<Longrightarrow>
    server_step now cancelled p (p\<lparr>sp_listener := ListenReturned\<rparr>)"
| shutdown: "sp_phase p = ShuttingDown d \<Longrightarrow> sp_conns p = 0 \<Longrightarrow>
    server_step now cancelled p (p\<lparr>sp_phase := ShutDown\<rparr>)"

text \<open>
  What ends in \<open>log.Fatalf\<close>: \<open>ListenAndServe\<close> fails with an error that is not \<open>ErrServerClosed\<close>; or \<open>Shutdown\<close> fails, because
  its context is done or, once no request is being served, with an error from closing the listener.
\<close>

definition fatal :: "time \<Rightarrow> server_process \<Rightarrow> bool" where
  "fatal now p \<longleftrightarrow>
     sp_listener p = ListenerSpawned \<or> sp_listener p = Listening \<or>
     (case sp_phase p of ShuttingDown d \<Rightarrow> d \<le> now \<or> sp_conns p = 0 | _ \<Rightarrow> False)"

text \<open>The steps of the process's goroutines; \<open>wg.Add\<close> comes with the start of a server's goroutine, \<open>wg.Done\<close> is its last step.\<close>

inductive agent_step :: "agent_process \<Rightarrow> agent_process \<Rightarrow> bool" where
  spawn: "ap_main a = Starting i \<Longrightarrow> i < length (ap_servers a) \<Longrightarrow>
    agent_step a (a\<lparr>ap_main := Starting (Suc i), ap_wg := Suc (ap_wg a),
      ap_servers := (ap_servers a)[i := (ap_servers a ! i)\<lparr>sp_phase := Spawned\<rparr>]\<rparr>)"
| notify: "ap_main a = Starting (length (ap_servers a)) \<Longrightarrow> agent_step a (a\<lparr>ap_main := AwaitingSignal\<rparr>)"
| signal: "ap_main a = AwaitingSignal \<Longrightarrow>
    agent_step a (a\<lparr>ap_main := AwaitingServers, ap_cancelled := True\<rparr>)"
| server: "running a \<Longrightarrow> i < length (ap_servers a) \<Longrightarrow>
    server_step (ap_now a) (ap_cancelled a) (ap_servers a ! i) p \<Longrightarrow>
    agent_step a (a\<lparr>ap_servers := (ap_servers a)[i := p]\<rparr>)"
| wg_done: "running a \<Longrightarrow> i < length (ap_servers a) \<Longrightarrow> sp_phase (ap_servers a ! i) = ShutDown \<Longrightarrow>
    agent_step a (a\<lparr>ap_wg := ap_wg a - 1, ap_servers := (ap_servers a)[i := (ap_servers a ! i)\<lparr>sp_phase := GracefullyStopped\<rparr>]\<rparr>)"
| fail: "running a \<Longrightarrow> i < length (ap_servers a) \<Longrightarrow> fatal (ap_now a) (ap_servers a ! i) \<Longrightarrow>
    agent_step a (a\<lparr>ap_main := ProcessExited\<rparr>)"
| wait_returns: "ap_main a = AwaitingServers \<Longrightarrow> ap_wg a = 0 \<Longrightarrow> agent_step a (a\<lparr>ap_main := MainReturned\<rparr>)"

text \<open>
  What happens around the goroutines. A request comes in, while the server listens and is not shutting down; a request ends, if it ever
  does; time passes. Time does not pass the deadline of a context without \<open>Shutdown\<close> returning.
\<close>

inductive outside_step :: "agent_process \<Rightarrow> agent_process \<Rightarrow> bool" where
  accept: "running a \<Longrightarrow> i < length (ap_servers a) \<Longrightarrow> sp_listener (ap_servers a ! i) = Listening \<Longrightarrow>
    sp_phase (ap_servers a ! i) = AwaitingCancel \<Longrightarrow>
    outside_step a (a\<lparr>ap_servers := (ap_servers a)[i := (ap_servers a ! i)\<lparr>sp_conns := Suc (sp_conns (ap_servers a ! i))\<rparr>]\<rparr>)"
| finish: "running a \<Longrightarrow> i < length (ap_servers a) \<Longrightarrow> 0 < sp_conns (ap_servers a ! i) \<Longrightarrow>
    outside_step a (a\<lparr>ap_servers := (ap_servers a)[i := (ap_servers a ! i)\<lparr>sp_conns := sp_conns (ap_servers a ! i) - 1\<rparr>]\<rparr>)"
| pass: "running a \<Longrightarrow> ap_now a < t \<Longrightarrow> list_all (\<lambda>p. case sp_phase p of ShuttingDown d \<Rightarrow> t \<le> d | _ \<Rightarrow> True) (ap_servers a) \<Longrightarrow>
    outside_step a (a\<lparr>ap_now := t\<rparr>)"

text \<open>A run, with the number of the steps the goroutines made in it.\<close>

inductive process_runs :: "nat \<Rightarrow> agent_process \<Rightarrow> agent_process \<Rightarrow> bool" where
  run_start: "process_runs 0 a a"
| run_agent: "process_runs n a b \<Longrightarrow> agent_step b c \<Longrightarrow> process_runs (Suc n) a c"
| run_outside: "process_runs n a b \<Longrightarrow> outside_step b c \<Longrightarrow> process_runs n a c"

inductive_cases server_stepE: "server_step now cancelled p q"
inductive_cases agent_stepE: "agent_step a b"
inductive_cases outside_stepE: "outside_step a b"

lemma process_runs_trans: "process_runs n b c \<Longrightarrow> process_runs m a b \<Longrightarrow> process_runs (m + n) a c"
  by (induction rule: process_runs.induct) (auto intro: process_runs.intros)

section \<open>Invariant\<close>

definition process_ok :: "time \<Rightarrow> bool \<Rightarrow> Server \<Rightarrow> server_process \<Rightarrow> bool" where
  "process_ok now cancelled srv p \<longleftrightarrow>
     (case sp_phase p of
        Unborn \<Rightarrow> sp_server p = srv \<and> sp_listener p = NotSpawned \<and> sp_conns p = 0
      | Spawned \<Rightarrow> sp_server p = srv \<and> sp_listener p = NotSpawned \<and> sp_conns p = 0
      | Configured \<Rightarrow> sp_server p = configureHandler srv \<and> sp_listener p = NotSpawned \<and> sp_conns p = 0
      | AwaitingCancel \<Rightarrow> sp_server p = configureHandler srv \<and> sp_listener p \<noteq> NotSpawned
      | ShuttingDown d \<Rightarrow> sp_server p = configureHandler srv \<and> sp_listener p \<noteq> NotSpawned \<and> cancelled \<and> now \<le> d \<and>
          d \<le> now + maxTerminationWait
      | _ \<Rightarrow> sp_server p = configureHandler srv \<and> sp_listener p \<noteq> NotSpawned \<and> cancelled \<and> sp_conns p = 0)"

text \<open>The wait group counts the servers whose goroutine has started and has not called \<open>wg.Done\<close>.\<close>

definition waited_for :: "server_process \<Rightarrow> nat" where
  "waited_for p = (if sp_phase p = Unborn \<or> sp_phase p = GracefullyStopped then 0 else 1)"

definition agent_ok :: "Server list \<Rightarrow> agent_process \<Rightarrow> bool" where
  "agent_ok servers a \<longleftrightarrow>
     list_all2 (process_ok (ap_now a) (ap_cancelled a)) servers (ap_servers a) \<and>
     ap_wg a = sum_list (map waited_for (ap_servers a)) \<and>
     (case ap_main a of
        Starting i \<Rightarrow> \<not> ap_cancelled a \<and> i \<le> length servers \<and> (\<forall>j < length servers. sp_phase (ap_servers a ! j) = Unborn \<longleftrightarrow> i \<le> j)
      | AwaitingSignal \<Rightarrow> \<not> ap_cancelled a \<and> (\<forall>p \<in> set (ap_servers a). sp_phase p \<noteq> Unborn)
      | AwaitingServers \<Rightarrow> ap_cancelled a \<and> (\<forall>p \<in> set (ap_servers a). sp_phase p \<noteq> Unborn)
      | MainReturned \<Rightarrow> ap_cancelled a \<and> (\<forall>p \<in> set (ap_servers a). sp_phase p = GracefullyStopped)
      | ProcessExited \<Rightarrow> True)"

lemma maxTerminationWait_pos: "0 < maxTerminationWait"
  by (simp add: maxTerminationWait_def defaultRequestTimeout_def Second_def)

lemma process_ok_step:
  assumes "server_step now cancelled p q" and "process_ok now cancelled srv p"
  shows "process_ok now cancelled srv q"
  using assms(1) by cases (use assms(2) maxTerminationWait_pos in \<open>auto simp: process_ok_def\<close>)

lemma server_step_waited: "server_step now cancelled p q \<Longrightarrow> waited_for q = waited_for p"
  by (auto elim!: server_stepE simp: waited_for_def)

lemma process_ok_cancel: "process_ok now False srv p \<Longrightarrow> process_ok now True srv p"
  by (simp add: process_ok_def split: phase.splits)

lemma process_ok_pass:
  assumes "process_ok now cancelled srv p" and "now < t" and "case sp_phase p of ShuttingDown d \<Rightarrow> t \<le> d | _ \<Rightarrow> True"
  shows "process_ok t cancelled srv p"
  using assms by (cases "sp_phase p") (simp_all add: process_ok_def)

lemma list_all2_update_right:
  assumes "list_all2 P xs ys" and "i < length ys" and "P (xs ! i) (ys ! i) \<Longrightarrow> P (xs ! i) y"
  shows "list_all2 P xs (ys[i := y])"
  using assms by (auto simp: list_all2_conv_all_nth nth_list_update)

lemma sum_list_map_update:
  fixes f :: "'a \<Rightarrow> nat"
  assumes "i < length xs"
  shows "sum_list (map f (xs[i := x])) + f (xs ! i) = sum_list (map f xs) + f x"
  using assms by (induction xs arbitrary: i) (auto split: nat.splits)

lemma agent_ok_start: "agent_ok servers (startServers servers)"
  by (simp add: agent_ok_def startServers_def list_all2_conv_all_nth process_ok_def waited_for_def comp_def)

lemma agent_ok_server:
  assumes "agent_ok servers a" and "i < length (ap_servers a)"
    and "process_ok (ap_now a) (ap_cancelled a) (servers ! i) (ap_servers a ! i) \<Longrightarrow> process_ok (ap_now a) (ap_cancelled a) (servers ! i) p"
    and "sp_phase p = Unborn \<longleftrightarrow> sp_phase (ap_servers a ! i) = Unborn" and "running a"
  shows "agent_ok servers (a\<lparr>ap_wg := ap_wg a + waited_for p - waited_for (ap_servers a ! i), ap_servers := (ap_servers a)[i := p]\<rparr>)"
proof -
  let ?b = "a\<lparr>ap_wg := ap_wg a + waited_for p - waited_for (ap_servers a ! i), ap_servers := (ap_servers a)[i := p]\<rparr>"
  have len: "length servers = length (ap_servers a)" using assms(1) by (auto simp: agent_ok_def dest: list_all2_lengthD)
  have "list_all2 (process_ok (ap_now ?b) (ap_cancelled ?b)) servers (ap_servers ?b)"
    using assms(1-3) by (auto simp: agent_ok_def intro!: list_all2_update_right)
  moreover have "ap_wg ?b = sum_list (map waited_for (ap_servers ?b))"
    using assms(1) sum_list_map_update[OF assms(2), of waited_for p] by (simp add: agent_ok_def)
  moreover have unborn: "sp_phase ((ap_servers a)[i := p] ! j) = Unborn \<longleftrightarrow> sp_phase (ap_servers a ! j) = Unborn" if "j < length servers" for j
    using assms(2,4) that by (auto simp: nth_list_update)
  then have "(\<forall>q \<in> set (ap_servers a). sp_phase q \<noteq> Unborn) \<longleftrightarrow> (\<forall>q \<in> set (ap_servers ?b). sp_phase q \<noteq> Unborn)"
    using len by (simp add: all_set_conv_all_nth)
  ultimately show ?thesis
    using assms(1,5) unborn by (auto simp: agent_ok_def running_def split: main_phase.splits)
qed

lemma agent_ok_step:
  assumes "agent_step a b" and ok: "agent_ok servers a"
  shows "agent_ok servers b"
  using assms(1)
proof cases
  case (spawn i)
  have len: "length servers = length (ap_servers a)" using ok by (auto simp: agent_ok_def dest: list_all2_lengthD)
  have unborn: "sp_phase (ap_servers a ! j) = Unborn \<longleftrightarrow> i \<le> j" if "j < length servers" for j
    using ok that spawn(2) by (simp add: agent_ok_def)
  let ?p = "(ap_servers a ! i)\<lparr>sp_phase := Spawned\<rparr>"
  have "process_ok (ap_now a) (ap_cancelled a) (servers ! i) (ap_servers a ! i)" "sp_phase (ap_servers a ! i) = Unborn"
    using ok spawn(3) unborn[of i] len by (auto simp: agent_ok_def list_all2_conv_all_nth)
  then have "list_all2 (process_ok (ap_now a) (ap_cancelled a)) servers ((ap_servers a)[i := ?p])"
    using ok spawn(3) by (intro list_all2_update_right) (auto simp: agent_ok_def process_ok_def)
  moreover have "Suc (ap_wg a) = sum_list (map waited_for ((ap_servers a)[i := ?p]))"
    using ok sum_list_map_update[OF spawn(3), of waited_for ?p] unborn[of i] len spawn(3) by (simp add: agent_ok_def waited_for_def)
  moreover have "sp_phase ((ap_servers a)[i := ?p] ! j) = Unborn \<longleftrightarrow> Suc i \<le> j" if "j < length servers" for j
    using unborn[OF that] spawn(3) by (auto simp: nth_list_update)
  ultimately show ?thesis using ok spawn len by (simp add: agent_ok_def)
next
  case notify
  then show ?thesis using ok by (auto simp: agent_ok_def all_set_conv_all_nth dest: list_all2_lengthD)
next
  case signal
  then have "list_all2 (process_ok (ap_now a) True) servers (ap_servers a)"
    using ok by (auto simp: agent_ok_def elim!: list_all2_mono intro: process_ok_cancel)
  then show ?thesis using signal ok by (simp add: agent_ok_def)
next
  case (server i p)
  have "sp_phase p \<noteq> Unborn" "sp_phase (ap_servers a ! i) \<noteq> Unborn"
    using server(4) ok server(3) by (auto simp: agent_ok_def list_all2_conv_all_nth elim!: server_stepE)
  then show ?thesis
    using agent_ok_server[OF ok server(3), of p] server server_step_waited[OF server(4)] by (auto intro: process_ok_step)
next
  case (wg_done i)
  let ?p = "(ap_servers a ! i)\<lparr>sp_phase := GracefullyStopped\<rparr>"
  have "agent_ok servers (a\<lparr>ap_wg := ap_wg a + waited_for ?p - waited_for (ap_servers a ! i), ap_servers := (ap_servers a)[i := ?p]\<rparr>)"
    by (rule agent_ok_server[OF ok wg_done(3)]) (use wg_done in \<open>auto simp: process_ok_def\<close>)
  then show ?thesis using wg_done by (simp add: waited_for_def)
next
  case (fail i)
  then show ?thesis using ok by (simp add: agent_ok_def)
next
  case wait_returns
  then have "\<forall>p \<in> set (ap_servers a). waited_for p = 0" using ok by (simp add: agent_ok_def)
  then show ?thesis using ok wait_returns by (auto simp: agent_ok_def waited_for_def split: if_splits)
qed

lemma agent_ok_outside:
  assumes "outside_step a b" and ok: "agent_ok servers a"
  shows "agent_ok servers b"
  using assms(1)
proof cases
  case (accept i)
  let ?p = "(ap_servers a ! i)\<lparr>sp_conns := Suc (sp_conns (ap_servers a ! i))\<rparr>"
  have "agent_ok servers (a\<lparr>ap_wg := ap_wg a + waited_for ?p - waited_for (ap_servers a ! i), ap_servers := (ap_servers a)[i := ?p]\<rparr>)"
    by (rule agent_ok_server[OF ok accept(3)]) (use accept in \<open>auto simp: process_ok_def\<close>)
  then show ?thesis using accept(1) by (simp add: waited_for_def)
next
  case (finish i)
  let ?p = "(ap_servers a ! i)\<lparr>sp_conns := sp_conns (ap_servers a ! i) - 1\<rparr>"
  have "agent_ok servers (a\<lparr>ap_wg := ap_wg a + waited_for ?p - waited_for (ap_servers a ! i), ap_servers := (ap_servers a)[i := ?p]\<rparr>)"
    by (rule agent_ok_server[OF ok finish(3)]) (use finish in \<open>auto simp: process_ok_def split: phase.splits\<close>)
  then show ?thesis using finish(1) by (simp add: waited_for_def)
next
  case (pass t)
  have "list_all2 (process_ok (ap_now a) (ap_cancelled a)) servers (ap_servers a)" using ok by (simp add: agent_ok_def)
  then have "list_all2 (process_ok t (ap_cancelled a)) servers (ap_servers a)"
    unfolding list_all2_conv_all_nth using process_ok_pass[OF _ pass(3)] pass(4)[unfolded list_all_length] by simp
  then show ?thesis using ok pass by (simp add: agent_ok_def split: main_phase.splits)
qed

interpretation ap: step_invariant "\<lambda>a. a = startServers servers" "sup agent_step outside_step" "agent_ok servers" for servers
  by unfold_locales (auto intro: agent_ok_start agent_ok_step agent_ok_outside)

lemma process_runs_steps: "process_runs n a b \<Longrightarrow> (sup agent_step outside_step)\<^sup>*\<^sup>* a b"
  by (induction rule: process_runs.induct) (auto intro: rtranclp.rtrancl_into_rtrancl)

lemma agent_ok_runs: "process_runs n (startServers servers) a \<Longrightarrow> agent_ok servers a"
  using ap.inv_steps[OF process_runs_steps agent_ok_start] .

section \<open>Termination\<close>

text \<open>The steps the goroutines of a server, and of the process, have left at most.\<close>

definition server_steps_left :: "server_process \<Rightarrow> nat" where
  "server_steps_left p =
     (case sp_phase p of
        Unborn \<Rightarrow> 6 | Spawned \<Rightarrow> 5 | Configured \<Rightarrow> 4 | AwaitingCancel \<Rightarrow> 3 | ShuttingDown d \<Rightarrow> 2 | ShutDown \<Rightarrow> 1
      | GracefullyStopped \<Rightarrow> 0) +
     (case sp_listener p of NotSpawned \<Rightarrow> 2 | ListenerSpawned \<Rightarrow> 2 | Listening \<Rightarrow> 1 | ListenReturned \<Rightarrow> 0)"

definition steps_left :: "agent_process \<Rightarrow> nat" where
  "steps_left a =
     (case ap_main a of
        Starting i \<Rightarrow> 3 | AwaitingSignal \<Rightarrow> 2 | AwaitingServers \<Rightarrow> 1 | MainReturned \<Rightarrow> 0 | ProcessExited \<Rightarrow> 0)
     + sum_list (map server_steps_left (ap_servers a))"

lemma server_step_decreases:
  assumes "server_step now cancelled p q" and "process_ok now cancelled srv p"
  shows "server_steps_left q < server_steps_left p"
  using assms(1) by cases (use assms(2) in \<open>auto simp: server_steps_left_def process_ok_def\<close>)

lemma running_left: "running a \<Longrightarrow> sum_list (map server_steps_left (ap_servers a)) < steps_left a"
  by (simp add: running_def steps_left_def split: main_phase.split)

lemma agent_step_decreases:
  assumes "agent_step a b" and "agent_ok servers a"
  shows "steps_left b < steps_left a"
  using assms(1)
proof cases
  case (spawn i)
  have "sp_phase (ap_servers a ! i) = Unborn"
    using assms(2) spawn by (auto simp: agent_ok_def dest: list_all2_lengthD)
  then show ?thesis
    using spawn sum_list_map_update[OF spawn(3), of server_steps_left "(ap_servers a ! i)\<lparr>sp_phase := Spawned\<rparr>"]
    by (simp add: steps_left_def server_steps_left_def)
next
  case (server i p)
  have "process_ok (ap_now a) (ap_cancelled a) (servers ! i) (ap_servers a ! i)"
    using assms(2) server(3) by (auto simp: agent_ok_def list_all2_conv_all_nth)
  from server_step_decreases[OF server(4) this] show ?thesis
    using server(1) sum_list_map_update[OF server(3), of server_steps_left p] by (simp add: steps_left_def)
next
  case (wg_done i)
  then show ?thesis
    using sum_list_map_update[OF wg_done(3), of server_steps_left "(ap_servers a ! i)\<lparr>sp_phase := GracefullyStopped\<rparr>"]
    by (simp add: steps_left_def server_steps_left_def)
next
  case (fail i)
  then show ?thesis using running_left[of a] by (simp add: steps_left_def)
qed (simp_all add: steps_left_def)

lemma outside_step_keeps_left: "outside_step a b \<Longrightarrow> steps_left b = steps_left a"
proof (erule outside_stepE, goal_cases)
  case (1 i)
  then show ?case
    using sum_list_map_update[OF 1(3), of server_steps_left "(ap_servers a ! i)\<lparr>sp_conns := Suc (sp_conns (ap_servers a ! i))\<rparr>"]
    by (simp add: steps_left_def server_steps_left_def)
next
  case (2 i)
  then show ?case
    using sum_list_map_update[OF 2(3), of server_steps_left "(ap_servers a ! i)\<lparr>sp_conns := sp_conns (ap_servers a ! i) - 1\<rparr>"]
    by (simp add: steps_left_def server_steps_left_def)
qed (simp add: steps_left_def)

lemma steps_left_start: "steps_left (startServers servers) = 8 * length servers + 3"
  by (simp add: steps_left_def startServers_def comp_def server_steps_left_def sum_list_triv)

lemma runs_are_bounded: "process_runs n a b \<Longrightarrow> agent_ok servers a \<Longrightarrow> agent_ok servers b \<and> n + steps_left b \<le> steps_left a"
proof (induction rule: process_runs.induct)
  case (run_agent n a b c)
  then show ?case using agent_step_decreases[of b c servers] agent_ok_step[of b c servers] by force
next
  case (run_outside n a b c)
  then show ?case using outside_step_keeps_left[of b c] agent_ok_outside[of b c servers] by simp
qed simp

section \<open>Shutting down\<close>

text \<open>The goroutine of a server has seen that the context is cancelled.\<close>

definition winding_down :: "server_process \<Rightarrow> bool" where
  "winding_down p \<longleftrightarrow> (case sp_phase p of ShuttingDown d \<Rightarrow> True | ShutDown \<Rightarrow> True | GracefullyStopped \<Rightarrow> True | _ \<Rightarrow> False)"

text \<open>Every server is winding down, and no deadline is later than \<open>t\<close>.\<close>

definition winding_down_by :: "time \<Rightarrow> agent_process \<Rightarrow> bool" where
  "winding_down_by t a \<longleftrightarrow>
     (\<forall>p \<in> set (ap_servers a). winding_down p \<and> (case sp_phase p of ShuttingDown d \<Rightarrow> d \<le> t | _ \<Rightarrow> True))"

lemma winding_down_server:
  assumes "winding_down_by t a" and "i < length (ap_servers a)"
    and "sp_phase p = sp_phase (ap_servers a ! i) \<or> sp_phase p = ShutDown \<or> sp_phase p = GracefullyStopped"
  shows "winding_down_by t (a\<lparr>ap_wg := n, ap_servers := (ap_servers a)[i := p]\<rparr>)"
proof -
  have "winding_down (ap_servers a ! i) \<and> (case sp_phase (ap_servers a ! i) of ShuttingDown d \<Rightarrow> d \<le> t | _ \<Rightarrow> True)"
    using assms(1,2) by (simp add: winding_down_by_def)
  then show ?thesis
    using assms(1,3) set_update_subset_insert[of "ap_servers a" i p] by (auto simp: winding_down_by_def winding_down_def)
qed

lemma winding_down_agent:
  assumes "agent_step a b" and "winding_down_by t a" and "agent_ok servers a"
  shows "winding_down_by t b"
  using assms(1)
proof cases
  case (spawn i)
  have "sp_phase (ap_servers a ! i) = Unborn" using assms(3) spawn by (auto simp: agent_ok_def dest: list_all2_lengthD)
  then have False using assms(2) nth_mem[OF spawn(3)] by (fastforce simp: winding_down_by_def winding_down_def)
  then show ?thesis ..
next
  case (server i p)
  have "winding_down (ap_servers a ! i)" using assms(2) server(3) by (simp add: winding_down_by_def)
  then have "sp_phase p = sp_phase (ap_servers a ! i) \<or> sp_phase p = ShutDown"
    using server(4) by (auto elim!: server_stepE simp: winding_down_def)
  then show ?thesis using winding_down_server[OF assms(2) server(3), of p "ap_wg a"] server(1) by auto
next
  case (wg_done i)
  then show ?thesis using winding_down_server[OF assms(2) wg_done(3)] by simp
qed (use assms(2) in \<open>simp_all add: winding_down_by_def\<close>)

lemma winding_down_outside:
  assumes "outside_step a b" and "winding_down_by t a"
  shows "winding_down_by t b"
  using assms(1)
proof cases
  case (finish i)
  then show ?thesis
    using winding_down_server[OF assms(2) finish(3), of "(ap_servers a ! i)\<lparr>sp_conns := sp_conns (ap_servers a ! i) - 1\<rparr>" "ap_wg a"] by simp
next
  case (accept i)
  then show ?thesis
    using winding_down_server[OF assms(2) accept(3), of "(ap_servers a ! i)\<lparr>sp_conns := Suc (sp_conns (ap_servers a ! i))\<rparr>" "ap_wg a"] by simp
qed (use assms(2) in \<open>simp add: winding_down_by_def\<close>)

lemma winding_down_runs:
  "process_runs n a b \<Longrightarrow> agent_ok servers a \<Longrightarrow> winding_down_by t a \<Longrightarrow> winding_down_by t b"
proof (induction rule: process_runs.induct)
  case (run_agent n a b c)
  then show ?case using winding_down_agent[of b c t servers] runs_are_bounded[of n a b servers] by blast
qed (auto intro: winding_down_outside)

lemma waited_server:
  assumes "agent_ok servers a" and "ap_wg a \<noteq> 0"
  obtains i where "i < length (ap_servers a)" and "waited_for (ap_servers a ! i) = 1"
proof -
  obtain p where "p \<in> set (ap_servers a)" "waited_for p \<noteq> 0" using assms by (auto simp: agent_ok_def)
  then show thesis using that by (auto simp: in_set_conv_nth waited_for_def split: if_splits)
qed

text \<open>After the deadlines the goroutines can go on without anything else happening.\<close>

lemma progress_after_deadline:
  assumes "agent_ok servers a" and "winding_down_by t a" and "t \<le> ap_now a" and "running a"
  shows "\<exists>b. agent_step a b"
proof (cases "ap_main a")
  case (Starting i)
  then have "i < length (ap_servers a) \<or> i = length (ap_servers a)"
    using assms(1) by (auto simp: agent_ok_def dest: list_all2_lengthD)
  then show ?thesis using Starting by (auto intro: agent_step.intros)
next
  case AwaitingServers
  show ?thesis
  proof (cases "ap_wg a = 0")
    case False
    then obtain i where i: "i < length (ap_servers a)" "waited_for (ap_servers a ! i) = 1"
      using waited_server[OF assms(1)] by blast
    then have "fatal (ap_now a) (ap_servers a ! i) \<or> sp_phase (ap_servers a ! i) = ShutDown"
      using assms(2,3) nth_mem[OF i(1)]
      by (fastforce simp: winding_down_by_def winding_down_def fatal_def waited_for_def split: phase.splits if_splits)
    then show ?thesis using i(1) assms(4) by (auto intro: agent_step.intros)
  qed (use AwaitingServers in \<open>auto intro: agent_step.intros\<close>)
qed (use assms(4) in \<open>auto simp: running_def intro: agent_step.intros\<close>)

text \<open>Where every request ends, the process can stop gracefully.\<close>

definition work_left :: "agent_process \<Rightarrow> nat" where
  "work_left a = steps_left a + sum_list (map sp_conns (ap_servers a))"

lemma graceful_step:
  assumes "agent_ok servers a" and "ap_main a = AwaitingServers"
  shows "\<exists>b n. process_runs n a b \<and> ap_main b \<in> {AwaitingServers, MainReturned} \<and> work_left b < work_left a"
proof (cases "ap_wg a = 0")
  case True
  let ?b = "a\<lparr>ap_main := MainReturned\<rparr>"
  have "agent_step a ?b" using wait_returns[OF assms(2) True] .
  then have "process_runs 1 a ?b" using run_agent[OF run_start] by simp
  then show ?thesis using assms(2) by (intro exI[of _ ?b] exI[of _ 1]) (simp add: work_left_def steps_left_def)
next
  case False
  then obtain i where i: "i < length (ap_servers a)" "waited_for (ap_servers a ! i) = 1"
    using waited_server[OF assms(1)] by blast
  let ?p = "ap_servers a ! i"
  have run: "running a" and can: "ap_cancelled a" using assms by (simp_all add: agent_ok_def running_def)
  have step: ?thesis if "agent_step a b" "ap_main b = AwaitingServers" "map sp_conns (ap_servers b) = map sp_conns (ap_servers a)" for b
    using that agent_step_decreases[OF that(1) assms(1)] run_agent[OF run_start that(1)]
    by (intro exI[of _ b] exI[of _ 1]) (simp add: work_left_def)
  have same: "map sp_conns ((ap_servers a)[i := q]) = map sp_conns (ap_servers a)" if "sp_conns q = sp_conns ?p" for q
    using that i(1) by (simp add: map_update list_update_same_conv)
  have server_step: ?thesis if "server_step (ap_now a) True ?p q" "sp_conns q = sp_conns ?p" for q
    using that step[OF agent_step.server[OF run i(1)]] assms(2) can same by simp
  consider "sp_phase ?p = Spawned" | "sp_phase ?p = Configured" | "sp_phase ?p = AwaitingCancel"
    | d where "sp_phase ?p = ShuttingDown d" "sp_conns ?p = 0" | d where "sp_phase ?p = ShuttingDown d" "0 < sp_conns ?p"
    | "sp_phase ?p = ShutDown"
    using i(2) by (cases "sp_phase ?p") (auto simp: waited_for_def)
  then show ?thesis
  proof cases
    case 1
    then show ?thesis using server_step[OF configure[OF 1]] by simp
  next
    case 2
    then show ?thesis using server_step[OF spawn_listener[OF 2]] by simp
  next
    case 3
    then show ?thesis using server_step[OF cancel_seen[OF 3 TrueI]] by simp
  next
    case (4 d)
    then show ?thesis using server_step[OF shutdown[OF 4]] by simp
  next
    case (5 d)
    let ?q = "?p\<lparr>sp_conns := sp_conns ?p - 1\<rparr>"
    let ?b = "a\<lparr>ap_servers := (ap_servers a)[i := ?q]\<rparr>"
    have out: "outside_step a ?b" using finish[OF run i(1) 5(2)] .
    have "sum_list (map sp_conns (ap_servers ?b)) < sum_list (map sp_conns (ap_servers a))"
      using sum_list_map_update[OF i(1), of sp_conns ?q] 5(2) by simp
    then have "work_left ?b < work_left a" using outside_step_keeps_left[OF out] by (simp add: work_left_def)
    then show ?thesis using run_outside[OF run_start out] assms(2) by (intro exI[of _ ?b] exI[of _ 0]) simp
  next
    case 6
    then show ?thesis using step[OF wg_done[OF run i(1) 6]] assms(2) same by simp
  qed
qed

lemma can_stop:
  assumes "agent_ok servers a" and "ap_main a \<in> {AwaitingServers, MainReturned}"
  shows "\<exists>b n. process_runs n a b \<and> ap_main b = MainReturned"
  using assms
proof (induction "work_left a" arbitrary: a rule: less_induct)
  case less
  show ?case
  proof (cases "ap_main a = MainReturned")
    case True
    then show ?thesis using run_start by blast
  next
    case False
    then obtain b n where b: "process_runs n a b" "ap_main b \<in> {AwaitingServers, MainReturned}" "work_left b < work_left a"
      using graceful_step[OF less.prems(1)] less.prems(2) by auto
    then obtain c m where "process_runs m b c" "ap_main c = MainReturned"
      using less.hyps[OF b(3)] runs_are_bounded[OF b(1) less.prems(1)] by blast
    then show ?thesis using process_runs_trans[OF _ b(1)] by blast
  qed
qed

end
