(* ===== verification/Command_Line.thy ===== *)
theory Command_Line
  imports Commands Lifecycle
begin

text \<open>
  The command line: \<open>src/main.go\<close> and the wiring of \<open>src/cmd\<close>, that is, the variables of the package, the flags that are
  declared for them, the tree of commands, the \<open>init\<close> functions in the order the compiler sees the files, and
  \<open>Execute\<close>. The library \<open>cobra\<close> with its flags is an argument: the model keeps the declarations the code makes, and given these and the process's
  arguments, \<open>cobra\<close> answers with an error, shows a help text, or chooses a command and the values of the variables.
\<close>

section \<open>Variables and flags\<close>

datatype flag_value =
  StringFlag string | Uint16Flag "16 word" | DurationFlag duration | IntFlag int | StringArrayFlag "string list" | BoolFlag bool

record cmd_vars =
  loggingVerbosity :: string
  server_vars :: server_flags

text \<open>The values of the variables before any \<open>init\<close> function has run.\<close>

definition zero_vars :: cmd_vars where
  "zero_vars =
     \<lparr>loggingVerbosity = '''',
      server_vars = \<lparr>serverPort = 0, probePort = 0, metricsAddress = '''', metricsPort = 0, bindHosts = [], fl_clusterName = '''',
        overrideEksAuthEndpoint = '''', maxCredentialRenewal = 0, maxCacheSize = 0, refreshQps = 0, rotateCredentials = False\<rparr>\<rparr>"

text \<open>Pointers to the variables.\<close>

datatype var_ptr =
  PtrVerbosity | PtrServerPort | PtrProbePort | PtrMetricsAddress | PtrMetricsPort | PtrBindHosts | PtrClusterName
| PtrEndpoint | PtrCredentialRenewal | PtrCacheSize | PtrRefreshQps | PtrRotateCredentials

record flag =
  flag_Name :: string
  flag_Shorthand :: string
  flag_Var :: var_ptr
  flag_DefValue :: flag_value
  flag_Usage :: string

section \<open>Commands\<close>

record command =
  cmd_Use :: string
  cmd_Short :: string
  cmd_Long :: string
  cmd_Flags :: "flag list"
  cmd_Required :: "string list"

record cmd_package =
  rootCmd :: command
  rootCmd_PersistentFlags :: "flag list"
  rootCmd_commands :: "string list"
  initCmd :: command
  serverCmd :: command
  versionCmd :: command

text \<open>A line break in a raw string, and one with a tab.\<close>

definition line_break :: string where
  "line_break = [CHR 0x0A]"

definition tab_line :: string where
  "tab_line = [CHR 0x0A, CHR 0x09]"

definition initCmd_Long :: string where
  "initCmd_Long =
     ''This command creates a new dummy interface and attaches both link-local IPv4 and '' @ line_break @
     ''IPv6 (if possible) addresses to interface. It also adds the required entries on the main'' @ line_break @
     ''route table to route traffic to the new interface.'' @ line_break"

definition serverCmd_Long :: "nat \<Rightarrow> string" where
  "serverCmd_Long port =
     ''This command initalizes a proxy server that will listen by default on port '' @ digits port @ ''.'' @ line_break @ tab_line @
     ''Request that are sent to the credential path (/v1/credentials) will be proxied to EKS to fetch temporary'' @ tab_line @
     ''AWS credentials. The AWS SDKs used from within EKS workloads can be configured to invoke this endpoint'' @ tab_line @
     ''for granular IAM permissions.'' @ line_break @ tab_line @
     ''Example use: '' @ [CHR 0x27] @ ''./eks-pod-identity-agent server'' @ [CHR 0x27]"

text \<open>The variables of the package are initialized first; \<open>serverCmd\<close> reads \<open>serverPort\<close>.\<close>

definition package_vars :: cmd_package where
  "package_vars =
     \<lparr>rootCmd =
        \<lparr>cmd_Use = ''eks-pod-identity-agent'',
         cmd_Short = ''The agent contains a proxy server and its initializer, for more information look at the server command'',
         cmd_Long = '''', cmd_Flags = [], cmd_Required = []\<rparr>,
      rootCmd_PersistentFlags = [], rootCmd_commands = [],
      initCmd =
        \<lparr>cmd_Use = ''initialize'',
         cmd_Short = ''Init configures the host, adding a new interface and updating route table'', cmd_Long = initCmd_Long, cmd_Flags = [], cmd_Required = []\<rparr>,
      serverCmd =
        \<lparr>cmd_Use = ''server'',
         cmd_Short = ''A proxy server that exchanges kubernetes service account token with temporary AWS credentials by calling EKS Auth APIs'',
         cmd_Long = serverCmd_Long (serverPort (server_vars zero_vars)), cmd_Flags = [], cmd_Required = []\<rparr>,
      versionCmd = \<lparr>cmd_Use = ''version'', cmd_Short = ''Prints agent version information'', cmd_Long = '''', cmd_Flags = [], cmd_Required = []\<rparr>\<rparr>"

definition AddCommand :: "command \<Rightarrow> cmd_package \<Rightarrow> cmd_package" where
  "AddCommand c p = p\<lparr>rootCmd_commands := rootCmd_commands p @ [cmd_Use c]\<rparr>"

text \<open>The declaration of a flag (\<open>StringVarP\<close> and its kin).\<close>

definition serverCmd_flag ::
  "string \<Rightarrow> string \<Rightarrow> var_ptr \<Rightarrow> flag_value \<Rightarrow> string \<Rightarrow> cmd_package \<Rightarrow> cmd_package" where
  "serverCmd_flag name shorthand ptr def usage p =
     p\<lparr>serverCmd := (serverCmd p)\<lparr>cmd_Flags := cmd_Flags (serverCmd p) @
       [\<lparr>flag_Name = name, flag_Shorthand = shorthand, flag_Var = ptr, flag_DefValue = def, flag_Usage = usage\<rparr>]\<rparr>\<rparr>"

section \<open>The \<open>init\<close> functions\<close>

definition init_init :: "cmd_package \<Rightarrow> cmd_package" where
  "init_init p = AddCommand (initCmd p) p"

definition root_init :: "cmd_package \<Rightarrow> cmd_package" where
  "root_init p =
     p\<lparr>rootCmd_PersistentFlags := rootCmd_PersistentFlags p @
       [\<lparr>flag_Name = ''verbosity'', flag_Shorthand = ''v'', flag_Var = PtrVerbosity, flag_DefValue = StringFlag ''info'',
         flag_Usage = ''Logging verbosity can be one of: panic, error, info, trace''\<rparr>]\<rparr>"

text \<open>\<open>MarkFlagRequired\<close>, a method of \<open>cobra\<close>, is an argument: the error it answers with, if any.\<close>

definition server_init :: "(command \<Rightarrow> string \<Rightarrow> goerr option) \<Rightarrow> cmd_package \<Rightarrow> cmd_package go" where
  "server_init MarkFlagRequired p =
     (let p1 = serverCmd_flag ''cluster-name'' ''c'' PtrClusterName (StringFlag '''')
                 ''Name of the EKS Cluster the agent will run on'' (AddCommand (serverCmd p) p) in
      case MarkFlagRequired (serverCmd p1) ''cluster-name'' of
        Some err \<Rightarrow> Panic
      | None \<Rightarrow>
          Ret (fold (\<lambda>(name, shorthand, ptr, def, usage). serverCmd_flag name shorthand ptr def usage)
            [(''port'', ''p'', PtrServerPort, Uint16Flag 80, ''Listening port of the proxy server''),
             (''probe-port'', '''', PtrProbePort, Uint16Flag 2703, ''Health and readiness listening port''),
             (''metrics-address'', '''', PtrMetricsAddress, StringFlag ''0.0.0.0'', ''Metrics listening address''),
             (''metrics-port'', '''', PtrMetricsPort, Uint16Flag 2705, ''Metrics listening port''),
             (''max-credential-retention-before-renewal'', '''', PtrCredentialRenewal, DurationFlag (3 * 60 * Minute),
               ''Maximum amount of time that agent waits before renewing credentials. Set 0 to disable caching.''),
             (''max-cache-size'', '''', PtrCacheSize, IntFlag 2000,
               ''Maximum amount of unique credentials to cache. Set 0 to disable caching.''),
             (''max-service-qps'', '''', PtrRefreshQps, IntFlag 3, ''Maximum amount of queries per second to EKS Auth''),
             (''bind-hosts'', ''b'', PtrBindHosts,
               StringArrayFlag [DefaultIpv4TargetHost, ''['' @ DefaultIpv6TargetHost @ '']''], ''Hosts to bind server to''),
             (''rotate-credentials'', '''', PtrRotateCredentials, BoolFlag False,
               ''Enable credentials rotation from shared credentials file''),
             (''endpoint'', '''', PtrEndpoint, StringFlag '''', ''Override for EKS auth endpoint'')]
            (p1\<lparr>serverCmd := (serverCmd p1)\<lparr>cmd_Required := cmd_Required (serverCmd p1) @ [''cluster-name'']\<rparr>\<rparr>)))"

definition version_init :: "cmd_package \<Rightarrow> cmd_package" where
  "version_init p = AddCommand (versionCmd p) p"

definition package_init :: "(command \<Rightarrow> string \<Rightarrow> goerr option) \<Rightarrow> cmd_package go" where
  "package_init MarkFlagRequired =
     (case server_init MarkFlagRequired (root_init (init_init package_vars)) of
        Panic \<Rightarrow> Panic
      | Ret p \<Rightarrow> Ret (version_init p))"

section \<open>Execution\<close>

text \<open>What \<open>cobra\<close> makes of the process's arguments: the chosen command, and the variables with the values of the flags.\<close>

datatype choice = UsageError goerr | ShowHelp | RunCommand string cmd_vars

text \<open>How the process goes on or ends. A server command goes on in \<open>startServers\<close>.\<close>

datatype 'n process_end =
  ExitStatus int
| PanicExit
| Prints string
| StartsServers agent_process
| InitializeEnds "unit outcome" 'n

definition server_command ::
  "'creds sdk \<Rightarrow> string option \<Rightarrow> (string \<Rightarrow> goerr + TokenValidator) \<Rightarrow> server_flags \<Rightarrow> 'n process_end" where
  "server_command sdk env_file new_tv fl =
     (case serverCmd_Run sdk env_file fl of
        Panics \<Rightarrow> PanicExit
      | Exits \<Rightarrow> ExitStatus 1
      | Returns cfg \<Rightarrow>
          (case createServers new_tv fl of Panic \<Rightarrow> PanicExit | Ret servers \<Rightarrow> StartsServers (startServers servers)))"

definition run_command ::
  "string \<Rightarrow> 'creds sdk \<Rightarrow> string option \<Rightarrow> (string \<Rightarrow> goerr + TokenValidator)
   \<Rightarrow> goerr + 'n NetlinkHandle \<Rightarrow> 'n \<Rightarrow> cmd_package \<Rightarrow> string \<Rightarrow> cmd_vars \<Rightarrow> 'n process_end" where
  "run_command AgentVersion sdk env_file new_tv NewHandle n p name v =
     (if name = cmd_Use (serverCmd p) then server_command sdk env_file new_tv (server_vars v)
      else if name = cmd_Use (initCmd p) then (case initCmd_Run NewHandle n of (result, n') \<Rightarrow> InitializeEnds result n')
      else Prints (versionCmd_output AgentVersion))"

definition Execute ::
  "(cmd_package \<Rightarrow> 'args \<Rightarrow> choice) \<Rightarrow> (string \<Rightarrow> goerr + 'level) \<Rightarrow> (cmd_package \<Rightarrow> string \<Rightarrow> cmd_vars \<Rightarrow> 'n process_end)
   \<Rightarrow> cmd_package \<Rightarrow> 'args \<Rightarrow> 'n process_end" where
  "Execute cobra ParseLevel run p args =
     (case cobra p args of
        UsageError err \<Rightarrow> ExitStatus 1
      | ShowHelp \<Rightarrow> ExitStatus 0
      | RunCommand name v \<Rightarrow>
          (case rootCmd_PersistentPreRun ParseLevel (loggingVerbosity v) of
             Panics \<Rightarrow> PanicExit
           | Exits \<Rightarrow> ExitStatus 1
           | Returns logger \<Rightarrow> run p name v))"

text \<open>The process: the initialization of the package, then \<open>main\<close>.\<close>

definition main ::
  "(command \<Rightarrow> string \<Rightarrow> goerr option) \<Rightarrow> (cmd_package \<Rightarrow> 'args \<Rightarrow> choice) \<Rightarrow> (string \<Rightarrow> goerr + 'level)
   \<Rightarrow> (cmd_package \<Rightarrow> string \<Rightarrow> cmd_vars \<Rightarrow> 'n process_end) \<Rightarrow> 'args \<Rightarrow> 'n process_end" where
  "main MarkFlagRequired cobra ParseLevel run args =
     (case package_init MarkFlagRequired of Panic \<Rightarrow> PanicExit | Ret p \<Rightarrow> Execute cobra ParseLevel run p args)"

text \<open>
  The help of the server command is made when the variables are initialized, before any default: it names 0 as the port the
  server listens on by default, where the flag's default is 80.
\<close>

lemma help_names_port_0:
  assumes "package_init MarkFlagRequired = Ret p"
  shows "cmd_Long (serverCmd p) = serverCmd_Long 0 \<and>
    (\<exists>f \<in> set (cmd_Flags (serverCmd p)). flag_Name f = ''port'' \<and> flag_Var f = PtrServerPort \<and> flag_DefValue f = Uint16Flag 80)"
  using assms
  by (auto simp: package_init_def server_init_def root_init_def init_init_def version_init_def package_vars_def AddCommand_def
      serverCmd_flag_def zero_vars_def Let_def split: option.splits)

end
