(* ===== verification/Process_Properties.thy ===== *)
theory Process_Properties
  imports Command_Line Agent_Properties
begin

text \<open>
  Properties of the process: its servers from start to shutdown, what the flags make of them, and the credentials the agent itself
  signs with.
\<close>

section \<open>Start and shutdown\<close>

text \<open>
  C26. In every interleaving of the goroutines, requests and the passing of time: a server that accepts connections has its
  handlers configured; no server begins to shut down before the signal has cancelled the context; and when the main
  goroutine returns, the signal has come and every server had started its listener, has
  stopped gracefully and has no request left.
\<close>

theorem servers_stop_only_after_the_signal:
  assumes "process_runs k (startServers servers) a"
  shows "length (ap_servers a) = length servers \<and>
    (\<forall>i < length servers.
       (sp_listener (ap_servers a ! i) = Listening \<longrightarrow> sp_server (ap_servers a ! i) = configureHandler (servers ! i)) \<and>
       (winding_down (ap_servers a ! i) \<longrightarrow> ap_cancelled a)) \<and>
    (ap_main a = AwaitingSignal \<longrightarrow> \<not> ap_cancelled a) \<and>
    (\<forall>i. ap_main a = Starting i \<longrightarrow> \<not> ap_cancelled a) \<and>
    (ap_main a = MainReturned \<longrightarrow> ap_cancelled a \<and>
       (\<forall>p \<in> set (ap_servers a). sp_phase p = GracefullyStopped \<and> sp_listener p \<noteq> NotSpawned \<and> sp_conns p = 0))"
proof -
  have ok: "agent_ok servers a" using assms by (rule agent_ok_runs)
  then have each: "length (ap_servers a) = length servers"
    "\<And>i. i < length servers \<Longrightarrow> process_ok (ap_now a) (ap_cancelled a) (servers ! i) (ap_servers a ! i)"
    by (auto simp: agent_ok_def list_all2_conv_all_nth)
  have "sp_listener p \<noteq> NotSpawned \<and> sp_conns p = 0"
    if "ap_main a = MainReturned" "p \<in> set (ap_servers a)" for p
  proof -
    obtain i where i: "i < length servers" "p = ap_servers a ! i"
      using \<open>p \<in> set _\<close> each(1) by (auto simp: in_set_conv_nth)
    moreover have "sp_phase p = GracefullyStopped" using ok that by (auto simp: agent_ok_def)
    ultimately show ?thesis using each(2)[OF i(1)] by (simp add: process_ok_def)
  qed
  moreover have "(sp_listener (ap_servers a ! i) = Listening \<longrightarrow> sp_server (ap_servers a ! i) = configureHandler (servers ! i)) \<and>
      (winding_down (ap_servers a ! i) \<longrightarrow> ap_cancelled a)"
    if "i < length servers" for i
    using each(2)[OF that] by (auto simp: process_ok_def winding_down_def split: phase.splits)
  ultimately show ?thesis using ok each(1) by (auto simp: agent_ok_def)
qed

text \<open>One server, by the states it goes through.\<close>

definition lone_server :: Server where
  "lone_server = NewProbeServer ''localhost:2703'' [''169.254.170.23''] 80"

definition lone :: "main_phase \<Rightarrow> bool \<Rightarrow> Server \<Rightarrow> phase \<Rightarrow> listener \<Rightarrow> nat \<Rightarrow> agent_process" where
  "lone mp cancelled srv ph l conns =
     \<lparr>ap_main = mp, ap_cancelled = cancelled, ap_wg = 1, ap_now = 0,
      ap_servers = [\<lparr>sp_server = srv, sp_phase = ph, sp_listener = l, sp_conns = conns\<rparr>]\<rparr>"

abbreviation lone_up :: "main_phase \<Rightarrow> bool \<Rightarrow> phase \<Rightarrow> nat \<Rightarrow> agent_process" where
  "lone_up mp cancelled ph conns \<equiv> lone mp cancelled (configureHandler lone_server) ph Listening conns"

lemma lone_server_step:
  assumes "server_step 0 cancelled \<lparr>sp_server = srv, sp_phase = ph, sp_listener = l, sp_conns = n\<rparr>
      \<lparr>sp_server = srv', sp_phase = ph', sp_listener = l', sp_conns = n\<rparr>" and "mp \<notin> {MainReturned, ProcessExited}"
  shows "agent_step (lone mp cancelled srv ph l n) (lone mp cancelled srv' ph' l' n)"
  using agent_step.server[of "lone mp cancelled srv ph l n" 0] assms by (auto simp: lone_def running_def)

lemma lone_listening: "process_runs 4 (startServers [lone_server]) (lone_up (Starting 1) False AwaitingCancel 0)"
proof -
  have "agent_step (startServers [lone_server]) (lone (Starting 1) False lone_server Spawned NotSpawned 0)"
    using spawn[of "startServers [lone_server]" 0] by (simp add: startServers_def lone_def)
  moreover have "agent_step (lone (Starting 1) False lone_server Spawned NotSpawned 0)
      (lone (Starting 1) False (configureHandler lone_server) Configured NotSpawned 0)"
    by (rule lone_server_step) (use configure[where p = "\<lparr>sp_server = lone_server, sp_phase = Spawned, sp_listener = NotSpawned, sp_conns = 0\<rparr>"] in simp_all)
  moreover have "agent_step (lone (Starting 1) False (configureHandler lone_server) Configured NotSpawned 0)
      (lone (Starting 1) False (configureHandler lone_server) AwaitingCancel ListenerSpawned 0)"
    by (rule lone_server_step) (use spawn_listener[where p = "\<lparr>sp_server = configureHandler lone_server, sp_phase = Configured, sp_listener = NotSpawned, sp_conns = 0\<rparr>"] in simp_all)
  moreover have "agent_step (lone (Starting 1) False (configureHandler lone_server) AwaitingCancel ListenerSpawned 0)
      (lone_up (Starting 1) False AwaitingCancel 0)"
    by (rule lone_server_step) (use listen[where p = "\<lparr>sp_server = configureHandler lone_server, sp_phase = AwaitingCancel, sp_listener = ListenerSpawned, sp_conns = 0\<rparr>"] in simp_all)
  ultimately have "process_runs (Suc (Suc (Suc (Suc 0)))) (startServers [lone_server]) (lone_up (Starting 1) False AwaitingCancel 0)"
    by (blast intro: run_start run_agent)
  then show ?thesis by (simp add: eval_nat_numeral)
qed

theorem servers_stop_only_after_the_signal_witness:
  "sp_listener (ap_servers (lone_up (Starting 1) False AwaitingCancel 0) ! 0) = Listening \<and>
   sp_server (ap_servers (lone_up (Starting 1) False AwaitingCancel 0) ! 0) = configureHandler lone_server"
  using servers_stop_only_after_the_signal[OF lone_listening] by (auto simp: lone_def)

text \<open>
  C25. The process ends, even if requests never do. With \<open>n\<close> servers the goroutines make at most \<open>8n + 3\<close> steps in any
  run, whatever requests come and however long it takes. From the moment every server has seen the cancelled context, \<open>maxTerminationWait\<close> is
  enough: when this time has passed, the goroutines can go on by themselves until the process has ended, without waiting for a request
  or for more time to pass. And if the requests end, the process can end with all servers stopped gracefully.
\<close>

theorem process_ends_after_the_signal:
  assumes "process_runs j (startServers servers) a" and "\<forall>p \<in> set (ap_servers a). winding_down p"
    and "process_runs k a b"
  shows "j + k \<le> 8 * length servers + 3 \<and>
    (ap_now a + maxTerminationWait \<le> ap_now b \<longrightarrow> ap_main b \<in> {MainReturned, ProcessExited} \<or> (\<exists>c. agent_step b c)) \<and>
    (ap_main b \<in> {AwaitingServers, MainReturned} \<longrightarrow> (\<exists>n c. process_runs n b c \<and> ap_main c = MainReturned))"
proof -
  have ok: "agent_ok servers a" using assms(1) by (rule agent_ok_runs)
  have "winding_down_by (ap_now a + maxTerminationWait) a"
    unfolding winding_down_by_def
  proof (intro ballI conjI)
    fix p
    assume p: "p \<in> set (ap_servers a)"
    then obtain srv where "process_ok (ap_now a) (ap_cancelled a) srv p"
      using ok by (auto simp: agent_ok_def list_all2_conv_all_nth in_set_conv_nth)
    then show "case sp_phase p of ShuttingDown d \<Rightarrow> d \<le> ap_now a + maxTerminationWait | _ \<Rightarrow> True"
      by (auto simp: process_ok_def split: phase.splits)
  qed (use assms(2) in blast)
  then have by_b: "winding_down_by (ap_now a + maxTerminationWait) b" using winding_down_runs[OF assms(3) ok] by blast
  have run: "process_runs (j + k) (startServers servers) b" using assms(3,1) by (rule process_runs_trans)
  then have ok_b: "agent_ok servers b" by (rule agent_ok_runs)
  show ?thesis
    using runs_are_bounded[OF run agent_ok_start] progress_after_deadline[OF ok_b by_b] can_stop[OF ok_b]
    by (auto simp: steps_left_start running_def)
qed

text \<open>A request that never ends: the deadline comes, and the process exits.\<close>

lemma lone_hanging: "process_runs 7 (startServers [lone_server]) (lone_up AwaitingServers True (ShuttingDown maxTerminationWait) 1)"
proof -
  have "outside_step (lone_up (Starting 1) False AwaitingCancel 0) (lone_up (Starting 1) False AwaitingCancel 1)"
    using accept[of "lone_up (Starting 1) False AwaitingCancel 0" 0] by (simp add: lone_def running_def)
  moreover have "agent_step (lone_up (Starting 1) False AwaitingCancel 1) (lone_up AwaitingSignal False AwaitingCancel 1)"
    using notify[of "lone_up (Starting 1) False AwaitingCancel 1"] by (simp add: lone_def)
  moreover have "agent_step (lone_up AwaitingSignal False AwaitingCancel 1) (lone_up AwaitingServers True AwaitingCancel 1)"
    using signal[of "lone_up AwaitingSignal False AwaitingCancel 1"] by (simp add: lone_def)
  moreover have "agent_step (lone_up AwaitingServers True AwaitingCancel 1) (lone_up AwaitingServers True (ShuttingDown maxTerminationWait) 1)"
    by (rule lone_server_step) (use cancel_seen[where p = "\<lparr>sp_server = configureHandler lone_server, sp_phase = AwaitingCancel, sp_listener = Listening, sp_conns = 1\<rparr>" and now = 0] in simp_all)
  ultimately have "process_runs (Suc (Suc (Suc 4))) (startServers [lone_server]) (lone_up AwaitingServers True (ShuttingDown maxTerminationWait) 1)"
    using lone_listening by (blast intro: run_agent run_outside)
  then show ?thesis by (simp add: eval_nat_numeral)
qed

theorem process_ends_after_the_signal_witness:
  "\<exists>b c. process_runs 0 (lone_up AwaitingServers True (ShuttingDown maxTerminationWait) 1) b \<and>
     ap_now b = maxTerminationWait \<and> sp_conns (ap_servers b ! 0) = 1 \<and> agent_step b c"
proof -
  let ?a = "lone_up AwaitingServers True (ShuttingDown maxTerminationWait) 1"
  let ?b = "?a\<lparr>ap_now := maxTerminationWait\<rparr>"
  have b: "process_runs 0 ?a ?b"
    by (rule run_outside[OF run_start pass]) (simp_all add: lone_def running_def maxTerminationWait_pos)
  have "\<forall>p \<in> set (ap_servers ?a). winding_down p" by (simp add: lone_def winding_down_def)
  from process_ends_after_the_signal[OF lone_hanging this b] have "\<exists>c. agent_step ?b c" by (simp add: lone_def)
  then obtain c where "agent_step ?b c" ..
  with b have "process_runs 0 ?a ?b \<and> ap_now ?b = maxTerminationWait \<and> sp_conns (ap_servers ?b ! 0) = 1 \<and> agent_step ?b c"
    by (simp add: lone_def)
  then show ?thesis by blast
qed

section \<open>The agent's own credentials\<close>





section \<open>From the flags to the servers\<close>


lemma traverse_go_Ret: "traverse_go f xs = Ret ys \<Longrightarrow> list_all2 (\<lambda>x y. f x = Ret y) xs ys"
  by (induction xs arbitrary: ys) (auto split: go.splits)





text \<open>
  C39. The health checks watch the servers that were started. Every credential server answers a request for its root path with 404 and without touching
  anything. A probe the limiter lets pass, on the probe server or the metrics server, is answered with 200 exactly when each credential server's
  own address answers such a request with 404.
\<close>

theorem probes_watch_the_credential_servers:
  assumes "createServers new_tv fl = Ret servers" and "s \<in> set servers" and "srv_configurer s = Some (Probe p)"
    and "path \<in> {''/readyz'', ''/healthz''}" and "Allow (NewRateLimiter 1000) (ticks w)"
  shows "(\<forall>t \<in> set servers. \<forall>h. srv_configurer t = Some (Credential h) \<longrightarrow>
      run_state (serve env Allow NewRequest Do metrics (configureHandler t) ''/'' r) w = (Ret not_found, w)) \<and>
    (\<exists>response. run_state (serve env Allow NewRequest Do metrics (configureHandler s) path r) w =
        (Ret response, w\<lparr>ticks := Suc (ticks w)\<rparr>) \<and>
      (StatusCode response = 200 \<longleftrightarrow>
        (\<forall>t \<in> set servers. \<forall>h. srv_configurer t = Some (Credential h) \<longrightarrow>
           NewRequest (''http://'' @ srv_Addr t) = None \<and> Do (''http://'' @ srv_Addr t) = Inr (StatusCode not_found))))"
proof -
  let ?addr = "\<lambda>host. host @ '':'' @ digits (serverPort fl)"
  obtain creds where servers: "servers = creds @
      [NewProbeServer (''localhost:'' @ digits (probePort fl)) (bindHosts fl) (serverPort fl),
       NewMetricsServer (metricsAddress fl @ '':'' @ digits (metricsPort fl)) (bindHosts fl) (serverPort fl)]"
    and creds: "list_all2 (\<lambda>host t. NewEksCredentialServer (new_tv host) (?addr host) (handler_opts fl) = Ret t) (bindHosts fl) creds"
    using assms(1) traverse_go_Ret by (auto simp: createServers_def split: go.splits)
  have one: "\<exists>h. srv_configurer t = Some (Credential h) \<and> srv_mux t = [] \<and> srv_Addr t = addr"
    if "NewEksCredentialServer tv addr opts = Ret t" for tv addr opts t
    using that by (auto simp: NewEksCredentialServer_def newBaseServer_def split: go.splits)
  have credential: "\<exists>h. srv_configurer t = Some (Credential h) \<and> srv_mux t = []" if "t \<in> set creds" for t
    using that creds one by (fastforce simp: list_all2_conv_all_nth in_set_conv_nth)
  have "map srv_Addr creds = map ?addr (bindHosts fl)"
    using creds by (induction rule: list_all2_induct) (auto dest!: one)
  then have addrs: "srv_Addr ` set creds = ?addr ` set (bindHosts fl)" by (metis list.set_map)
  have p: "p = NewProbeHandler (bindHosts fl) (serverPort fl)" "srv_mux s \<in> {[], [(''/metrics'', MetricsRoute)]}"
    using assms(2,3) credential
    by (fastforce simp: servers NewProbeServer_def NewMetricsServer_def newBaseServer_def)+
  have root: "run_state (serve env Allow NewRequest Do metrics (configureHandler t) ''/'' r) w = (Ret not_found, w)"
    if "t \<in> set servers" "srv_configurer t = Some (Credential h)" for t h
  proof -
    have "t \<in> set creds" using that by (auto simp: servers NewProbeServer_def NewMetricsServer_def newBaseServer_def)
    then show ?thesis using credential[of t]
      by (auto simp: configureHandler_def patterns_def credential_patterns_def serve_def)
  qed
  have "map_of (srv_mux (configureHandler s)) path = Some (Limited (NewRateLimiter 1000) (Probe p))"
    using assms(3,4) p(2) by (auto simp: configureHandler_def patterns_def probe_patterns_def RequestRate_def)
  then have probe: "run_state (serve env Allow NewRequest Do metrics (configureHandler s) path r) w =
      (Ret (HandleProbe NewRequest Do p), w\<lparr>ticks := Suc (ticks w)\<rparr>)"
    using assms(5) by (simp add: serve_def RateLimitMiddleware_def InjectLogger_def run_configurer_def)
  have cred_iff: "t \<in> set creds \<longleftrightarrow> t \<in> set servers \<and> (\<exists>h. srv_configurer t = Some (Credential h))" for t
    using credential by (auto simp: servers NewProbeServer_def NewMetricsServer_def newBaseServer_def)
  have "StatusCode (HandleProbe NewRequest Do p) = 200 \<longleftrightarrow> probeAddrs NewRequest Do (map ?addr (bindHosts fl)) = None"
    by (simp add: p(1) NewProbeHandler_def HandleProbe_def http_status split: option.split)
  also have "\<dots> \<longleftrightarrow> (\<forall>a \<in> srv_Addr ` set creds. NewRequest (''http://'' @ a) = None \<and> Do (''http://'' @ a) = Inr StatusNotFound)"
    by (simp add: probeAddrs_None addrs)
  finally show ?thesis using root probe cred_iff by (auto simp: not_found_def http_Error_def)
qed

theorem probes_watch_the_credential_servers_witness:
  "\<exists>servers. createServers (\<lambda>_. Inl (Plain [])) (default_flags ''c'') = Ret servers \<and>
     (\<exists>response. run_state (serve closed_env (\<lambda>_ _. True) (\<lambda>_. None)
        (\<lambda>url. if url = ''http://169.254.170.23:80'' then Inr 404 else Inl (Plain [])) not_found (configureHandler (servers ! 2)) ''/healthz''
        \<lparr>Authorization = '''', Host = ''h'', RemoteAddr = '''', ReqContext = Background\<rparr>) idle_world =
        (Ret response, idle_world\<lparr>ticks := Suc (ticks idle_world)\<rparr>) \<and> StatusCode response \<noteq> 200)"
proof -
  let ?Do = "\<lambda>url. if url = ''http://169.254.170.23:80'' then Inr 404 else Inl (Plain [])"
  let ?r = "\<lparr>Authorization = '''', Host = ''h'', RemoteAddr = '''', ReqContext = Background\<rparr>"
  obtain s4 s6 probe metrics h where s: "createServers (\<lambda>_. Inl (Plain [])) (default_flags ''c'') = Ret [s4, s6, probe, metrics]"
    "srv_Addr s6 = ''[fd00:ec2::23]:80''" "srv_configurer s6 = Some (Credential h)"
    using default_servers[of "\<lambda>_. Inl (Plain [])" "''c''"] by auto
  then have "srv_configurer probe = Some (Probe (NewProbeHandler (bindHosts (default_flags ''c'')) 80))"
    by (auto simp: createServers_def NewProbeServer_def default_flags_def split: go.splits)
  from probes_watch_the_credential_servers[OF s(1) _ this, of "''/healthz''" "\<lambda>_ _. True" idle_world closed_env "\<lambda>_. None" ?Do not_found ?r]
  show ?thesis using s by (auto intro!: exI[of _ "[s4, s6, probe, metrics]"])
qed

end
