(* ===== verification/Spec2Isabelle.thy ===== *)
theory Spec2Isabelle
  imports Cache_Properties Retriever_Waiting Failure_Properties Agent_Properties Process_Properties
begin

text \<open>
  A verification development of the EKS Pod Identity Agent, the node agent that exchanges Kubernetes
  service account tokens for temporary AWS credentials. The sources are under \<open>src/\<close>.

  \<^bold>\<open>The program.\<close> A pod sends its service account token to the HTTP endpoint \<open>/v1/credentials\<close> of a server that
  listens on a link-local address (\<open>pkg/server\<close>, behind a logger and a rate limiter of
  \<open>internal/middleware\<close>). The credential handler (\<open>pkg/handlers\<close>) validates the request
  (\<open>internal/validation/request.go\<close>) and asks a retriever. With caching enabled that is the caching
  retriever (\<open>internal/credsretriever\<close>), which keeps the credentials of each pod in an expiring LRU
  cache (\<open>internal/cache/expiring\<close>), renews them in the background, and fetches missing ones from its delegate, EKS
  Auth (\<open>internal/cloud/eksauth\<close>). A pod whose token has been rotated gets the cached credentials when the
  token validator (\<open>internal/validation\<close>) accepts the new token: its claims, and its signature under a
  key the API server publishes, which is also kept in a file. The \<open>server\<close> command (\<open>cmd/server.go\<close>)
  configures and starts the servers; the \<open>initialize\<close> command (\<open>pkg/initalizer\<close>) makes the network interface
  the servers bind to.

  \<^bold>\<open>Theories\<close>, in the order of their imports.
  \<^item> \<open>Prelude\<close>: 64-bit integers and durations with their wrap-around, Go's results (\<open>Ret\<close>, \<open>Panic\<close>), generic lemmas, and the
    locale of a transition system with an invariant.
  \<^item> \<open>Lru\<close> (\<open>lru.go\<close>), \<open>Expiring_Cache\<close> (\<open>cache.go\<close>): one definition per method; a method is atomic because it holds the
    mutex, and the callbacks it makes after unlocking are part of its result. \<open>Cache_Laws\<close>: the invariant
    and the locales that state what a store promises its clients, interpreted on the cache. \<open>Cache_Refinement\<close>: the abstract specification,
    a bounded list ordered by recency with the documented behaviour of every method but \<open>Rename\<close>, and the proof that each method refines it.
    \<open>Cache_Properties\<close>: the properties.
  \<^item> \<open>Agent_Errors\<close> (\<open>pkg/errors\<close>, \<open>eksauth/errors.go\<close>), \<open>Credentials\<close> (\<open>pkg/credentials\<close>, \<open>configuration\<close>, the pod
    a token names), \<open>Claims\<close>, \<open>Request_Validation\<close>: the pure parts of the request path.
  \<^item> \<open>Effects\<close>: goroutines as programs of the state monad over shared memory, with the rules of rely and guarantee. \<open>Interleaving\<close>: the
    same programs as threads that show their sections, systems of goroutines that interleave them, what a
    system keeps when every thread guarantees it, and flags that one goroutine holds at a time.
  \<^item> \<open>Retriever\<close> (\<open>refreshing_cache.go\<close>): every method as such a program; \<open>Retriever_Threads\<close>: the same as threads, with
    the proof that each denotes its program; \<open>Retriever_Laws\<close>: the protocol the goroutines follow, its invariant, and that every section of
    every thread follows it; \<open>Retriever_Behaviour\<close>: what undisturbed runs do;
    \<open>Retriever_Properties\<close>; \<open>Retriever_Waiting\<close>: requests that wait for another one with the same token.
  \<^item> \<open>Json\<close>: \<open>encoding/json\<close> as far as it is used, a parser and a printer with their round trip. \<open>Jwk\<close>
    (\<open>jwk.go\<close>), \<open>Jwk_Store\<close> (\<open>jwk_store.go\<close>), \<open>Token_Validator\<close> (\<open>token_validator.go\<close>,
    \<open>apiserver_client.go\<close>), \<open>Validator_Threads\<close>, \<open>Validator_Laws\<close>, \<open>Validator_System\<close> (all goroutines over one validator),
    \<open>Validator_Properties\<close>.
  \<^item> \<open>Eks_Auth\<close> (\<open>eksauth/service.go\<close>), \<open>Logging\<close> (\<open>middleware/logger\<close>, an entry as the calls of \<open>logrus\<close> that make it), \<open>Handlers\<close> (\<open>pkg/handlers\<close>), \<open>Server\<close>
    (\<open>middleware/rate_limiter\<close>, \<open>pkg/server\<close>, the flags of \<open>cmd/server.go\<close>), \<open>Iproute\<close> (\<open>pkg/initalizer\<close>),
    \<open>Handler_Laws\<close>, \<open>Agent_Properties\<close>. \<open>Agent_System\<close>: requests, janitor sweeps and the initialization of the
    validator as goroutines of one system; \<open>System_Properties\<close>; \<open>Failure_Properties\<close>: errors and incomplete answers of EKS Auth.
  \<^item> \<open>Lifecycle\<close> (\<open>startServers\<close> and \<open>ListenUntilContextCancelled\<close> as a step relation, with the wait group, requests in
    service, time and the deadline of a shutdown), \<open>Shared_Credentials\<close>
    (\<open>internal/sharedcredsrotater\<close>), \<open>Commands\<close> (the bodies of the commands, \<open>cmd\<close>), \<open>Command_Line\<close> (\<open>main.go\<close>, the declarations of the flags, the
    \<open>init\<close> functions and \<open>Execute\<close>), \<open>Process_Properties\<close>.
  \<^item> This theory: the properties that span components.

  \<^bold>\<open>State and time.\<close> Structs are records and mutable structs are passed along. Everything outside the
  repository (the JWT library, the AWS SDK, \<open>cobra\<close> with its parsing of flags, netlink, the REST client, the clock, the file system's answers, random numbers) is an
  argument, and every answer that may change from call to call is a function of a counter that the
  program increments. Goroutines meet only in critical sections. A program is run with a function \<open>others\<close> for what the others do before
  each of its sections; a system (\<open>goroutine_step\<close>, \<open>validator_step\<close>) has any number of goroutines and interleaves their sections,
  questions and events in any order, so that its theorems assume nothing of the others: every thread is proved to change the memory by steps of
  the protocol (\<open>retriever_step\<close>, \<open>tv_step\<close>) only. Panics and the end of the process are values: a panic of the delegate unwinds the programs
  that called it through their deferred calls; \<open>net/http\<close> recovers it in a request, the validator recovers its own, and in a sweep it ends the process.

  \<^bold>\<open>What is shown.\<close> For the cache: capacity, refinement of its documented behaviour over all sequences of calls without \<open>Rename\<close>, which loses the bound, exact refresh and eviction.
  For the retriever: credentials are served only to tokens that name the pod they were issued for and that
  were accepted, with time left; entries are bounded; one validator at a time is made; a request is bounded in calls and sleep, and what one that waits
  does is determined by what it sees; what a renewal stores when it succeeds and when it fails; what becomes of errors, and that only an incomplete answer of EKS Auth can abort a request or end the agent. For the validator: accepted tokens are signed by a known key; keys are fetched by one goroutine at a time; the file
  survives crashes; fallback and refresh case by case. For the rest: which requests and claims pass, statuses of errors, the JSON
  of an answer, the order and outcome of the initialization, the servers the flags make, which of them the health checks watch, their start and their shutdown within its deadline, and
  that rotated credentials are fresh. The last theorems
  join them: \<open>answers_are_authorised\<close> from the HTTP answer to the signature.

  \<^bold>\<open>Bounds and fuel.\<close> The JSON parser recurses on fuel, one more than twice its input's length, which is proved to suffice
  for every text (\<open>Json\<close>), and has the nesting limit of \<open>encoding/json\<close>. All other loops are structural
  recursions over the data the code ranges over, or count the attempts the code has left (ten in \<open>GetIamCredentials\<close>). Integers
  wrap at 64 bits where the code computes with them (\<open>int64\<close>); times are nanoseconds as unbounded integers, and differences saturate
  as in \<open>time.Sub\<close>.

  \<^bold>\<open>Not modelled.\<close> What is logged; the deadlines of contexts other than that of a shutdown (a call that times out is one that returns an error); a signal
  before \<open>signal.Notify\<close>, which ends the process at once;
  file permissions; the internals of the HTTP server and of the Prometheus registry; the parser of the command line, of
  which only its choice of a command and of the variables' values is used; the generated mocks and the test helpers.
\<close>

section \<open>From the HTTP request to the signature\<close>

lemma credentials_come_from_EksAuth:
  assumes "service_GetIamCredentials call arn q = Ret (Inr (creds, a))"
  shows "\<exists>inp out c. in_Token inp = ServiceAccountToken q \<and> call inp = Inr out \<and>
    out_Credentials out = Some c \<and> sdk_AccessKeyId c = Some (AccessKeyId creds) \<and>
    sdk_SecretAccessKey c = Some (SecretAccessKey creds) \<and> sdk_SessionToken c = Some (Token creds) \<and>
    sdk_Expiration c = Some (CredsExpiration creds)"
  using service_success[OF assms] by (metis AssumeRoleForPodIdentityInput.select_convs(2))

text \<open>What it means, where the delegate is EKS Auth, that credentials were issued and that a token was accepted.\<close>

lemma issued_by_EksAuth:
  assumes "issued env uid creds"
    and "delegate env = (\<lambda>n. service_GetIamCredentials (AssumeRoleForPodIdentity n) arn_AccountID)"
  shows "\<exists>n inp out c. getPodUIDfromServiceAccountToken (jwt env) (in_Token inp) = Inr uid \<and>
    AssumeRoleForPodIdentity n inp = Inr out \<and> out_Credentials out = Some c \<and>
    sdk_AccessKeyId c = Some (AccessKeyId creds) \<and> sdk_SecretAccessKey c = Some (SecretAccessKey creds) \<and>
    sdk_SessionToken c = Some (Token creds) \<and> sdk_Expiration c = Some (CredsExpiration creds)"
proof -
  obtain n q a where q: "delegate env n q = Ret (Inr (creds, a))" "names_pod env (ServiceAccountToken q) uid"
    using assms(1) by (auto simp: issued_def)
  show ?thesis using credentials_come_from_EksAuth[OF q(1)[unfolded assms(2)]] q(2) unfolding names_pod_def by metis
qed

lemma accepted_by_EksAuth_or_validator:
  assumes "accepted env tok"
    and "delegate env = (\<lambda>n. service_GetIamCredentials (AssumeRoleForPodIdentity n) arn_AccountID)"
    and "\<And>n tv q. validator env n tv q = None \<Longrightarrow> P (ServiceAccountToken q)"
  shows "(\<exists>n inp out. in_Token inp = tok \<and> AssumeRoleForPodIdentity n inp = Inr out) \<or> P tok"
proof -
  have "\<exists>n inp out. in_Token inp = tok \<and> AssumeRoleForPodIdentity n inp = Inr out"
    if "ServiceAccountToken q = tok" "delegate env n q = Ret (Inr a)" for n q a
    using credentials_come_from_EksAuth[of _ _ q "fst a" "snd a"] that(2)[unfolded assms(2)] that(1) by fastforce
  then show ?thesis using assms(1,3) unfolding accepted_def by blast
qed

text \<open>
  C1. What an answer with credentials means, through all components and in every interleaving. Any number of HTTP
  requests, janitor sweeps and initializations run over one retriever; whenever the token validator accepts, that is a run of
  \<open>ValidateToken\<close> among any number of goroutines over a validator; the delegate is the EKS Auth service; and
  \<open>jwt.Parse\<close> checks signatures. Then a request that has been answered with credentials named one of the agent's two addresses; its token
  is not empty and its registered claims were valid while the request ran; the body is the JSON form of credentials that EKS Auth
  returned for a token of the pod the request's token names, and that had more than 15 seconds left while the request ran;
  and the request's token was accepted by EKS Auth itself, or its signature verifies under a key the API server (or the
  cache file) listed under the key id of its header, with the Kubernetes claims present and,
  unless the endpoint is overridden, the expected audience alone.
\<close>

theorem answers_are_authorised:
  fixes env :: "('reg, public_key, TokenValidator) renv" and venv :: "('reg, 'ver) venv"
  assumes "(goroutine_step env h new)\<^sup>*\<^sup>* (idle_system (newCachedCredentialRetriever opts)) S"
    and "goroutines S i = Some g" and "job g = HttpRequest req" and "rest g = Done (Answered answer)" and "Body answer = JSON body"
    and "CredentialRetriever h = Some r" and "RequestValidator h = \<lparr>TargetHosts = None\<rparr>"
    and "NewTokenValidator f client = Inr s0" and "temp_apart venv defaultJWKCachePath"
    and validator_runs: "\<And>n tv q. validator env n tv q = None \<Longrightarrow>
      \<exists>b T l k. (b \<longrightarrow> overridden) \<and> (validator_step venv)\<^sup>*\<^sup>* (idle_system (s0\<lparr>EndpointOverridden := b\<rparr>)) T \<and>
        goroutines T l = Some k \<and> job k = ValidateRequest q \<and> rest k = Done None"
    and delegate_is: "delegate env = (\<lambda>n. service_GetIamCredentials (AssumeRoleForPodIdentity n) arn_AccountID)"
    and jwt_law: "\<And>tok kf. jwt_Parse (vjwt venv) tok kf = Ret None \<Longrightarrow>
      \<exists>t key. ParseUnverified (vjwt venv) tok = Inr t \<and> kf t = Inr key \<and> verifies tok key"
  shows "stripBrackets (stripHostPort (Host req)) \<in> {''169.254.170.23'', ''fd00:ec2::23''} \<and>
    Authorization req \<noteq> '''' \<and>
    (\<exists>k claims. started g \<le> k \<and> ParseRegistered (jwt env) (Authorization req) = Inr claims \<and>
       ValidateRegistered (jwt env) (clock env k) claims = None) \<and>
    (\<exists>uid creds. getPodUIDfromServiceAccountToken (jwt env) (Authorization req) = Inr uid \<and>
       response_Marshal creds = Some body \<and> (\<exists>k. started g \<le> k \<and> clock env k + 15 * Second < CredsExpiration creds) \<and>
       (\<exists>n inp out c. getPodUIDfromServiceAccountToken (jwt env) (in_Token inp) = Inr uid \<and>
          AssumeRoleForPodIdentity n inp = Inr out \<and> out_Credentials out = Some c \<and>
          sdk_AccessKeyId c = Some (AccessKeyId creds) \<and> sdk_SecretAccessKey c = Some (SecretAccessKey creds) \<and>
          sdk_SessionToken c = Some (Token creds) \<and> sdk_Expiration c = Some (CredsExpiration creds))) \<and>
    ((\<exists>n inp out. in_Token inp = Authorization req \<and> AssumeRoleForPodIdentity n inp = Inr out) \<or>
     (\<exists>t kid claims ck. ParseUnverified (vjwt venv) (Authorization req) = Inr t \<and>
        get_string (jwt_Header t) ''kid'' = Some kid \<and> trusted_key venv (f defaultJWKCachePath) kid ck \<and>
        get_string_or_empty (jwt_Header t) ''alg'' = ck_alg ck \<and> verifies (Authorization req) (ck_key ck) \<and>
        jwt_Claims t = MapClaims claims \<and> validateKubernetesClaims claims = None \<and>
        (overridden \<or> toStringSlice (map_of claims ''aud'') = [''pods.eks.amazonaws.com''])))"
proof -
  obtain creds where body: "response_Marshal creds = Some body" and auth: "authorised env h req (started g) creds"
    using agent_results(3)[OF goroutine_steps[OF assms(1)] assms(2,4)] assms(3,5) by (auto simp: agent_promise_def)
  obtain k uid where k: "started g \<le> k"
    and checked: "ValidateEksCredentialRequest (jwt env) (clock env k) \<lparr>TargetHosts = None\<rparr> (creds_request h req) = None"
    and uid: "names_pod env (Authorization req) uid" and served: "servable env (started g) uid (creds_request h req) creds"
    using auth assms(6,7) by (auto simp: authorised_def supplied_def)
  note checked = checked[unfolded ValidateEksCredentialRequest_None creds_request_fields]
  have signed: "\<exists>b. (b \<longrightarrow> overridden) \<and> accepted_token venv (f defaultJWKCachePath) b (ServiceAccountToken q)"
    if "validator env n tv q = None" for n tv q
    using validator_runs[OF that] validator_accepts[OF assms(8,9)] by metis
  have "(\<exists>n inp out. in_Token inp = Authorization req \<and> AssumeRoleForPodIdentity n inp = Inr out) \<or>
      (\<exists>b. (b \<longrightarrow> overridden) \<and> accepted_token venv (f defaultJWKCachePath) b (Authorization req))"
    using served
    by (intro accepted_by_EksAuth_or_validator[where P = "\<lambda>tok. \<exists>b. (b \<longrightarrow> overridden) \<and> accepted_token venv (f defaultJWKCachePath) b tok",
          OF _ delegate_is signed]) (simp_all add: servable_def)
  then have "(\<exists>n inp out. in_Token inp = Authorization req \<and> AssumeRoleForPodIdentity n inp = Inr out) \<or>
     (\<exists>t kid claims ck. ParseUnverified (vjwt venv) (Authorization req) = Inr t \<and>
        get_string (jwt_Header t) ''kid'' = Some kid \<and> trusted_key venv (f defaultJWKCachePath) kid ck \<and>
        get_string_or_empty (jwt_Header t) ''alg'' = ck_alg ck \<and> verifies (Authorization req) (ck_key ck) \<and>
        jwt_Claims t = MapClaims claims \<and> validateKubernetesClaims claims = None \<and>
        (overridden \<or> toStringSlice (map_of claims ''aud'') = [''pods.eks.amazonaws.com'']))"
    using accepted_token_verified[OF _ jwt_law] unfolding expectedAudience_def by blast
  moreover have "\<exists>k. started g \<le> k \<and> clock env k + 15 * Second < CredsExpiration creds"
    using served by (auto simp: servable_def fresh_since_def defaultMinCredentialTtl_def)
  moreover have "\<exists>n inp out c. getPodUIDfromServiceAccountToken (jwt env) (in_Token inp) = Inr uid \<and>
      AssumeRoleForPodIdentity n inp = Inr out \<and> out_Credentials out = Some c \<and>
      sdk_AccessKeyId c = Some (AccessKeyId creds) \<and> sdk_SecretAccessKey c = Some (SecretAccessKey creds) \<and>
      sdk_SessionToken c = Some (Token creds) \<and> sdk_Expiration c = Some (CredsExpiration creds)"
    using served by (intro issued_by_EksAuth[where env = env and arn_AccountID = arn_AccountID] delegate_is) (simp_all add: servable_def)
  moreover have "stripBrackets (stripHostPort (Host req)) \<in> {''169.254.170.23'', ''fd00:ec2::23''}"
    using checked by (auto simp: defaultValidTargetHosts_def DefaultIpv4TargetHost_def DefaultIpv6TargetHost_def)
  moreover have "getPodUIDfromServiceAccountToken (jwt env) (Authorization req) = Inr uid"
    using uid by (simp add: names_pod_def)
  ultimately show ?thesis using checked body k by blast
qed

theorem answers_are_authorised_witness:
  "\<exists>S g answer body uid creds c.
     (goroutine_step agent_env agent_handler (\<lambda>n. Inr demo_validator))\<^sup>*\<^sup>* (idle_system (newCachedCredentialRetriever agent_opts)) S \<and>
     goroutines S 0 = Some g \<and> rest g = Done (Answered answer) \<and> Body answer = JSON body \<and>
     getPodUIDfromServiceAccountToken (jwt agent_env) ''tok'' = Inr uid \<and> response_Marshal creds = Some body \<and>
     out_Credentials eks_output = Some c \<and> sdk_AccessKeyId c = Some (AccessKeyId creds)"
proof -
  obtain S g answer body where
    S: "(goroutine_step agent_env agent_handler (\<lambda>n. Inr demo_validator))\<^sup>*\<^sup>* (idle_system (newCachedCredentialRetriever agent_opts)) S"
    and g: "goroutines S 0 = Some g" "job g = HttpRequest agent_call" "rest g = Done (Answered answer)" "Body answer = JSON body"
    using agent_system_run[of "\<lambda>n. Inr demo_validator"] by blast
  have h: "CredentialRetriever agent_handler = Some (newCachedCredentialRetriever agent_opts)"
    "RequestValidator agent_handler = \<lparr>TargetHosts = None\<rparr>"
    by (simp_all add: agent_handler_def)
  have runs: "\<exists>b T l k. (b \<longrightarrow> False) \<and> (validator_step still_venv)\<^sup>*\<^sup>* (idle_system (demo_validator\<lparr>EndpointOverridden := b\<rparr>)) T \<and>
      goroutines T l = Some k \<and> job k = ValidateRequest q \<and> rest k = Done None"
    if "validator agent_env n tv q = None" for n tv q
    using demo_validation[of q None] that by (auto simp: agent_env_def)
  have service: "delegate agent_env = (\<lambda>n. service_GetIamCredentials (\<lambda>inp. Inr eks_output) (\<lambda>x. Inr ''7''))"
    by (simp add: agent_env_def)
  have "\<exists>uid creds. getPodUIDfromServiceAccountToken (jwt agent_env) (Authorization agent_call) = Inr uid \<and>
      response_Marshal creds = Some body \<and>
      (\<exists>k. started g \<le> k \<and> clock agent_env k + 15 * Second < CredsExpiration creds) \<and>
      (\<exists>(n :: nat) (inp :: AssumeRoleForPodIdentityInput) out c. getPodUIDfromServiceAccountToken (jwt agent_env) (in_Token inp) = Inr uid \<and>
          (Inr eks_output :: goerr + AssumeRoleForPodIdentityOutput) = Inr out \<and> out_Credentials out = Some c \<and>
          sdk_AccessKeyId c = Some (AccessKeyId creds) \<and> sdk_SecretAccessKey c = Some (SecretAccessKey creds) \<and>
          sdk_SessionToken c = Some (Token creds) \<and> sdk_Expiration c = Some (CredsExpiration creds))"
    by (rule answers_are_authorised[where AssumeRoleForPodIdentity = "\<lambda>n inp. Inr eks_output", THEN conjunct2, THEN conjunct2, THEN conjunct2, THEN conjunct1,
          OF S g h demo_new still_temp_apart]) (erule runs, rule service, erule demo_jwt_law)
  moreover have "Authorization agent_call = ''tok''" by (simp add: agent_call_def)
  ultimately show ?thesis using S g by (metis sum.inject(2))
qed

section \<open>A validator that comes late\<close>

text \<open>
  C36. When the agent starts with a working token validator, that validator knows whether the EKS Auth
  endpoint is overridden. When the start fails and the retriever makes the validator later, the new one
  never knows: with an overridden endpoint it rejects every token of another audience, which the
  first one lets pass.
\<close>

theorem late_validator_ignores_the_override:
  assumes "undisturbed env" and "NewTokenValidator f client = Inr v"
    and "NewEksCredentialHandler (Inr v) opts = Ret h" and "CredentialRetriever h = Some r"
    and "w' = snd (run_state (tvInit_goroutine env (\<lambda>n. NewTokenValidator f client)) w)"
  shows "(\<exists>v1. tokenValidator r = Some v1 \<and> EndpointOverridden v1 = opt_EndpointOverridden opts) \<and>
    (\<exists>v2. tokenValidator (shared w') = Some v2 \<and> \<not> EndpointOverridden v2 \<and>
      (\<forall>t claims. jwt_Claims t = MapClaims claims \<and> toStringSlice (map_of claims ''aud'') \<noteq> [''pods.eks.amazonaws.com''] \<longrightarrow>
         ValidateClaims (EndpointOverridden v2) t \<noteq> None)) \<and>
    \<not> tvInitInFlight (shared w')"
proof -
  have "\<exists>v1. tokenValidator r = Some v1 \<and> EndpointOverridden v1 = opt_EndpointOverridden opts"
    using assms(3,4)
    by (auto simp: NewEksCredentialHandler_def NewCachedCredentialRetriever_def newCachedCredentialRetriever_def
        Let_def split: if_splits go.splits)
  moreover have v: "\<not> EndpointOverridden v" using assms(2) by (auto simp: NewTokenValidator_def split: sum.splits)
  moreover have "tokenValidator (shared w') = Some v \<and> \<not> tvInitInFlight (shared w')"
    using assms(1,2) by (simp add: assms(5) tvInit_goroutine_def undisturbed_def)
  moreover have "ValidateClaims False t \<noteq> None"
    if "jwt_Claims t = MapClaims claims" "toStringSlice (map_of claims ''aud'') \<noteq> [''pods.eks.amazonaws.com'']" for t claims
    using that unfolding ValidateClaims_None by (simp add: expectedAudience_def)
  ultimately show ?thesis by auto
qed

definition late_opts :: EksCredentialHandlerOpts where
  "late_opts = \<lparr>opt_ClusterName = ''c'', opt_CredentialRenewal = 600 * Second, opt_MaxCacheSize = 5, opt_RefreshQPS = 3,
                opt_EndpointOverridden = True\<rparr>"

theorem late_validator_ignores_the_override_witness:
  "\<exists>h r v1 v2. NewEksCredentialHandler (Inr demo_validator) late_opts = Ret h \<and> CredentialRetriever h = Some r \<and>
     tokenValidator r = Some v1 \<and> EndpointOverridden v1 \<and>
     tokenValidator (shared (snd (run_state (tvInit_goroutine agent_env (\<lambda>n. Inr demo_validator)) agent_world))) = Some v2 \<and>
     \<not> EndpointOverridden v2"
proof -
  have new: "NewTokenValidator Map.empty (Inr () :: goerr + unit) = Inr demo_validator"
    by (simp add: NewTokenValidator_def demo_validator_def)
  obtain h r where h: "NewEksCredentialHandler (Inr demo_validator) late_opts = Ret h" "CredentialRetriever h = Some r"
    by (auto simp: NewEksCredentialHandler_def NewCachedCredentialRetriever_def late_opts_def Let_def Second_def
        int_Seconds_def go_quot_def int64_id in_int64_def)
  show ?thesis
    using late_validator_ignores_the_override[OF agent_undisturbed new h refl, of agent_world] h
    by (simp add: new late_opts_def) blast
qed

end
